(* ===== verification/Kairos_Prelude.thy ===== *)
theory Kairos_Prelude
  imports Main
begin

text \<open>
  Shared vocabulary of the kairos model: identifiers, instants and durations, SQLSTATE codes,
  the result type of a service call with its sequencing functions, JSON values, the
  \<^emph>\<open>named\<close> collections of facts that carry the component proofs, and the list lemmas that
  several components use.

  A service of the source is a function \<open>'s \<Rightarrow> (exn + 'a) \<times> 's\<close> over the database state:
  \<open>Inl\<close> is a raised exception, \<open>Inr\<close> a returned value.
\<close>

section \<open>Identifiers, clocks and units\<close>

type_synonym uuid = nat
type_synonym instant = int        \<comment> \<open>microseconds since the epoch, UTC\<close>
type_synonym duration = int       \<comment> \<open>microseconds\<close>
type_synonym date = int           \<comment> \<open>proleptic day number, 0 is 1970-01-01\<close>
type_synonym time_of_day = int    \<comment> \<open>microseconds since local midnight\<close>
type_synonym sqlstate = string

abbreviation second :: duration where "second \<equiv> 1000000"
abbreviation minute :: duration where "minute \<equiv> 60 * second"
abbreviation hour :: duration where "hour \<equiv> 60 * minute"
abbreviation day :: duration where "day \<equiv> 24 * hour"

named_theorems service_defs \<open>definitions of services and of the statements they run\<close>
named_theorems frame_simps \<open>what a step leaves unchanged\<close>
named_theorems inv_intros \<open>preservation of the table invariants\<close>

section \<open>Sequencing of fallible stateful calls\<close>

definition ret :: "'a \<Rightarrow> 's \<Rightarrow> ('e + 'a) \<times> 's" where
  "ret x d = (Inr x, d)"

definition raise :: "'e \<Rightarrow> 's \<Rightarrow> ('e + 'a) \<times> 's" where
  "raise e d = (Inl e, d)"

definition query :: "('s \<Rightarrow> 'a) \<Rightarrow> 's \<Rightarrow> ('e + 'a) \<times> 's" where
  "query f d = (Inr (f d), d)"

definition bind_svc ::
  "('s \<Rightarrow> ('e + 'a) \<times> 's) \<Rightarrow> ('a \<Rightarrow> 's \<Rightarrow> ('e + 'b) \<times> 's) \<Rightarrow> 's \<Rightarrow> ('e + 'b) \<times> 's" where
  "bind_svc m f d = (case m d of (Inl e, d') \<Rightarrow> (Inl e, d') | (Inr x, d') \<Rightarrow> f x d')"

definition then_svc ::
  "('s \<Rightarrow> ('e + 'a) \<times> 's) \<Rightarrow> ('s \<Rightarrow> ('e + 'b) \<times> 's) \<Rightarrow> 's \<Rightarrow> ('e + 'b) \<times> 's" where
  "then_svc m k = bind_svc m (\<lambda>_. k)"

definition catch_svc ::
  "('s \<Rightarrow> ('e + 'a) \<times> 's) \<Rightarrow> ('e \<Rightarrow> 's \<Rightarrow> ('e + 'a) \<times> 's) \<Rightarrow> 's \<Rightarrow> ('e + 'a) \<times> 's" where
  "catch_svc m h d = (case m d of (Inl e, d') \<Rightarrow> h e d' | (Inr x, d') \<Rightarrow> (Inr x, d'))"

lemma ret_apply [simp]: "ret x d = (Inr x, d)"
  by (simp add: ret_def)

lemma raise_apply [simp]: "raise e d = (Inl e, d)"
  by (simp add: raise_def)

lemma query_apply [simp]: "query f d = (Inr (f d), d)"
  by (simp add: query_def)

lemma bind_svc_Inr [simp]: "m d = (Inr x, d') \<Longrightarrow> bind_svc m f d = f x d'"
  by (simp add: bind_svc_def)

lemma bind_svc_Inl [simp]: "m d = (Inl e, d') \<Longrightarrow> bind_svc m f d = (Inl e, d')"
  by (simp add: bind_svc_def)

lemma then_svc_Inr [simp]: "m d = (Inr x, d') \<Longrightarrow> then_svc m k d = k d'"
  by (simp add: then_svc_def)

lemma then_svc_Inl [simp]: "m d = (Inl e, d') \<Longrightarrow> then_svc m k d = (Inl e, d')"
  by (simp add: then_svc_def)

lemma catch_svc_Inr [simp]: "m d = (Inr x, d') \<Longrightarrow> catch_svc m h d = (Inr x, d')"
  by (simp add: catch_svc_def)

lemma catch_svc_Inl [simp]: "m d = (Inl e, d') \<Longrightarrow> catch_svc m h d = h e d'"
  by (simp add: catch_svc_def)

lemma bind_svc_cases:
  assumes "bind_svc m f d = (r, d')"
  obtains (err) e where "m d = (Inl e, d')" "r = Inl e"
        | (val) x d1 where "m d = (Inr x, d1)" "f x d1 = (r, d')"
  using assms by (auto simp: bind_svc_def split: prod.splits sum.splits)

lemma then_svc_cases:
  assumes "then_svc m k d = (r, d')"
  obtains (err) e where "m d = (Inl e, d')" "r = Inl e"
        | (val) x d1 where "m d = (Inr x, d1)" "k d1 = (r, d')"
  using assms unfolding then_svc_def by (elim bind_svc_cases) auto

text \<open>A property of the state that every step keeps is kept by the sequence.\<close>

definition keeps :: "('s \<Rightarrow> bool) \<Rightarrow> ('s \<Rightarrow> ('e + 'a) \<times> 's) \<Rightarrow> bool" where
  "keeps I m \<longleftrightarrow> (\<forall>d. I d \<longrightarrow> I (snd (m d)))"

lemma keepsI [intro?]: "(\<And>d. I d \<Longrightarrow> I (snd (m d))) \<Longrightarrow> keeps I m"
  by (simp add: keeps_def)

lemma keepsD: "keeps I m \<Longrightarrow> I d \<Longrightarrow> I (snd (m d))"
  by (simp add: keeps_def)

lemma keepsE: "keeps I m \<Longrightarrow> I d \<Longrightarrow> m d = (r, d') \<Longrightarrow> I d'"
  using keepsD[of I m d] by simp

lemma keeps_ret [inv_intros]: "keeps I (ret x)"
  by (simp add: keeps_def)

lemma keeps_raise [inv_intros]: "keeps I (raise e)"
  by (simp add: keeps_def)

lemma keeps_query [inv_intros]: "keeps I (query f)"
  by (simp add: keeps_def)

lemma keeps_bind [inv_intros]:
  assumes "keeps I m" "\<And>x. keeps I (f x)"
  shows "keeps I (bind_svc m f)"
  using assms by (fastforce simp: keeps_def bind_svc_def split: prod.splits sum.splits)

lemma keeps_then [inv_intros]: "keeps I m \<Longrightarrow> keeps I k \<Longrightarrow> keeps I (then_svc m k)"
  unfolding then_svc_def by (rule keeps_bind)

lemma keeps_catch [inv_intros]:
  assumes "keeps I m" "\<And>e. keeps I (h e)"
  shows "keeps I (catch_svc m h)"
  using assms by (fastforce simp: keeps_def catch_svc_def split: prod.splits sum.splits)

lemma keeps_if [inv_intros]: "keeps I m \<Longrightarrow> keeps I k \<Longrightarrow> keeps I (if b then m else k)"
  by simp

lemma keeps_option [inv_intros]:
  "keeps I m \<Longrightarrow> (\<And>x. keeps I (k x)) \<Longrightarrow> keeps I (case v of None \<Rightarrow> m | Some x \<Rightarrow> k x)"
  by (cases v) auto

text \<open>The exceptions a call can end with.\<close>

named_theorems raises_intros \<open>which exceptions a call can raise\<close>

definition raises :: "('e \<Rightarrow> bool) \<Rightarrow> ('s \<Rightarrow> ('e + 'a) \<times> 's) \<Rightarrow> bool" where
  "raises E m \<longleftrightarrow> (\<forall>d e d'. m d = (Inl e, d') \<longrightarrow> E e)"

lemma raisesI: "(\<And>d e d'. m d = (Inl e, d') \<Longrightarrow> E e) \<Longrightarrow> raises E m"
  by (auto simp: raises_def)

lemma raisesD: "raises E m \<Longrightarrow> m d = (Inl e, d') \<Longrightarrow> E e"
  by (auto simp: raises_def)

lemma raises_ret [raises_intros]: "raises E (ret x)"
  and raises_query [raises_intros]: "raises E (query f)"
  by (auto simp: raises_def)

lemma raises_raise [raises_intros]: "E e \<Longrightarrow> raises E (raise e)"
  by (auto simp: raises_def)

lemma raises_bind [raises_intros]:
  assumes "raises E m" "\<And>x. raises E (f x)"
  shows "raises E (bind_svc m f)"
proof (rule raisesI)
  fix d e d' assume "bind_svc m f d = (Inl e, d')"
  then show "E e"
  proof (cases rule: bind_svc_cases)
    case (err e') then show ?thesis using raisesD[OF assms(1)] by auto
  next
    case (val x d1) then show ?thesis using raisesD[OF assms(2)] by auto
  qed
qed

lemma raises_then [raises_intros]: "raises E m \<Longrightarrow> raises E k \<Longrightarrow> raises E (then_svc m k)"
  unfolding then_svc_def by (rule raises_bind)

lemma raises_if [raises_intros]: "raises E m \<Longrightarrow> raises E k \<Longrightarrow> raises E (if b then m else k)"
  by simp

lemma raises_option [raises_intros]:
  "raises E m \<Longrightarrow> (\<And>x. raises E (k x)) \<Longrightarrow> raises E (case v of None \<Rightarrow> m | Some x \<Rightarrow> k x)"
  by (cases v) auto

lemma raises_catch:
  assumes "raises F m" "\<And>e. F e \<Longrightarrow> raises E (h e)"
  shows "raises E (catch_svc m h)"
proof (rule raisesI)
  fix d e d' assume c: "catch_svc m h d = (Inl e, d')"
  obtain r d1 where m: "m d = (r, d1)" by (cases "m d")
  show "E e"
  proof (cases r)
    case (Inl e1)
    then have "h e1 d1 = (Inl e, d')" using c m by simp
    then show ?thesis using raisesD[OF assms(2)] raisesD[OF assms(1)] m Inl by blast
  next
    case (Inr x)
    then show ?thesis using c m by simp
  qed
qed

section \<open>JSON values\<close>

datatype json =
    JNull
  | JBool bool
  | JNum int
  | JStr string
  | JArr "json list"
  | JObj "(string \<times> json) list"

section \<open>Options\<close>

fun opt_all :: "('a \<Rightarrow> bool) \<Rightarrow> 'a option \<Rightarrow> bool" where
  "opt_all P None = True"
| "opt_all P (Some x) = P x"

section \<open>Lists\<close>

definition count_if :: "('a \<Rightarrow> bool) \<Rightarrow> 'a list \<Rightarrow> nat" where
  "count_if P xs = length (filter P xs)"

lemma count_if_simps [simp]:
  "count_if P [] = 0"
  "count_if P (x # xs) = (if P x then Suc (count_if P xs) else count_if P xs)"
  "count_if P (xs @ ys) = count_if P xs + count_if P ys"
  by (auto simp: count_if_def)

lemma count_if_0_iff [simp]: "count_if P xs = 0 \<longleftrightarrow> list_all (\<lambda>x. \<not> P x) xs"
  by (induction xs) auto

lemma count_if_0_iff' [simp]: "0 = count_if P xs \<longleftrightarrow> list_all (\<lambda>x. \<not> P x) xs"
  by (metis count_if_0_iff)

lemma find_Some_filter: "find P xs = Some x \<longleftrightarrow> (\<exists>ys. filter P xs = x # ys)"
  by (induction xs) auto

lemma find_None_filter: "find P xs = None \<longleftrightarrow> filter P xs = []"
  by (induction xs) auto

lemma sorted_wrt_filter': "sorted_wrt R xs \<Longrightarrow> sorted_wrt R (filter P xs)"
  by (rule sorted_wrt_filter)

lemma sorted_wrt_map_mono:
  assumes "sorted_wrt R xs" "\<And>x y. x \<in> set xs \<Longrightarrow> y \<in> set xs \<Longrightarrow> R x y \<Longrightarrow> S (f x) (f y)"
  shows "sorted_wrt S (map f xs)"
  using assms by (induction xs) auto

lemma map_if_not: "list_all (\<lambda>x. \<not> P x) xs \<Longrightarrow> map (\<lambda>x. if P x then f x else x) xs = xs"
  by (induction xs) auto

section \<open>ORDER BY\<close>

fun insert_by :: "('a \<Rightarrow> 'a \<Rightarrow> bool) \<Rightarrow> 'a \<Rightarrow> 'a list \<Rightarrow> 'a list" where
  "insert_by le x [] = [x]"
| "insert_by le x (y # ys) = (if le x y then x # y # ys else y # insert_by le x ys)"

definition order_by :: "('a \<Rightarrow> 'a \<Rightarrow> bool) \<Rightarrow> 'a list \<Rightarrow> 'a list" where
  "order_by le xs = foldr (insert_by le) xs []"

lemma set_insert_by [simp]: "set (insert_by le x xs) = insert x (set xs)"
  by (induction xs) auto

lemma set_order_by [simp]: "set (order_by le xs) = set xs"
  by (induction xs) (auto simp: order_by_def)

lemma length_insert_by [simp]: "length (insert_by le x xs) = Suc (length xs)"
  by (induction xs) auto

lemma length_order_by [simp]: "length (order_by le xs) = length xs"
  by (induction xs) (auto simp: order_by_def)

lemma sorted_insert_by:
  assumes "sorted_wrt le xs" "\<And>a b. le a b \<or> le b a" "\<And>a b c. le a b \<Longrightarrow> le b c \<Longrightarrow> le a c"
  shows "sorted_wrt le (insert_by le x xs)"
  using assms(1)
proof (induction xs)
  case (Cons y ys)
  show ?case
  proof (cases "le x y")
    case True
    then show ?thesis using Cons.prems assms(3) by auto
  next
    case False
    then have "le y x" using assms(2) by blast
    then show ?thesis using Cons False by auto
  qed
qed simp

lemma sorted_order_by:
  assumes "\<And>a b. le a b \<or> le b a" "\<And>a b c. le a b \<Longrightarrow> le b c \<Longrightarrow> le a c"
  shows "sorted_wrt le (order_by le xs)"
proof (induction xs)
  case (Cons x xs)
  then show ?case using sorted_insert_by[OF _ assms] by (simp add: order_by_def)
qed (simp add: order_by_def)

section \<open>Splitting and joining texts\<close>

text \<open>\<open>s.split(c)\<close> and \<open>sep.join(xs)\<close>.\<close>

fun split_on :: "char \<Rightarrow> string \<Rightarrow> string list" where
  "split_on c [] = ['''']"
| "split_on c (x # xs) = (if x = c then [] # split_on c xs
     else (case split_on c xs of [] \<Rightarrow> [[x]] | t # ts \<Rightarrow> (x # t) # ts))"

fun join_text :: "string \<Rightarrow> string list \<Rightarrow> string" where
  "join_text sep [] = ''''"
| "join_text sep [x] = x"
| "join_text sep (x # y # xs) = x @ sep @ join_text sep (y # xs)"

lemma split_on_not_empty [simp]: "split_on c s \<noteq> []"
  by (induction s) (auto split: list.split)

lemma split_on_none [simp]: "c \<notin> set s \<Longrightarrow> split_on c s = [s]"
  by (induction s) auto

lemma split_on_append [simp]: "c \<notin> set s \<Longrightarrow> split_on c (s @ c # t) = s # split_on c t"
  by (induction s) auto

lemma split_parts: "t \<in> set (split_on c s) \<Longrightarrow> c \<notin> set t"
  by (induction s arbitrary: t) (auto split: list.splits if_splits)

lemma join_cons: "ts \<noteq> [] \<Longrightarrow> join_text sep (t # ts) = t @ sep @ join_text sep ts"
  by (cases ts) auto

lemma join_split [simp]: "join_text [c] (split_on c s) = s"
proof (induction s)
  case (Cons x xs)
  show ?case
  proof (cases "x = c")
    case True
    then show ?thesis using Cons by (simp add: join_cons)
  next
    case False
    obtain t ts where ts: "split_on c xs = t # ts" by (meson neq_Nil_conv split_on_not_empty)
    then show ?thesis using Cons False by (cases ts) auto
  qed
qed simp

lemma split_join: "ts \<noteq> [] \<Longrightarrow> (\<And>t. t \<in> set ts \<Longrightarrow> c \<notin> set t) \<Longrightarrow> split_on c (join_text [c] ts) = ts"
  by (induction ts rule: induct_list012) simp_all

end
