(* ===== verification/Tstzrange.thy ===== *)
theory Tstzrange
  imports Kairos_Prelude
begin

text \<open>
  Half-open timestamp ranges, as PostgreSQL's \<open>tstzrange\<close> and Django's \<open>DateTimeRangeField\<close>
  give them for a Python pair \<open>(start, end)\<close>: bounds \<open>[)\<close>, empty when both ends coincide, and
  refused (SQLSTATE 22000) when the lower bound is above the upper one, so no stored range has its
  bounds the wrong way round and \<open>hi \<le> lo\<close> says that the range is empty.  The operators the
  source uses are \<open>&&\<close> (overlap, in the exclusion constraint, the cleanup DELETE and
  \<open>time_range__overlap\<close>) and \<open>@>\<close> (containment, in \<open>time_range__contained_by\<close>).
\<close>

datatype trange = TR (lo: instant) (hi: instant)

definition range_isempty :: "trange \<Rightarrow> bool" where
  "range_isempty r = (hi r \<le> lo r)"

definition mk_range :: "instant \<Rightarrow> instant \<Rightarrow> sqlstate + trange" where
  "mk_range s e = (if e < s then Inl ''22000'' else Inr (TR s e))"

definition overlaps :: "trange \<Rightarrow> trange \<Rightarrow> bool" where
  "overlaps a b = (\<not> range_isempty a \<and> \<not> range_isempty b \<and> lo a < hi b \<and> lo b < hi a)"

definition contained_by :: "trange \<Rightarrow> trange \<Rightarrow> bool" where
  "contained_by a b = (range_isempty a \<or> (\<not> range_isempty b \<and> lo b \<le> lo a \<and> hi a \<le> hi b))"

definition proper :: "trange \<Rightarrow> bool" where
  "proper r = (lo r < hi r)"

definition instants :: "trange \<Rightarrow> instant set" where
  "instants r = {t. lo r \<le> t \<and> t < hi r}"

text \<open>Ranges are ordered by lower, then upper bound, as PostgreSQL's range btree order has it.\<close>

instantiation trange :: linorder
begin

definition less_eq_trange :: "trange \<Rightarrow> trange \<Rightarrow> bool" where
  "less_eq_trange a b = (lo a < lo b \<or> (lo a = lo b \<and> hi a \<le> hi b))"

definition less_trange :: "trange \<Rightarrow> trange \<Rightarrow> bool" where
  "less_trange a b = (lo a < lo b \<or> (lo a = lo b \<and> hi a < hi b))"

instance
proof
  fix a b c :: trange
  show "(a < b) = (a \<le> b \<and> \<not> b \<le> a)"
    by (auto simp: less_eq_trange_def less_trange_def)
  show "a \<le> a"
    by (simp add: less_eq_trange_def)
  show "a \<le> b \<Longrightarrow> b \<le> c \<Longrightarrow> a \<le> c"
    by (auto simp: less_eq_trange_def)
  show "a \<le> b \<Longrightarrow> b \<le> a \<Longrightarrow> a = b"
    by (auto simp: less_eq_trange_def trange.expand)
  show "a \<le> b \<or> b \<le> a"
    by (auto simp: less_eq_trange_def)
qed

end

lemma mk_range_Inr_iff: "mk_range s e = Inr r \<longleftrightarrow> s \<le> e \<and> r = TR s e"
  by (auto simp: mk_range_def)

lemma mk_range_less [simp]: "s \<le> e \<Longrightarrow> mk_range s e = Inr (TR s e)"
  by (simp add: mk_range_def)

lemma mk_range_Inl_iff: "mk_range s e = Inl st \<longleftrightarrow> e < s \<and> st = ''22000''"
  by (auto simp: mk_range_def)

lemma isempty_proper: "range_isempty r \<longleftrightarrow> \<not> proper r"
  by (auto simp: range_isempty_def proper_def)

lemma overlaps_sym: "overlaps a b = overlaps b a"
  by (auto simp: overlaps_def)

lemma overlaps_refl: "overlaps a a \<longleftrightarrow> proper a"
  by (auto simp: overlaps_def range_isempty_def proper_def)

lemma overlaps_instants: "overlaps a b \<longleftrightarrow> instants a \<inter> instants b \<noteq> {}"
proof
  assume o: "overlaps a b"
  have "max (lo a) (lo b) \<in> instants a \<inter> instants b"
    using o by (auto simp: overlaps_def range_isempty_def instants_def)
  then show "instants a \<inter> instants b \<noteq> {}" by blast
next
  assume "instants a \<inter> instants b \<noteq> {}"
  then show "overlaps a b"
    by (auto simp: overlaps_def range_isempty_def instants_def)
qed

lemma contained_by_instants:
  assumes "proper a"
  shows "contained_by a b \<longleftrightarrow> instants a \<subseteq> instants b"
proof
  assume "contained_by a b"
  then show "instants a \<subseteq> instants b"
    using assms by (auto simp: contained_by_def range_isempty_def instants_def proper_def)
next
  assume sub: "instants a \<subseteq> instants b"
  have "lo a \<in> instants a" "hi a - 1 \<in> instants a"
    using assms by (auto simp: instants_def proper_def)
  then show "contained_by a b"
    using sub assms unfolding contained_by_def range_isempty_def instants_def proper_def
    by (smt (verit, best) in_mono mem_Collect_eq)
qed

lemma contained_overlaps:
  "contained_by a b \<Longrightarrow> proper a \<Longrightarrow> overlaps a c \<Longrightarrow> proper b \<Longrightarrow> overlaps b c"
  by (auto simp: contained_by_def overlaps_def range_isempty_def proper_def)

lemma contained_overlaps_self: "contained_by a b \<Longrightarrow> proper a \<Longrightarrow> overlaps a b"
  by (auto simp: contained_by_def overlaps_def range_isempty_def proper_def)

lemma disjoint_contained:
  "contained_by a b \<Longrightarrow> \<not> overlaps b c \<Longrightarrow> \<not> overlaps a c"
  by (auto simp: contained_by_def overlaps_def range_isempty_def)

end
