(* ===== verification/Tables.thy ===== *)
theory Tables
  imports Kairos_Prelude
begin

text \<open>
  SQL tables with immediate constraints.  A table is the list of its rows; a constraint check
  gives the SQLSTATE with which PostgreSQL refuses a row next to the other rows, or nothing.
  INSERT appends a checked row, UPDATE rewrites the matching rows one after the other (a
  constraint that is not deferrable is checked row by row, against the other rows as they are at
  that moment), DELETE filters.

  The locale \<open>checked_table\<close> is the contract of a table with such constraints: a row is accepted
  exactly when it satisfies the row constraints and every pair constraint against the other
  rows.  What the services rely on is proved once, from that contract; each table of the schema
  interprets it with its own constraints.
\<close>

type_synonym 'r check = "'r \<Rightarrow> 'r list \<Rightarrow> sqlstate option"

definition ins_row :: "'r check \<Rightarrow> 'r \<Rightarrow> 'r list \<Rightarrow> sqlstate + 'r list" where
  "ins_row check r rs = (case check r rs of Some e \<Rightarrow> Inl e | None \<Rightarrow> Inr (rs @ [r]))"

fun upd_rows ::
  "'r check \<Rightarrow> ('r \<Rightarrow> bool) \<Rightarrow> ('r \<Rightarrow> 'r) \<Rightarrow> 'r list \<Rightarrow> 'r list \<Rightarrow> sqlstate + 'r list" where
  "upd_rows check P f pre [] = Inr pre"
| "upd_rows check P f pre (r # rs) =
     (if P r
      then (case check (f r) (pre @ rs) of
              Some e \<Rightarrow> Inl e
            | None \<Rightarrow> upd_rows check P f (pre @ [f r]) rs)
      else upd_rows check P f (pre @ [r]) rs)"

definition del_rows :: "('r \<Rightarrow> bool) \<Rightarrow> 'r list \<Rightarrow> 'r list" where
  "del_rows P rs = filter (\<lambda>r. \<not> P r) rs"

definition updated :: "('r \<Rightarrow> bool) \<Rightarrow> ('r \<Rightarrow> 'r) \<Rightarrow> 'r list \<Rightarrow> 'r list" where
  "updated P f rs = map (\<lambda>r. if P r then f r else r) rs"

definition table_ok :: "('r \<Rightarrow> bool) \<Rightarrow> ('r \<Rightarrow> 'r \<Rightarrow> bool) \<Rightarrow> 'r list \<Rightarrow> bool" where
  "table_ok row_ok pair_ok rs = (list_all row_ok rs \<and> sorted_wrt pair_ok rs)"

lemma ins_row_Inr_iff: "ins_row check r rs = Inr rs' \<longleftrightarrow> check r rs = None \<and> rs' = rs @ [r]"
  by (auto simp: ins_row_def split: option.splits)

lemma ins_row_Inl_iff: "ins_row check r rs = Inl e \<longleftrightarrow> check r rs = Some e"
  by (auto simp: ins_row_def split: option.splits)

lemma updated_simps [simp]:
  "updated P f [] = []"
  "updated P f (r # rs) = (if P r then f r else r) # updated P f rs"
  "updated P f (xs @ ys) = updated P f xs @ updated P f ys"
  by (auto simp: updated_def)

lemma updated_none: "list_all (\<lambda>r. \<not> P r) rs \<Longrightarrow> updated P f rs = rs"
  unfolding updated_def by (rule map_if_not)

lemma length_updated [simp]: "length (updated P f rs) = length rs"
  by (simp add: updated_def)

lemma set_updated: "set (updated P f rs) = (\<lambda>r. if P r then f r else r) ` set rs"
  by (auto simp: updated_def)

lemma filter_updated:
  assumes "\<And>r. P r \<Longrightarrow> Q (f r) = Q r" "\<And>r. P r \<Longrightarrow> Q r \<Longrightarrow> f r = r"
  shows "filter Q (updated P f rs) = filter Q rs"
  using assms by (induction rs) auto

lemma map_updated: "(\<And>r. P r \<Longrightarrow> g (f r) = g r) \<Longrightarrow> map g (updated P f rs) = map g rs"
  by (induction rs) auto

lemma upd_rows_Inr:
  "upd_rows check P f pre rs = Inr rs' \<Longrightarrow> rs' = pre @ updated P f rs"
proof (induction rs arbitrary: pre)
  case (Cons r rs)
  then show ?case
    by (cases "P r") (fastforce split: option.splits)+
qed simp

lemma upd_rows_none:
  "list_all (\<lambda>r. \<not> P r) rs \<Longrightarrow> upd_rows check P f pre rs = Inr (pre @ rs)"
  by (induction rs arbitrary: pre) auto

lemma upd_rows_skip:
  "list_all (\<lambda>r. \<not> P r) xs \<Longrightarrow>
   upd_rows check P f pre (xs @ rs) = upd_rows check P f (pre @ xs) rs"
  by (induction xs arbitrary: pre) auto

text \<open>The UPDATE of a single row compares it with every other row, never with itself.\<close>

lemma upd_rows_one:
  assumes "list_all (\<lambda>r. \<not> P r) xs" "P r" "list_all (\<lambda>r. \<not> P r) ys"
  shows "upd_rows check P f [] (xs @ r # ys) =
    (case check (f r) (xs @ ys) of Some e \<Rightarrow> Inl e | None \<Rightarrow> Inr (xs @ f r # ys))"
  using assms by (simp add: upd_rows_skip upd_rows_none split: option.splits)

lemma del_rows_simps [simp]:
  "del_rows P [] = []"
  "del_rows P (r # rs) = (if P r then del_rows P rs else r # del_rows P rs)"
  by (auto simp: del_rows_def)

lemma set_del_rows [simp]: "set (del_rows P rs) = {r \<in> set rs. \<not> P r}"
  by (auto simp: del_rows_def)

lemma del_rows_none: "list_all (\<lambda>r. \<not> P r) rs \<Longrightarrow> del_rows P rs = rs"
  by (induction rs) auto

section \<open>The contract of a table with immediate constraints\<close>

locale checked_table =
  fixes check :: "'r \<Rightarrow> 'r list \<Rightarrow> sqlstate option"
    and row_ok :: "'r \<Rightarrow> bool"
    and pair_ok :: "'r \<Rightarrow> 'r \<Rightarrow> bool"
  assumes check_None_iff: "check r rs = None \<longleftrightarrow> row_ok r \<and> list_all (pair_ok r) rs"
    and pair_sym: "pair_ok r s \<longleftrightarrow> pair_ok s r"
begin

lemma ok_Nil: "table_ok row_ok pair_ok []"
  by (simp add: table_ok_def)

lemma ok_insert:
  assumes "table_ok row_ok pair_ok rs" "ins_row check r rs = Inr rs'"
  shows "table_ok row_ok pair_ok rs'"
  using assms pair_sym
  by (auto simp: table_ok_def ins_row_Inr_iff check_None_iff sorted_wrt_append list_all_iff)

lemma insert_rejects:
  assumes "ins_row check r rs = Inl e"
  shows "\<not> row_ok r \<or> (\<exists>s \<in> set rs. \<not> pair_ok r s)"
  using assms check_None_iff[of r rs] by (auto simp: ins_row_Inl_iff list_all_iff)

lemma ok_delete: "table_ok row_ok pair_ok rs \<Longrightarrow> table_ok row_ok pair_ok (del_rows P rs)"
  by (auto simp: table_ok_def del_rows_def list_all_iff sorted_wrt_filter)

lemma ok_update_aux:
  assumes "upd_rows check P f pre rs = Inr rs'" "table_ok row_ok pair_ok (pre @ rs)"
  shows "table_ok row_ok pair_ok rs'"
  using assms
proof (induction rs arbitrary: pre)
  case (Cons r rs)
  show ?case
  proof (cases "P r")
    case True
    then have chk: "check (f r) (pre @ rs) = None"
      and rec: "upd_rows check P f (pre @ [f r]) rs = Inr rs'"
      using Cons.prems by (auto split: option.splits)
    have "table_ok row_ok pair_ok ((pre @ [f r]) @ rs)"
      using Cons.prems(2) chk pair_sym
      by (auto simp: table_ok_def check_None_iff list_all_iff sorted_wrt_append)
    then show ?thesis using Cons.IH rec by blast
  next
    case False
    then show ?thesis using Cons.IH[of "pre @ [r]"] Cons.prems by simp
  qed
qed simp

lemma ok_update:
  "upd_rows check P f [] rs = Inr rs' \<Longrightarrow> table_ok row_ok pair_ok rs \<Longrightarrow> table_ok row_ok pair_ok rs'"
  using ok_update_aux[of P f "[]"] by simp

lemma pair_ok_update:
  assumes "\<And>r s. Q r s \<Longrightarrow> pair_ok r s \<Longrightarrow> pair_ok (f r) s"
  shows "list_all (pair_ok r) rs \<Longrightarrow> list_all (Q r) rs \<Longrightarrow> list_all (pair_ok (f r)) rs"
  using assms by (induction rs) auto

text \<open>An UPDATE whose new rows satisfy the row constraints and constrain the others no more than
  the old rows did is never refused.\<close>

lemma update_relaxing_aux:
  assumes "table_ok row_ok pair_ok (pre @ rs)"
    and "\<And>r. r \<in> set rs \<Longrightarrow> P r \<Longrightarrow> row_ok (f r)"
    and "\<And>r s. r \<in> set rs \<Longrightarrow> P r \<Longrightarrow> pair_ok r s \<Longrightarrow> pair_ok (f r) s"
  shows "upd_rows check P f pre rs = Inr (pre @ updated P f rs)"
  using assms
proof (induction rs arbitrary: pre)
  case (Cons r rs)
  have ok: "table_ok row_ok pair_ok ((pre @ [if P r then f r else r]) @ rs)"
    using Cons.prems pair_sym
    by (auto simp: table_ok_def list_all_iff sorted_wrt_append)
  have IH: "upd_rows check P f (pre @ [if P r then f r else r]) rs
      = Inr ((pre @ [if P r then f r else r]) @ updated P f rs)"
    by (rule Cons.IH[OF ok]) (use Cons.prems in auto)
  have "check (f r) (pre @ rs) = None" if "P r"
    using that Cons.prems pair_sym
    by (auto simp: check_None_iff table_ok_def list_all_iff sorted_wrt_append)
  then show ?case using IH by auto
qed simp

lemma update_relaxing:
  assumes "table_ok row_ok pair_ok rs"
    and "\<And>r. r \<in> set rs \<Longrightarrow> P r \<Longrightarrow> row_ok (f r)"
    and "\<And>r s. r \<in> set rs \<Longrightarrow> P r \<Longrightarrow> pair_ok r s \<Longrightarrow> pair_ok (f r) s"
  shows "upd_rows check P f [] rs = Inr (updated P f rs)"
  using update_relaxing_aux[of "[]" rs P f] assms by simp

text \<open>Accepted rows are pairwise compatible, in either order.\<close>

lemma ok_pairwise:
  assumes "table_ok row_ok pair_ok rs" "i < length rs" "j < length rs" "i \<noteq> j"
  shows "pair_ok (rs ! i) (rs ! j)"
proof (cases "i < j")
  case True
  then show ?thesis using assms by (auto simp: table_ok_def sorted_wrt_iff_nth_less)
next
  case False
  then have "pair_ok (rs ! j) (rs ! i)"
    using assms by (auto simp: table_ok_def sorted_wrt_iff_nth_less)
  then show ?thesis using pair_sym by blast
qed

lemma ok_row: "table_ok row_ok pair_ok rs \<Longrightarrow> r \<in> set rs \<Longrightarrow> row_ok r"
  by (auto simp: table_ok_def list_all_iff)

lemma ok_pair:
  assumes "table_ok row_ok pair_ok rs" "r \<in> set rs" "s \<in> set rs" "r \<noteq> s"
  shows "pair_ok r s"
  using assms ok_pairwise by (metis in_set_conv_nth)

end

end
