(* ===== verification/Exceptions.thy ===== *)
theory Exceptions
  imports Kairos_Prelude
begin

text \<open>
  The exceptions of the write path (\<open>core/exceptions.py\<close>), the framework exceptions the views
  meet, and their single translation into an HTTP response (\<open>core/drf.py\<close>).  A database error is
  a value that carries its SQLSTATE, or none for a failure of the connection itself.
\<close>

datatype exn =
    SlotUnavailableError
  | AlreadyOnWaitlistError
  | OfferExpiredError
  | OfferAlreadyResolvedError
  | ServiceUnavailableError (retry_after_seconds: int) (cause: string)
  | NotFoundError
  | PolicyValidationError (field: string) (issue: string)
  | RequestInProgressError
  | IdempotencyKeyConflictError
  | PreviewExpiredError
  | UnacknowledgedConflictsError
  | SlotAlreadyAvailableError
  | AlreadyResourceAdminError
  | DatabaseError (sqlstate_of: "sqlstate option")
  | DoesNotExist
  | AssertionError
  | ValueError string
  | TypeError string
  | DjangoValidationError
  | OSError
  | DRFValidationError json
  | NotAuthenticated
  | AuthenticationFailed string
  | PermissionDenied
  | Throttled "int option" string
  | DRFNotFound
  | APIException int string

section \<open>Recordable outcomes\<close>

definition is_recordable :: "exn \<Rightarrow> bool" where
  "is_recordable e = (e \<in> {SlotUnavailableError, AlreadyOnWaitlistError, OfferExpiredError,
                            OfferAlreadyResolvedError})"

lemma is_recordable_simps [simp]:
  "is_recordable SlotUnavailableError" "is_recordable AlreadyOnWaitlistError"
  "is_recordable OfferExpiredError" "is_recordable OfferAlreadyResolvedError"
  "\<not> is_recordable (ServiceUnavailableError n c)" "\<not> is_recordable (DatabaseError s)"
  "\<not> is_recordable DoesNotExist" "\<not> is_recordable RequestInProgressError"
  "\<not> is_recordable IdempotencyKeyConflictError" "\<not> is_recordable AssertionError"
  "\<not> is_recordable NotFoundError" "\<not> is_recordable (PolicyValidationError f i)"
  "\<not> is_recordable PreviewExpiredError" "\<not> is_recordable UnacknowledgedConflictsError"
  "\<not> is_recordable (ValueError m)"
  by (auto simp: is_recordable_def)

fun recordable_code :: "exn \<Rightarrow> string" where
  "recordable_code SlotUnavailableError = ''slot_unavailable''"
| "recordable_code AlreadyOnWaitlistError = ''already_on_waitlist''"
| "recordable_code OfferExpiredError = ''offer_expired''"
| "recordable_code OfferAlreadyResolvedError = ''offer_already_resolved''"
| "recordable_code _ = ''''"

fun recordable_message :: "exn \<Rightarrow> string" where
  "recordable_message SlotUnavailableError = ''This time slot is no longer available.''"
| "recordable_message AlreadyOnWaitlistError =
     ''You already have a live waitlist entry for this resource and time range.''"
| "recordable_message OfferExpiredError = ''This offer has expired or is no longer valid.''"
| "recordable_message OfferAlreadyResolvedError =
     ''This offer has already been confirmed or declined.''"
| "recordable_message _ = ''''"

definition recordable_http_status :: "exn \<Rightarrow> int" where
  "recordable_http_status e = 409"

section \<open>The error envelope and the exception handler\<close>

definition opt_str :: "string option \<Rightarrow> json" where
  "opt_str v = (case v of None \<Rightarrow> JNull | Some s \<Rightarrow> JStr s)"

definition build_error_envelope ::
  "string \<Rightarrow> string \<Rightarrow> json option \<Rightarrow> string option \<Rightarrow> json" where
  "build_error_envelope code message details request_id =
     JObj [(''error'', JObj [(''code'', JStr code), (''message'', JStr message),
             (''details'', (case details of None \<Rightarrow> JObj [] | Some d \<Rightarrow> d)),
             (''request_id'', opt_str request_id)])]"

record http_response =
  rp_status :: int
  rp_body :: json
  rp_retry_after :: "int option"
  rp_error_cause :: "string option"

definition error_response ::
  "int \<Rightarrow> string \<Rightarrow> string \<Rightarrow> json option \<Rightarrow> string option \<Rightarrow> http_response" where
  "error_response status code message details request_id =
     \<lparr> rp_status = status, rp_body = build_error_envelope code message details request_id,
       rp_retry_after = None, rp_error_cause = None \<rparr>"

fun auth_failure_shape :: "exn \<Rightarrow> string" where
  "auth_failure_shape (AuthenticationFailed code) = (if code = '''' then ''unknown'' else code)"
| "auth_failure_shape NotAuthenticated = ''not_authenticated''"
| "auth_failure_shape _ = ''unknown''"

fun map_drf_exception :: "exn \<Rightarrow> string \<times> string" where
  "map_drf_exception (DRFValidationError d) =
     (''validation_error'', ''The request failed validation.'')"
| "map_drf_exception NotAuthenticated = (''unauthorized'', ''Authentication is required.'')"
| "map_drf_exception (AuthenticationFailed c) = (''unauthorized'', ''Authentication is required.'')"
| "map_drf_exception PermissionDenied =
     (''permission_denied'', ''You do not have permission to perform this action.'')"
| "map_drf_exception DRFNotFound = (''not_found'', ''The requested resource was not found.'')"
| "map_drf_exception (Throttled w c) = (''rate_limited'', ''Too many requests.'')"
| "map_drf_exception (APIException st msg) = (''validation_error'', msg)"
| "map_drf_exception _ = (''validation_error'', '''')"

text \<open>The status the framework's own default handler gives its exceptions; nothing for an
  exception it does not know, which surfaces as a 500.  Both authenticators of the source declare
  a challenge header, so the framework does not downgrade a 401 to a 403.  Any other exception of
  the framework (a parse error, a method that is not allowed) is \<open>APIException\<close>.\<close>

fun drf_default_status :: "exn \<Rightarrow> int option" where
  "drf_default_status (DRFValidationError d) = Some 400"
| "drf_default_status NotAuthenticated = Some 401"
| "drf_default_status (AuthenticationFailed c) = Some 401"
| "drf_default_status PermissionDenied = Some 403"
| "drf_default_status (Throttled w c) = Some 429"
| "drf_default_status DRFNotFound = Some 404"
| "drf_default_status (APIException st msg) = Some st"
| "drf_default_status _ = None"

fun drf_error_cause :: "exn \<Rightarrow> string option" where
  "drf_error_cause NotAuthenticated = Some (auth_failure_shape NotAuthenticated)"
| "drf_error_cause (AuthenticationFailed c) = Some (auth_failure_shape (AuthenticationFailed c))"
| "drf_error_cause (Throttled w c) = Some c"
| "drf_error_cause _ = None"

definition kairos_exception_handler :: "exn \<Rightarrow> string option \<Rightarrow> http_response option" where
  "kairos_exception_handler e rid =
    (if is_recordable e
     then Some (error_response (recordable_http_status e) (recordable_code e)
                  (recordable_message e) None rid)
     else case e of
       ServiceUnavailableError n c \<Rightarrow>
         Some ((error_response 503 ''service_unavailable''
            ''The outcome of this request is unknown. Retry the same request.'' None rid)
            \<lparr> rp_retry_after := Some n, rp_error_cause := Some c \<rparr>)
     | RequestInProgressError \<Rightarrow>
         Some (error_response 409 ''request_in_progress''
            ''An earlier request with this idempotency key is still executing.'' None rid)
     | IdempotencyKeyConflictError \<Rightarrow>
         Some (error_response 422 ''idempotency_key_conflict''
            ''This idempotency key was already used with a different request body.'' None rid)
     | PreviewExpiredError \<Rightarrow>
         Some (error_response 409 ''preview_expired''
            ''This preview has expired or is invalid. Request a new preview.'' None rid)
     | UnacknowledgedConflictsError \<Rightarrow>
         Some (error_response 409 ''unacknowledged_conflicts''
            ''The preview reported conflicts or time adjustments this request did not acknowledge.''
            None rid)
     | AlreadyResourceAdminError \<Rightarrow>
         Some (error_response 409 ''already_resource_admin''
            ''This user already administers this resource.'' None rid)
     | SlotAlreadyAvailableError \<Rightarrow>
         Some (error_response 422 ''slot_already_available''
            ''This time range is currently available - book it directly.'' None rid)
     | NotFoundError \<Rightarrow>
         Some (error_response 404 ''not_found'' ''The requested resource was not found.'' None rid)
     | PolicyValidationError f i \<Rightarrow>
         Some (error_response 400 ''validation_error'' ''The request failed validation.''
            (Some (JObj [(''field'', JStr f), (''issue'', JStr i)])) rid)
     | _ \<Rightarrow> (case drf_default_status e of
          None \<Rightarrow> None
        | Some st \<Rightarrow>
            Some ((error_response st (fst (map_drf_exception e)) (snd (map_drf_exception e))
                 (case e of DRFValidationError d \<Rightarrow> Some d | _ \<Rightarrow> None) rid)
                 \<lparr> rp_error_cause := drf_error_cause e \<rparr>)))"

text \<open>What a client sees of an exception: a bare 500 when the handler declines.\<close>

definition response_status :: "exn \<Rightarrow> int" where
  "response_status e =
     (case kairos_exception_handler e None of None \<Rightarrow> 500 | Some r \<Rightarrow> rp_status r)"

lemma response_status_simps [simp]:
  "response_status SlotUnavailableError = 409"
  "response_status AlreadyOnWaitlistError = 409"
  "response_status OfferExpiredError = 409"
  "response_status OfferAlreadyResolvedError = 409"
  "response_status (ServiceUnavailableError n c) = 503"
  "response_status NotFoundError = 404"
  "response_status RequestInProgressError = 409"
  "response_status IdempotencyKeyConflictError = 422"
  "response_status (DatabaseError s) = 500"
  "response_status DoesNotExist = 500"
  "response_status AssertionError = 500"
  by (simp_all add: response_status_def kairos_exception_handler_def error_response_def
        recordable_http_status_def)

lemma handler_declines_iff:
  "kairos_exception_handler e rid = None \<longleftrightarrow>
     (\<exists>s. e = DatabaseError s) \<or> e = DoesNotExist \<or> e = AssertionError \<or> (\<exists>m. e = ValueError m) \<or>
     (\<exists>m. e = TypeError m) \<or> e = DjangoValidationError \<or> e = OSError"
  by (cases e) (auto simp: kairos_exception_handler_def error_response_def is_recordable_def)

end
