(* ===== verification/Constants.thy ===== *)
theory Constants
  imports Kairos_Prelude
begin

text \<open>
  \<open>core/constants.py\<close>: the bounds and intervals of the system at their source defaults (each can
  be set through the environment; the model keeps the values the source names).
\<close>

definition MAX_ADVANCE_HORIZON_DAYS :: int where "MAX_ADVANCE_HORIZON_DAYS = 365"
definition IDEMPOTENCY_RETENTION_HOURS :: int where "IDEMPOTENCY_RETENTION_HOURS = 24"
definition MAX_AVAILABILITY_QUERY_DAYS :: int where "MAX_AVAILABILITY_QUERY_DAYS = 92"
definition MAX_SERIES_OCCURRENCES :: int where "MAX_SERIES_OCCURRENCES = 100"
definition PREVIEW_TOKEN_TTL_SECONDS :: int where "PREVIEW_TOKEN_TTL_SECONDS = 15 * 60"
definition ROLLING_MATERIALIZATION_INTERVAL_SECONDS :: int where
  "ROLLING_MATERIALIZATION_INTERVAL_SECONDS = 60 * 60"
definition TZDATA_REMATERIALIZATION_INTERVAL_SECONDS :: int where
  "TZDATA_REMATERIALIZATION_INTERVAL_SECONDS = 60 * 60"
definition OFFER_WINDOW_MINUTES :: int where "OFFER_WINDOW_MINUTES = 15"
definition HOLD_REAPER_INTERVAL_SECONDS :: int where "HOLD_REAPER_INTERVAL_SECONDS = 30"
definition RECONCILIATION_INTERVAL_SECONDS :: int where "RECONCILIATION_INTERVAL_SECONDS = 60 * 60"
definition SCHEMA_ASSERTION_INTERVAL_SECONDS :: int where
  "SCHEMA_ASSERTION_INTERVAL_SECONDS = 60 * 60"
definition RECONCILIATION_STALE_THRESHOLD_SECONDS :: int where
  "RECONCILIATION_STALE_THRESHOLD_SECONDS = RECONCILIATION_INTERVAL_SECONDS * 2"
definition SCHEMA_ASSERTION_STALE_THRESHOLD_SECONDS :: int where
  "SCHEMA_ASSERTION_STALE_THRESHOLD_SECONDS = SCHEMA_ASSERTION_INTERVAL_SECONDS * 2"
definition SERIES_MATERIALIZATION_STALE_THRESHOLD_SECONDS :: int where
  "SERIES_MATERIALIZATION_STALE_THRESHOLD_SECONDS = ROLLING_MATERIALIZATION_INTERVAL_SECONDS * 2"
definition TZDATA_REMATERIALIZATION_STALE_THRESHOLD_SECONDS :: int where
  "TZDATA_REMATERIALIZATION_STALE_THRESHOLD_SECONDS =
     TZDATA_REMATERIALIZATION_INTERVAL_SECONDS * 2"
definition OFFER_CASCADE_STALE_THRESHOLD_SECONDS :: int where
  "OFFER_CASCADE_STALE_THRESHOLD_SECONDS = 90"
definition NOTIFICATION_MAX_RETRIES :: nat where "NOTIFICATION_MAX_RETRIES = 5"
definition OFFER_CASCADE_STUCK_HOLD_GRACE_SECONDS :: int where
  "OFFER_CASCADE_STUCK_HOLD_GRACE_SECONDS = 5 * 60"
definition AUDIT_ACTOR_UNKNOWN_LOOKBACK_SECONDS :: int where
  "AUDIT_ACTOR_UNKNOWN_LOOKBACK_SECONDS = 5 * 60"
definition METRICS_WINDOW_SECONDS :: int where "METRICS_WINDOW_SECONDS = 15 * 60"
definition REQUEST_METRIC_RETENTION_HOURS :: int where "REQUEST_METRIC_RETENTION_HOURS = 24"
definition ALERT_EMAIL_MAX_RETRIES :: nat where "ALERT_EMAIL_MAX_RETRIES = 5"
definition FAILOVER_RETRY_AFTER_SECONDS :: int where "FAILOVER_RETRY_AFTER_SECONDS = 5"
definition RATE_LIMIT_BOOKING_CREATE_CAPACITY :: int where "RATE_LIMIT_BOOKING_CREATE_CAPACITY = 10"
definition RATE_LIMIT_BOOKING_CREATE_WINDOW_SECONDS :: int where
  "RATE_LIMIT_BOOKING_CREATE_WINDOW_SECONDS = 60"
definition RATE_LIMIT_PER_IP_CAPACITY :: int where "RATE_LIMIT_PER_IP_CAPACITY = 60"
definition RATE_LIMIT_PER_IP_WINDOW_SECONDS :: int where "RATE_LIMIT_PER_IP_WINDOW_SECONDS = 60"
definition BOOKING_WRITE_P95_ALERT_THRESHOLD_MS :: int where
  "BOOKING_WRITE_P95_ALERT_THRESHOLD_MS = 1500"
definition REPLICA_LAG_THRESHOLD_SECONDS :: int where "REPLICA_LAG_THRESHOLD_SECONDS = 10"

definition TZDATA_DRIFT_CHECK_INTERVAL_SECONDS :: int where
  "TZDATA_DRIFT_CHECK_INTERVAL_SECONDS = 24 * 60 * 60"
definition ALERT_EVALUATION_INTERVAL_SECONDS :: int where "ALERT_EVALUATION_INTERVAL_SECONDS = 60"
definition IDEMPOTENCY_CLEANUP_INTERVAL_SECONDS :: int where
  "IDEMPOTENCY_CLEANUP_INTERVAL_SECONDS = 60 * 60"

lemmas constant_defs =
  MAX_ADVANCE_HORIZON_DAYS_def IDEMPOTENCY_RETENTION_HOURS_def MAX_AVAILABILITY_QUERY_DAYS_def
  MAX_SERIES_OCCURRENCES_def PREVIEW_TOKEN_TTL_SECONDS_def OFFER_WINDOW_MINUTES_def
  HOLD_REAPER_INTERVAL_SECONDS_def FAILOVER_RETRY_AFTER_SECONDS_def

lemma OFFER_WINDOW_pos: "0 < OFFER_WINDOW_MINUTES"
  by (simp add: OFFER_WINDOW_MINUTES_def)

end
