(* ===== verification/Models.thy ===== *)
theory Models
  imports Tstzrange Tables Exceptions Constants
begin

text \<open>
  The schema: one record per model class of \<open>bookings/models.py\<close>, \<open>waitlist/models.py\<close>,
  \<open>identity/models.py\<close>, \<open>resources/models.py\<close> and \<open>core/models.py\<close>, and the constraints that
  those classes and the raw-SQL migrations declare, as the check each table runs on a new row
  version.  The record \<open>db\<close> is the database: the tables, the transaction-local session variables,
  the callbacks registered with \<open>transaction.on_commit\<close>, and the task queue of the broker.

  Field prefixes: \<open>bk_\<close> booking, \<open>we_\<close> waitlist entry, \<open>wo_\<close> waitlist offer, \<open>rs_\<close> resource,
  \<open>ra_\<close> resource admin, \<open>au_\<close> app user, \<open>se_\<close> recurring series, \<open>ik_\<close> idempotency key,
  \<open>al_\<close> audit row, \<open>cr_\<close> check run, \<open>av_\<close> alert event, \<open>nl_\<close> notification log, \<open>rm_\<close> request
  metric, \<open>oh_\<close> operational heartbeat.
\<close>

section \<open>Identity and resources\<close>

datatype platform_role = Booker | System_admin | Operations
datatype user_status = User_active | User_deactivated

record app_user =
  au_id :: uuid
  au_email :: string
  au_name :: string          \<comment> \<open>\<open>display_name\<close>\<close>
  au_role :: platform_role
  au_status :: user_status
  au_deactivated_at :: "instant option"

record resource_admin =
  ra_id :: uuid
  ra_resource :: uuid
  ra_user :: uuid
  ra_granted_at :: instant
  ra_granted_by :: uuid

record membership =
  gm_group :: uuid
  gm_user :: uuid

datatype offboarding_policy = Transfer | Cancel_and_notify | Retain
datatype resource_status = Resource_active | Resource_inactive

record resource =
  rs_id :: uuid
  rs_name :: string
  rs_category :: string
  rs_timezone :: string
  rs_bookable_start :: time_of_day
  rs_bookable_end :: time_of_day
  rs_max_duration :: "int option"     \<comment> \<open>minutes\<close>
  rs_policy :: offboarding_policy
  rs_status :: resource_status
  rs_created_by :: uuid
  rs_restricted_group :: "uuid option"
  rs_created_at :: instant

section \<open>Bookings and series\<close>

datatype series_status = Series_active | Series_cancelled

record recurring_series =
  se_id :: uuid
  se_resource :: uuid
  se_created_by :: uuid
  se_timezone :: string
  se_local_start :: time_of_day
  se_local_end :: time_of_day
  se_weekday :: int
  se_start_date :: date
  se_count :: int
  se_tzdata_version :: string
  se_materialized_through :: date
  se_status :: series_status

datatype booking_status = Confirmed | Held | Cancelled

record booking =
  bk_id :: uuid
  bk_resource :: uuid
  bk_series :: "uuid option"
  bk_user :: uuid
  bk_range :: trange
  bk_status :: booking_status
  bk_expires_at :: "instant option"
  bk_created_at :: instant
  bk_cancelled_at :: "instant option"
  bk_cancelled_by :: "uuid option"
  bk_reason :: "string option"

text \<open>The generated column \<open>starts_at\<close> is \<open>lower(time_range)\<close>.\<close>

definition bk_starts_at :: "booking \<Rightarrow> instant" where
  "bk_starts_at b = lo (bk_range b)"

section \<open>Waitlist\<close>

datatype entry_status = Waiting | Offered | Fulfilled | Entry_expired | Entry_cancelled

record waitlist_entry =
  we_id :: uuid
  we_resource :: uuid
  we_user :: uuid
  we_range :: trange
  we_status :: entry_status
  we_joined_at :: instant

datatype offer_status = Offer_active | Offer_confirmed | Offer_expired | Offer_declined

record waitlist_offer =
  wo_id :: uuid
  wo_entry :: uuid
  wo_hold :: uuid
  wo_resource :: uuid
  wo_range :: trange
  wo_status :: offer_status
  wo_expires_at :: instant
  wo_created_at :: instant

section \<open>Core tables\<close>

datatype key_status = In_progress | Completed

record idempotency_key =
  ik_user :: uuid
  ik_key :: uuid
  ik_endpoint :: string
  ik_body_hash :: string
  ik_status :: key_status
  ik_response_status :: "int option"
  ik_response_body :: "json option"
  ik_created_at :: instant
  ik_completed_at :: "instant option"

datatype actor_type = Actor_user | Actor_admin | Actor_system | Actor_unknown

datatype entity =
    EBooking booking | EResource resource | EAdmin resource_admin
  | EEntry waitlist_entry | EOffer waitlist_offer

datatype audit_action = Audit_insert | Audit_update | Audit_delete

record audit_log =
  al_entity_type :: string
  al_entity_id :: uuid
  al_action :: audit_action
  al_actor_id :: "uuid option"
  al_actor_type :: actor_type
  al_reason :: "string option"
  al_request_id :: "string option"
  al_before :: "entity option"
  al_after :: "entity option"
  al_occurred_at :: instant

datatype check_name =
    Reconciliation | Schema_assertion | Hold_reaper | Offer_cascade
  | Series_materialization | Tzdata_rematerialization

datatype check_status = Check_pass | Check_fail

record check_run =
  cr_check :: check_name
  cr_run_at :: instant
  cr_status :: check_status
  cr_findings :: json

datatype alert_severity = Sev_1 | Sev_2 | Sev_3

datatype alert_key =
    Alert_check check_name | Audit_actor_unknown | Gist_write_throughput

datatype delivery_status = Pending | Sent | Failed

record alert_event =
  av_id :: uuid
  av_key :: alert_key
  av_severity :: alert_severity
  av_message :: string
  av_context :: json
  av_fired_at :: instant
  av_resolved_at :: "instant option"
  av_email_status :: delivery_status
  av_email_attempts :: int
  av_email_last_error :: "string option"
  av_email_sent_at :: "instant option"

datatype notification_type =
    Offer_created | Admin_cancellation | Tz_rematerialization | Tz_rematerialization_conflict
  | Rollback_hold_released | Series_owner_deactivated

text \<open>A message is text with formatted instants in it.\<close>

datatype piece = Txt string | Iso instant

record notification_log =
  nl_id :: uuid
  nl_type :: notification_type
  nl_recipient :: uuid
  nl_email :: string
  nl_subject :: "piece list"
  nl_body :: "piece list"
  nl_context :: "(string \<times> piece) list"
  nl_status :: delivery_status
  nl_attempts :: int
  nl_last_error :: "string option"
  nl_request_id :: "string option"
  nl_sent_at :: "instant option"

datatype metric_type = Booking_write | Availability_read | Auth_failure | Rate_limited | Other_metric

record request_metric =
  rm_type :: metric_type
  rm_method :: string
  rm_path :: string
  rm_status :: int
  rm_duration_ms :: "int option"
  rm_cause :: "string option"
  rm_principal :: "uuid option"
  rm_recorded_at :: instant

record heartbeat_row =
  oh_name :: string
  oh_last_run_at :: instant
  oh_findings :: json

section \<open>Constraints\<close>

text \<open>\<open>booking\<close>: the CHECKs of \<open>Booking.Meta\<close>, the primary key, and the exclusion constraint
  \<open>no_overlapping_bookings\<close> of \<open>bookings/migrations/0002_exclusion_constraint.py\<close>.\<close>

definition active_status :: "booking_status \<Rightarrow> bool" where
  "active_status s = (s = Confirmed \<or> s = Held)"

definition bookings_conflict :: "booking \<Rightarrow> booking \<Rightarrow> bool" where
  "bookings_conflict a b =
     (active_status (bk_status a) \<and> active_status (bk_status b) \<and>
      bk_resource a = bk_resource b \<and> overlaps (bk_range a) (bk_range b))"

definition hold_has_expiry :: "booking \<Rightarrow> bool" where
  "hold_has_expiry b = ((bk_status b = Held) = (bk_expires_at b \<noteq> None))"

definition check_booking :: "booking check" where
  "check_booking b rs =
     (if range_isempty (bk_range b) \<or> \<not> hold_has_expiry b then Some ''23514''
      else if list_ex (\<lambda>r. bk_id b = bk_id r) rs then Some ''23505''
      else if list_ex (bookings_conflict b) rs then Some ''23P01''
      else None)"

definition booking_row_ok :: "booking \<Rightarrow> bool" where
  "booking_row_ok b = (\<not> range_isempty (bk_range b) \<and> hold_has_expiry b)"

definition booking_pair_ok :: "booking \<Rightarrow> booking \<Rightarrow> bool" where
  "booking_pair_ok a b = (bk_id a \<noteq> bk_id b \<and> \<not> bookings_conflict a b)"

text \<open>\<open>waitlist_entry\<close>: \<open>wl_entry_time_range_not_empty\<close> and
  \<open>uniq_live_waitlist_per_user_slot\<close>.\<close>

definition live_entry :: "waitlist_entry \<Rightarrow> bool" where
  "live_entry e = (we_status e = Waiting \<or> we_status e = Offered)"

definition entries_clash :: "waitlist_entry \<Rightarrow> waitlist_entry \<Rightarrow> bool" where
  "entries_clash a b =
     (live_entry a \<and> live_entry b \<and> we_user a = we_user b \<and>
      we_resource a = we_resource b \<and> we_range a = we_range b)"

definition check_entry :: "waitlist_entry check" where
  "check_entry e rs =
     (if range_isempty (we_range e) then Some ''23514''
      else if list_ex (\<lambda>r. we_id e = we_id r) rs then Some ''23505''
      else if list_ex (entries_clash e) rs then Some ''23505''
      else None)"

definition entry_row_ok :: "waitlist_entry \<Rightarrow> bool" where
  "entry_row_ok e = (\<not> range_isempty (we_range e))"

definition entry_pair_ok :: "waitlist_entry \<Rightarrow> waitlist_entry \<Rightarrow> bool" where
  "entry_pair_ok a b = (we_id a \<noteq> we_id b \<and> \<not> entries_clash a b)"

text \<open>\<open>waitlist_offer\<close>: \<open>wo_time_range_not_empty\<close>, the one-to-one \<open>hold_booking\<close> and
  \<open>uniq_active_offer_per_entry\<close>.\<close>

definition offers_clash :: "waitlist_offer \<Rightarrow> waitlist_offer \<Rightarrow> bool" where
  "offers_clash a b =
     (wo_hold a = wo_hold b \<or>
      (wo_status a = Offer_active \<and> wo_status b = Offer_active \<and> wo_entry a = wo_entry b))"

definition check_offer :: "waitlist_offer check" where
  "check_offer w rs =
     (if range_isempty (wo_range w) then Some ''23514''
      else if list_ex (\<lambda>r. wo_id w = wo_id r) rs then Some ''23505''
      else if list_ex (offers_clash w) rs then Some ''23505''
      else None)"

definition offer_row_ok :: "waitlist_offer \<Rightarrow> bool" where
  "offer_row_ok w = (\<not> range_isempty (wo_range w))"

definition offer_pair_ok :: "waitlist_offer \<Rightarrow> waitlist_offer \<Rightarrow> bool" where
  "offer_pair_ok a b = (wo_id a \<noteq> wo_id b \<and> \<not> offers_clash a b)"

text \<open>\<open>idempotency_key\<close>: the composite primary key and \<open>completed_has_response\<close>.\<close>

definition key_row_ok :: "idempotency_key \<Rightarrow> bool" where
  "key_row_ok k = (case ik_status k of
       Completed \<Rightarrow> ik_response_status k \<noteq> None \<and> ik_completed_at k \<noteq> None
     | In_progress \<Rightarrow> ik_response_status k = None)"

definition key_pair_ok :: "idempotency_key \<Rightarrow> idempotency_key \<Rightarrow> bool" where
  "key_pair_ok a b = (\<not> (ik_user a = ik_user b \<and> ik_key a = ik_key b))"

definition check_key :: "idempotency_key check" where
  "check_key k rs =
     (if \<not> key_row_ok k then Some ''23514''
      else if list_ex (\<lambda>r. \<not> key_pair_ok k r) rs then Some ''23505''
      else None)"

text \<open>\<open>resource_admin\<close>: primary key and \<open>resource_admin_unique_grant\<close>.\<close>

definition admin_pair_ok :: "resource_admin \<Rightarrow> resource_admin \<Rightarrow> bool" where
  "admin_pair_ok a b =
     (ra_id a \<noteq> ra_id b \<and> \<not> (ra_resource a = ra_resource b \<and> ra_user a = ra_user b))"

definition check_admin :: "resource_admin check" where
  "check_admin a rs = (if list_ex (\<lambda>r. \<not> admin_pair_ok a r) rs then Some ''23505'' else None)"

text \<open>\<open>resource\<close>: primary key and \<open>bookable_window_valid\<close>.\<close>

definition resource_row_ok :: "resource \<Rightarrow> bool" where
  "resource_row_ok r = (rs_bookable_start r < rs_bookable_end r)"

definition resource_pair_ok :: "resource \<Rightarrow> resource \<Rightarrow> bool" where
  "resource_pair_ok a b = (rs_id a \<noteq> rs_id b)"

definition check_resource :: "resource check" where
  "check_resource r rs =
     (if \<not> resource_row_ok r then Some ''23514''
      else if list_ex (\<lambda>s. rs_id r = rs_id s) rs then Some ''23505'' else None)"

text \<open>\<open>recurring_series\<close>: weekday, occurrence count and window CHECKs.\<close>

definition series_row_ok :: "recurring_series \<Rightarrow> bool" where
  "series_row_ok s =
     (0 \<le> se_weekday s \<and> se_weekday s \<le> 6 \<and> 1 \<le> se_count s \<and> se_count s \<le> 100 \<and>
      se_local_start s < se_local_end s)"

definition series_pair_ok :: "recurring_series \<Rightarrow> recurring_series \<Rightarrow> bool" where
  "series_pair_ok a b = (se_id a \<noteq> se_id b)"

definition check_series :: "recurring_series check" where
  "check_series s rs =
     (if \<not> series_row_ok s then Some ''23514''
      else if list_ex (\<lambda>t. se_id s = se_id t) rs then Some ''23505'' else None)"

text \<open>\<open>app_user\<close>: \<open>deactivated_has_timestamp\<close>, primary key and unique email.\<close>

definition user_row_ok :: "app_user \<Rightarrow> bool" where
  "user_row_ok u = ((au_status u = User_deactivated) = (au_deactivated_at u \<noteq> None))"

definition user_pair_ok :: "app_user \<Rightarrow> app_user \<Rightarrow> bool" where
  "user_pair_ok a b = (au_id a \<noteq> au_id b \<and> au_email a \<noteq> au_email b)"

definition check_user :: "app_user check" where
  "check_user u rs =
     (if \<not> user_row_ok u then Some ''23514''
      else if list_ex (\<lambda>v. \<not> user_pair_ok u v) rs then Some ''23505'' else None)"

text \<open>\<open>alert_event\<close>: primary key and \<open>uniq_open_alert_per_key\<close>.\<close>

definition alert_pair_ok :: "alert_event \<Rightarrow> alert_event \<Rightarrow> bool" where
  "alert_pair_ok a b =
     (av_id a \<noteq> av_id b \<and>
      \<not> (av_resolved_at a = None \<and> av_resolved_at b = None \<and> av_key a = av_key b))"

definition check_alert :: "alert_event check" where
  "check_alert a rs = (if list_ex (\<lambda>r. \<not> alert_pair_ok a r) rs then Some ''23505'' else None)"

section \<open>Every table meets the contract of a checked table\<close>

lemma bookings_conflict_sym: "bookings_conflict a b = bookings_conflict b a"
  using overlaps_sym by (auto simp: bookings_conflict_def)

interpretation bk: checked_table check_booking booking_row_ok booking_pair_ok
  by unfold_locales
    (auto simp: check_booking_def booking_row_ok_def booking_pair_ok_def list_all_iff list_ex_iff
       bookings_conflict_sym)

interpretation we: checked_table check_entry entry_row_ok entry_pair_ok
  by unfold_locales
    (auto simp: check_entry_def entry_row_ok_def entry_pair_ok_def entries_clash_def
       list_all_iff list_ex_iff)

interpretation wo: checked_table check_offer offer_row_ok offer_pair_ok
  by unfold_locales
    (auto simp: check_offer_def offer_row_ok_def offer_pair_ok_def offers_clash_def
       list_all_iff list_ex_iff)

interpretation ik: checked_table check_key key_row_ok key_pair_ok
  by unfold_locales (auto simp: check_key_def key_pair_ok_def list_all_iff list_ex_iff)

interpretation ra: checked_table check_admin "\<lambda>_. True" admin_pair_ok
  by unfold_locales (auto simp: check_admin_def admin_pair_ok_def list_all_iff list_ex_iff)

interpretation rs: checked_table check_resource resource_row_ok resource_pair_ok
  by unfold_locales (auto simp: check_resource_def resource_pair_ok_def list_all_iff list_ex_iff)

interpretation se: checked_table check_series series_row_ok series_pair_ok
  by unfold_locales (auto simp: check_series_def series_pair_ok_def list_all_iff list_ex_iff)

interpretation au: checked_table check_user user_row_ok user_pair_ok
  by unfold_locales (auto simp: check_user_def user_pair_ok_def list_all_iff list_ex_iff)

interpretation av: checked_table check_alert "\<lambda>_. True" alert_pair_ok
  by unfold_locales (auto simp: check_alert_def alert_pair_ok_def list_all_iff list_ex_iff)

section \<open>The database\<close>

record session =
  ss_actor_id :: "uuid option"
  ss_actor_type :: actor_type
  ss_reason :: "string option"
  ss_request_id :: "string option"

text \<open>A task is what \<open>.delay(...)\<close> hands to the broker.\<close>

datatype task =
    CascadeTask (ct_resource: uuid) (ct_start: instant) (ct_end: instant) (ct_request_id: string)
  | NotifyTask (nt_recipient: uuid) (nt_type: notification_type) (nt_subject: "piece list")
      (nt_body: "piece list") (nt_context: "(string \<times> piece) list") (nt_request_id: string)
  | AlertEmailTask uuid

record db =
  users :: "app_user list"
  memberships :: "membership list"
  resources :: "resource list"
  admins :: "resource_admin list"
  series :: "recurring_series list"
  bookings :: "booking list"
  entries :: "waitlist_entry list"
  offers :: "waitlist_offer list"
  keys :: "idempotency_key list"
  audit :: "audit_log list"
  checks :: "check_run list"
  alerts :: "alert_event list"
  notifications :: "notification_log list"
  metrics :: "request_metric list"
  heartbeats :: "heartbeat_row list"
  in_tx :: bool
  sess :: "session option"
  hooks :: "task list"       \<comment> \<open>callbacks registered with \<open>on_commit\<close>\<close>
  queue :: "task list"       \<comment> \<open>tasks the broker has accepted\<close>

definition empty_db :: db where
  "empty_db = \<lparr> users = [], memberships = [], resources = [], admins = [], series = [],
     bookings = [], entries = [], offers = [], keys = [], audit = [], checks = [], alerts = [],
     notifications = [], metrics = [], heartbeats = [], in_tx = False, sess = None, hooks = [],
     queue = [] \<rparr>"

definition tables_ok :: "db \<Rightarrow> bool" where
  "tables_ok d =
     (table_ok booking_row_ok booking_pair_ok (bookings d) \<and>
      table_ok entry_row_ok entry_pair_ok (entries d) \<and>
      table_ok offer_row_ok offer_pair_ok (offers d) \<and>
      table_ok key_row_ok key_pair_ok (keys d) \<and>
      table_ok (\<lambda>_. True) admin_pair_ok (admins d) \<and>
      table_ok resource_row_ok resource_pair_ok (resources d) \<and>
      table_ok series_row_ok series_pair_ok (series d) \<and>
      table_ok user_row_ok user_pair_ok (users d) \<and>
      table_ok (\<lambda>_. True) alert_pair_ok (alerts d))"

text \<open>Foreign keys.  Django declares them deferred: they hold at every commit.\<close>

definition fk_ok :: "db \<Rightarrow> bool" where
  "fk_ok d =
     (list_all (\<lambda>b. bk_resource b \<in> set (map rs_id (resources d)) \<and>
                    bk_user b \<in> set (map au_id (users d)) \<and>
                    opt_all (\<lambda>s. s \<in> set (map se_id (series d))) (bk_series b)) (bookings d) \<and>
      list_all (\<lambda>e. we_resource e \<in> set (map rs_id (resources d)) \<and>
                    we_user e \<in> set (map au_id (users d))) (entries d) \<and>
      list_all (\<lambda>w. wo_entry w \<in> set (map we_id (entries d)) \<and>
                    wo_hold w \<in> set (map bk_id (bookings d)) \<and>
                    wo_resource w \<in> set (map rs_id (resources d))) (offers d) \<and>
      list_all (\<lambda>s. se_resource s \<in> set (map rs_id (resources d)) \<and>
                    se_created_by s \<in> set (map au_id (users d))) (series d) \<and>
      list_all (\<lambda>a. ra_resource a \<in> set (map rs_id (resources d)) \<and>
                    ra_user a \<in> set (map au_id (users d))) (admins d) \<and>
      list_all (\<lambda>k. ik_user k \<in> set (map au_id (users d))) (keys d))"

text \<open>The guarantee the exclusion constraint gives: no two active bookings of one resource share
  an instant.\<close>

definition no_double_booking :: "booking list \<Rightarrow> bool" where
  "no_double_booking rs =
     (\<forall>i j. i < length rs \<longrightarrow> j < length rs \<longrightarrow> i \<noteq> j \<longrightarrow>
        active_status (bk_status (rs ! i)) \<longrightarrow> active_status (bk_status (rs ! j)) \<longrightarrow>
        bk_resource (rs ! i) = bk_resource (rs ! j) \<longrightarrow>
        instants (bk_range (rs ! i)) \<inter> instants (bk_range (rs ! j)) = {})"

lemma no_double_bookingI:
  assumes "table_ok booking_row_ok booking_pair_ok rs"
  shows "no_double_booking rs"
  unfolding no_double_booking_def
proof (intro allI impI)
  fix i j
  assume ij: "i < length rs" "j < length rs" "i \<noteq> j"
    and act: "active_status (bk_status (rs ! i))" "active_status (bk_status (rs ! j))"
    and res: "bk_resource (rs ! i) = bk_resource (rs ! j)"
  have "\<not> overlaps (bk_range (rs ! i)) (bk_range (rs ! j))"
    using bk.ok_pairwise[OF assms(1) ij] act res
    by (auto simp: booking_pair_ok_def bookings_conflict_def)
  then show "instants (bk_range (rs ! i)) \<inter> instants (bk_range (rs ! j)) = {}"
    using overlaps_instants by blast
qed

end
