(* ===== verification/Timezones.thy ===== *)
theory Timezones
  imports Kairos_Prelude Exceptions
begin

text \<open>
  \<open>core/timezones.py\<close>: IANA zones and local-to-instant conversion.  A zone is what the standard
  library's \<open>zoneinfo\<close> keeps of one: the offset before the first transition, then the transitions
  as pairs of the UTC instant and the offset that holds from it on, in order.  A naive local
  datetime is the number of microseconds of its wall clock since 1970-01-01 00:00 wall clock.

  \<open>zoneinfo\<close> finds the offset of a naive datetime by bisecting the transitions in wall-clock
  time; each transition sits there at \<open>T + max\<close> of the two offsets for \<open>fold=0\<close> and at
  \<open>T + min\<close> for \<open>fold=1\<close>.  The rule that \<open>zoneinfo\<close> applies past the last stored transition is,
  here, a longer transition list.  The set of zones and their data come from the \<open>tzdata\<close>
  package: a parameter of the definitions that read it.
\<close>

section \<open>Zones\<close>

record zone =
  zn_before :: int
  zn_transitions :: "(instant \<times> int) list"

fun utc_offset :: "int \<Rightarrow> (instant \<times> int) list \<Rightarrow> instant \<Rightarrow> int" where
  "utc_offset b [] t = b"
| "utc_offset b ((T, off) # ts) t = (if T \<le> t then utc_offset off ts t else b)"

fun wall_offset :: "bool \<Rightarrow> int \<Rightarrow> (instant \<times> int) list \<Rightarrow> int \<Rightarrow> int" where
  "wall_offset fld b [] w = b"
| "wall_offset fld b ((T, off) # ts) w =
     (if T + (if fld then min b off else max b off) \<le> w then wall_offset fld off ts w else b)"

definition to_utc :: "zone \<Rightarrow> bool \<Rightarrow> int \<Rightarrow> instant" where
  "to_utc z fld w = w - wall_offset fld (zn_before z) (zn_transitions z) w"

definition from_utc :: "zone \<Rightarrow> instant \<Rightarrow> int" where
  "from_utc z t = t + utc_offset (zn_before z) (zn_transitions z) t"

definition combine :: "date \<Rightarrow> time_of_day \<Rightarrow> int" where
  "combine d t = d * day + t"

definition date_of :: "int \<Rightarrow> date" where
  "date_of w = w div day"

definition time_of :: "int \<Rightarrow> time_of_day" where
  "time_of w = w mod day"

section \<open>The functions of the module\<close>

definition validate_iana_zone :: "(string \<Rightarrow> zone option) \<Rightarrow> string \<Rightarrow> exn + unit" where
  "validate_iana_zone tz value =
     (if tz value = None
      then Inl (PolicyValidationError ''timezone'' (value @ '' is not a known IANA timezone identifier''))
      else Inr ())"

definition local_to_instant :: "int \<Rightarrow> zone \<Rightarrow> date \<Rightarrow> instant" where
  "local_to_instant local_dt z on_date = to_utc z False (combine on_date (time_of local_dt))"

definition is_nonexistent_local_time :: "int \<Rightarrow> zone \<Rightarrow> bool" where
  "is_nonexistent_local_time naive z = (from_utc z (to_utc z False naive) \<noteq> naive)"

definition is_ambiguous_local_time :: "int \<Rightarrow> zone \<Rightarrow> bool" where
  "is_ambiguous_local_time naive z =
     (if is_nonexistent_local_time naive z then False
      else to_utc z False naive \<noteq> to_utc z True naive)"

section \<open>Calendar arithmetic\<close>

lemma combine_split [simp]: "combine (date_of w) (time_of w) = w"
  by (simp add: combine_def date_of_def time_of_def)

lemma date_of_combine: "0 \<le> t \<Longrightarrow> t < day \<Longrightarrow> date_of (combine d t) = d"
  by (simp add: combine_def date_of_def)

lemma time_of_combine: "0 \<le> t \<Longrightarrow> t < day \<Longrightarrow> time_of (combine d t) = t"
  by (simp add: combine_def time_of_def)

lemma time_of_bounds: "0 \<le> time_of w" "time_of w < day"
  by (simp_all add: time_of_def)

lemma local_to_instant_self [simp]: "local_to_instant w z (date_of w) = to_utc z False w"
  by (simp add: local_to_instant_def)

section \<open>Well-formed zones\<close>

text \<open>Transitions are far enough apart for the wall-clock windows they open to be disjoint: the
  distance of two neighbours is at least the sum of their jumps.\<close>

fun zone_ok_from :: "int \<Rightarrow> (instant \<times> int) list \<Rightarrow> bool" where
  "zone_ok_from b [] = True"
| "zone_ok_from b [(T, off)] = True"
| "zone_ok_from b ((T, off) # (T', off') # ts) =
     (\<bar>off - b\<bar> + \<bar>off' - off\<bar> \<le> T' - T \<and> zone_ok_from off ((T', off') # ts))"

definition zone_ok :: "zone \<Rightarrow> bool" where
  "zone_ok z = zone_ok_from (zn_before z) (zn_transitions z)"

text \<open>The wall-clock windows: a gap (spring forward) and an overlap (fall back).\<close>

fun in_gap_from :: "int \<Rightarrow> (instant \<times> int) list \<Rightarrow> int \<Rightarrow> bool" where
  "in_gap_from b [] w = False"
| "in_gap_from b ((T, off) # ts) w = (T + b \<le> w \<and> w < T + off \<or> in_gap_from off ts w)"

fun in_overlap_from :: "int \<Rightarrow> (instant \<times> int) list \<Rightarrow> int \<Rightarrow> bool" where
  "in_overlap_from b [] w = False"
| "in_overlap_from b ((T, off) # ts) w = (T + off \<le> w \<and> w < T + b \<or> in_overlap_from off ts w)"

definition in_gap :: "zone \<Rightarrow> int \<Rightarrow> bool" where
  "in_gap z w = in_gap_from (zn_before z) (zn_transitions z) w"

definition in_overlap :: "zone \<Rightarrow> int \<Rightarrow> bool" where
  "in_overlap z w = in_overlap_from (zn_before z) (zn_transitions z) w"

lemma zone_ok_from_Cons:
  "zone_ok_from b ((T, off) # ts) \<Longrightarrow> zone_ok_from off ts"
  by (cases ts) auto

text \<open>Everything that happens after a transition happens at or after it.\<close>

lemma offsets_before_first:
  assumes "zone_ok_from b ((T, off) # ts)"
  shows "t < T \<Longrightarrow> utc_offset off ts t = off"
    and "w < T + max b off \<Longrightarrow> wall_offset f off ts w = off"
    and "w < T + max b off \<Longrightarrow> \<not> in_gap_from off ts w \<and> \<not> in_overlap_from off ts w"
  using assms
proof (induction ts arbitrary: b T off)
  case Nil
  { case 1 show ?case by simp }
  { case 2 show ?case by simp }
  { case 3 show ?case by simp }
next
  case (Cons p ts)
  obtain T' off' where p: "p = (T', off')" by (cases p)
  { case 1 then show ?case using p by auto }
  { case 2 then show ?case using p by (auto split: if_splits) }
  { case 3
    then have sep: "\<bar>off - b\<bar> + \<bar>off' - off\<bar> \<le> T' - T"
      and ok: "zone_ok_from off ((T', off') # ts)" using p by auto
    have "w < T' + max off off'" using sep 3(1) by auto
    then have "\<not> in_gap_from off' ts w \<and> \<not> in_overlap_from off' ts w"
      using Cons.IH(3) ok by blast
    then show ?case using p sep 3(1) by auto }
qed

lemma utc_offset_inside_gap:
  assumes "zone_ok_from b ((T, off) # ts)" "w < T + off"
  shows "utc_offset off ts (w - b) = off"
  using assms by (cases ts) auto

lemma wall_after_transition:
  assumes "zone_ok_from b ((T, off) # ts)" "T + max b off \<le> w"
  shows "T \<le> w - wall_offset f off ts w"
  using assms
proof (induction ts arbitrary: b T off)
  case (Cons p ts)
  obtain T' off' where p: "p = (T', off')" by (cases p)
  have sep: "\<bar>off - b\<bar> + \<bar>off' - off\<bar> \<le> T' - T" and ok: "zone_ok_from off ((T', off') # ts)"
    using Cons.prems(1) p by auto
  show ?case
  proof (cases "w < T' + max off off'")
    case True
    then have "wall_offset f off' ts w = off'"
      by (rule offsets_before_first(2)[OF ok])
    then show ?thesis using p sep Cons.prems(2) by (auto split: if_splits)
  next
    case False
    then have "T' \<le> w - wall_offset f off' ts w"
      using Cons.IH[OF ok] by simp
    then show ?thesis using p sep False Cons.prems(2) by auto
  qed
qed auto

text \<open>Localizing and reading the wall clock back: exact outside a gap, shifted forward by the
  size of the gap inside one.\<close>

lemma roundtrip_from:
  assumes "zone_ok_from b ts"
  shows "(w - wall_offset False b ts w) + utc_offset b ts (w - wall_offset False b ts w) =
     (if in_gap_from b ts w then w + (wall_offset True b ts w - wall_offset False b ts w) else w)"
  using assms
proof (induction ts arbitrary: b)
  case (Cons p ts)
  obtain T off where p: "p = (T, off)" by (cases p)
  have ok: "zone_ok_from b ((T, off) # ts)" and ok': "zone_ok_from off ts"
    using Cons.prems p zone_ok_from_Cons by auto
  show ?case
  proof (cases "w < T + max b off")
    case True
    note before = offsets_before_first(2,3)[OF ok True]
    show ?thesis
      using True p before utc_offset_inside_gap[OF ok, of w] by (auto split: if_splits)
  next
    case False
    have "T \<le> w - wall_offset False off ts w"
      by (rule wall_after_transition[OF ok]) (use False in simp)
    then show ?thesis
      using False p Cons.IH[OF ok'] by auto
  qed
qed simp

lemma wall_offsets_from:
  assumes "zone_ok_from b ts"
  shows "in_gap_from b ts w \<Longrightarrow> wall_offset False b ts w < wall_offset True b ts w"
    and "in_overlap_from b ts w \<Longrightarrow> wall_offset True b ts w < wall_offset False b ts w"
    and "\<not> in_gap_from b ts w \<Longrightarrow> \<not> in_overlap_from b ts w
           \<Longrightarrow> wall_offset True b ts w = wall_offset False b ts w"
proof -
  have "(in_gap_from b ts w \<longrightarrow> wall_offset False b ts w < wall_offset True b ts w)
      \<and> (in_overlap_from b ts w \<longrightarrow> wall_offset True b ts w < wall_offset False b ts w)
      \<and> (\<not> in_gap_from b ts w \<longrightarrow> \<not> in_overlap_from b ts w
           \<longrightarrow> wall_offset True b ts w = wall_offset False b ts w)"
    using assms
  proof (induction ts arbitrary: b)
    case (Cons p ts)
    obtain T off where p: "p = (T, off)" by (cases p)
    have ok: "zone_ok_from b ((T, off) # ts)" and ok': "zone_ok_from off ts"
      using Cons.prems p zone_ok_from_Cons by auto
    show ?case
    proof (cases "w < T + max b off")
      case True
      note before = offsets_before_first(2,3)[OF ok True]
      show ?thesis using True p before by (auto split: if_splits)
    next
      case False
      then show ?thesis using p Cons.IH[OF ok'] by auto
    qed
  qed simp
  then show "in_gap_from b ts w \<Longrightarrow> wall_offset False b ts w < wall_offset True b ts w"
    and "in_overlap_from b ts w \<Longrightarrow> wall_offset True b ts w < wall_offset False b ts w"
    and "\<not> in_gap_from b ts w \<Longrightarrow> \<not> in_overlap_from b ts w
           \<Longrightarrow> wall_offset True b ts w = wall_offset False b ts w"
    by blast+
qed

section \<open>What detection decides\<close>

lemma from_to_utc:
  assumes "zone_ok z" "\<not> in_gap z w"
  shows "from_utc z (to_utc z False w) = w"
  using roundtrip_from[of "zn_before z" "zn_transitions z" w] assms
  by (simp add: from_utc_def to_utc_def zone_ok_def in_gap_def)

lemma from_to_utc_gap:
  assumes "zone_ok z" "in_gap z w"
  shows "from_utc z (to_utc z False w) = w + (to_utc z False w - to_utc z True w)"
  using roundtrip_from[of "zn_before z" "zn_transitions z" w] assms
  by (simp add: from_utc_def to_utc_def zone_ok_def in_gap_def)

lemma gap_positive: "zone_ok z \<Longrightarrow> in_gap z w \<Longrightarrow> to_utc z True w < to_utc z False w"
  using wall_offsets_from(1) by (simp add: to_utc_def zone_ok_def in_gap_def)

lemma overlap_first: "zone_ok z \<Longrightarrow> in_overlap z w \<Longrightarrow> to_utc z False w < to_utc z True w"
  using wall_offsets_from(2) by (simp add: to_utc_def zone_ok_def in_overlap_def)

lemma plain_unique:
  "zone_ok z \<Longrightarrow> \<not> in_gap z w \<Longrightarrow> \<not> in_overlap z w \<Longrightarrow> to_utc z True w = to_utc z False w"
  using wall_offsets_from(3) by (simp add: to_utc_def zone_ok_def in_gap_def in_overlap_def)

lemma nonexistent_iff_gap:
  assumes "zone_ok z"
  shows "is_nonexistent_local_time w z \<longleftrightarrow> in_gap z w"
  using from_to_utc[OF assms] from_to_utc_gap[OF assms] gap_positive[OF assms]
  unfolding is_nonexistent_local_time_def by (cases "in_gap z w") fastforce+

lemma ambiguous_iff_overlap:
  assumes "zone_ok z"
  shows "is_ambiguous_local_time w z \<longleftrightarrow> \<not> in_gap z w \<and> in_overlap z w"
proof (cases "in_overlap z w")
  case True
  then show ?thesis
    using overlap_first[OF assms True]
    by (simp add: is_ambiguous_local_time_def nonexistent_iff_gap[OF assms])
next
  case False
  then show ?thesis
    using plain_unique[OF assms _ False]
    by (simp add: is_ambiguous_local_time_def nonexistent_iff_gap[OF assms])
qed

text \<open>Localizing outside a gap is strictly monotone towards any later wall clock.\<close>

lemma to_utc_mono_from:
  assumes "zone_ok_from b ts" "w < w'" "\<not> in_gap_from b ts w"
  shows "w - wall_offset False b ts w < w' - wall_offset False b ts w'"
  using assms
proof (induction ts arbitrary: b)
  case (Cons p ts)
  obtain T off where p: "p = (T, off)" by (cases p)
  have ok: "zone_ok_from b ((T, off) # ts)" and ok': "zone_ok_from off ts"
    using Cons.prems p zone_ok_from_Cons by auto
  consider "w' < T + max b off" | "w < T + max b off" "T + max b off \<le> w'" | "T + max b off \<le> w"
    by linarith
  then show ?case
  proof cases
    case 1 then show ?thesis using p Cons.prems(2) by auto
  next
    case 2
    have "T \<le> w' - wall_offset False off ts w'"
      by (rule wall_after_transition[OF ok]) (use 2 in simp)
    moreover have "w - b < T"
      using 2 Cons.prems(3) p by (auto simp: max_def split: if_splits)
    ultimately show ?thesis
      using 2 p Cons.prems by (auto simp: max_def split: if_splits)
  next
    case 3
    then show ?thesis using p Cons.IH[OF ok'] Cons.prems by auto
  qed
qed simp

lemma to_utc_mono:
  "zone_ok z \<Longrightarrow> w < w' \<Longrightarrow> \<not> in_gap z w \<Longrightarrow> to_utc z False w < to_utc z False w'"
  using to_utc_mono_from by (simp add: to_utc_def zone_ok_def in_gap_def)

end
