(* ===== verification/Session.thy ===== *)
theory Session
  imports Models Timezones
begin

text \<open>
  How the services reach the database: the environment of one call, the write-path session
  settings (\<open>core/db.py\<close>), the audit trigger (\<open>core/migrations/0003_audit_trail_triggers_and_grants.py\<close>),
  the statements INSERT, UPDATE and DELETE on a table, and \<open>transaction.atomic\<close> with its
  \<open>on_commit\<close> callbacks.

  A call reads time, fresh identifiers and the health of what it talks to from an environment:
  \<open>ev_fault\<close> gives, per statement site, the SQLSTATE (or no SQLSTATE at all, a lost connection)
  with which the server fails that statement for a reason other than a constraint: a lock
  timeout, a deadlock, a cancelled query, a shutdown.  A fault at \<open>OnCommit\<close> is a commit that did
  not happen.  Statements of different transactions that touch the same rows are serialised by
  the row locks of PostgreSQL, so an execution is a sequence of the steps below.
\<close>

section \<open>Environment\<close>

datatype site =
    OnSettings | OnCleanup | OnBooking | OnEntry | OnOffer | OnKey | OnUser | OnResource
  | OnAdmin | OnSeries | OnCheck | OnAlert | OnMetric | OnCommit

record env =
  ev_db_now :: instant
  ev_py_now :: instant
  ev_fault :: "site \<Rightarrow> sqlstate option option"
  ev_broker_up :: bool
  ev_uuid :: uuid            \<comment> \<open>the first \<open>uuid4()\<close> a call draws\<close>
  ev_uuid2 :: uuid           \<comment> \<open>the second one\<close>
  ev_request_id :: string    \<comment> \<open>the correlation id a background job draws\<close>
  ev_sha256 :: "string \<Rightarrow> string"
  ev_zone :: "string \<Rightarrow> zone option"
  ev_tzdata_version :: string

type_synonym 'a svc = "db \<Rightarrow> (exn + 'a) \<times> db"

section \<open>Session settings and the audit trigger\<close>

definition nullif_empty :: "string \<Rightarrow> string option" where
  "nullif_empty s = (if s = '''' then None else Some s)"

text \<open>\<open>actor_id\<close> is nothing where the source passes the empty string.\<close>

definition apply_write_path_session_settings ::
  "env \<Rightarrow> uuid option \<Rightarrow> actor_type \<Rightarrow> string \<Rightarrow> string option \<Rightarrow> unit svc" where
  "apply_write_path_session_settings env actor_id actor_type request_id reason d =
     (case ev_fault env OnSettings of
        Some s \<Rightarrow> (Inl (DatabaseError s), d)
      | None \<Rightarrow> (Inr (), d\<lparr> sess := Some \<lparr> ss_actor_id = actor_id, ss_actor_type = actor_type,
            ss_reason = (case reason of None \<Rightarrow> None | Some r \<Rightarrow> nullif_empty r),
            ss_request_id = nullif_empty request_id \<rparr> \<rparr>))"

fun entity_type :: "entity \<Rightarrow> string" where
  "entity_type (EBooking b) = ''booking''"
| "entity_type (EResource r) = ''resource''"
| "entity_type (EAdmin a) = ''resource_admin''"
| "entity_type (EEntry e) = ''waitlist_entry''"
| "entity_type (EOffer w) = ''waitlist_offer''"

fun entity_id :: "entity \<Rightarrow> uuid" where
  "entity_id (EBooking b) = bk_id b"
| "entity_id (EResource r) = rs_id r"
| "entity_id (EAdmin a) = ra_id a"
| "entity_id (EEntry e) = we_id e"
| "entity_id (EOffer w) = wo_id w"

text \<open>\<open>write_audit_log()\<close>: one row per changed row, attributed to the session variables, to
  \<open>unknown\<close> where none are set.\<close>

definition audit_row ::
  "env \<Rightarrow> session option \<Rightarrow> audit_action \<Rightarrow> entity \<Rightarrow> entity option \<Rightarrow> entity option \<Rightarrow> audit_log"
where
  "audit_row env s act e before after =
     \<lparr> al_entity_type = entity_type e, al_entity_id = entity_id e, al_action = act,
       al_actor_id = (case s of None \<Rightarrow> None | Some v \<Rightarrow> ss_actor_id v),
       al_actor_type = (case s of None \<Rightarrow> Actor_unknown | Some v \<Rightarrow> ss_actor_type v),
       al_reason = (case s of None \<Rightarrow> None | Some v \<Rightarrow> ss_reason v),
       al_request_id = (case s of None \<Rightarrow> None | Some v \<Rightarrow> ss_request_id v),
       al_before = before, al_after = after, al_occurred_at = ev_db_now env \<rparr>"

definition write_audit_log :: "env \<Rightarrow> (session option \<Rightarrow> audit_log) list \<Rightarrow> db \<Rightarrow> db" where
  "write_audit_log env rows d = d\<lparr> audit := audit d @ map (\<lambda>row. row (sess d)) rows \<rparr>"

definition log_insert :: "env \<Rightarrow> ('r \<Rightarrow> entity) option \<Rightarrow> 'r \<Rightarrow> db \<Rightarrow> db" where
  "log_insert env ent r d =
     (case ent of None \<Rightarrow> d
      | Some g \<Rightarrow> write_audit_log env
          [\<lambda>s. audit_row env s Audit_insert (g r) None (Some (g r))] d)"

definition log_update ::
  "env \<Rightarrow> ('r \<Rightarrow> entity) option \<Rightarrow> ('r \<Rightarrow> 'r) \<Rightarrow> 'r list \<Rightarrow> db \<Rightarrow> db" where
  "log_update env ent f rs d =
     (case ent of None \<Rightarrow> d
      | Some g \<Rightarrow> write_audit_log env
          (map (\<lambda>r s. audit_row env s Audit_update (g (f r)) (Some (g r)) (Some (g (f r)))) rs) d)"

definition log_delete :: "env \<Rightarrow> ('r \<Rightarrow> entity) option \<Rightarrow> 'r list \<Rightarrow> db \<Rightarrow> db" where
  "log_delete env ent rs d =
     (case ent of None \<Rightarrow> d
      | Some g \<Rightarrow> write_audit_log env
          (map (\<lambda>r s. audit_row env s Audit_delete (g r) (Some (g r)) None) rs) d)"

section \<open>Statements\<close>

definition run_stmt :: "env \<Rightarrow> site \<Rightarrow> 'a svc \<Rightarrow> 'a svc" where
  "run_stmt env st m d =
     (case ev_fault env st of Some s \<Rightarrow> (Inl (DatabaseError s), d) | None \<Rightarrow> m d)"

definition insert_row ::
  "env \<Rightarrow> site \<Rightarrow> 'r check \<Rightarrow> (db \<Rightarrow> 'r list) \<Rightarrow> ('r list \<Rightarrow> db \<Rightarrow> db) \<Rightarrow> ('r \<Rightarrow> entity) option
     \<Rightarrow> 'r \<Rightarrow> 'r svc" where
  "insert_row env st check get put ent r = run_stmt env st (\<lambda>d.
     (case ins_row check r (get d) of
        Inl s \<Rightarrow> (Inl (DatabaseError (Some s)), d)
      | Inr rs \<Rightarrow> (Inr r, log_insert env ent r (put rs d))))"

definition update_rows ::
  "env \<Rightarrow> site \<Rightarrow> 'r check \<Rightarrow> (db \<Rightarrow> 'r list) \<Rightarrow> ('r list \<Rightarrow> db \<Rightarrow> db) \<Rightarrow> ('r \<Rightarrow> entity) option
     \<Rightarrow> ('r \<Rightarrow> bool) \<Rightarrow> ('r \<Rightarrow> 'r) \<Rightarrow> nat svc" where
  "update_rows env st check get put ent P f = run_stmt env st (\<lambda>d.
     (case upd_rows check P f [] (get d) of
        Inl s \<Rightarrow> (Inl (DatabaseError (Some s)), d)
      | Inr rs \<Rightarrow> (Inr (count_if P (get d)),
                   log_update env ent f (filter P (get d)) (put rs d))))"

definition delete_rows ::
  "env \<Rightarrow> site \<Rightarrow> (db \<Rightarrow> 'r list) \<Rightarrow> ('r list \<Rightarrow> db \<Rightarrow> db) \<Rightarrow> ('r \<Rightarrow> entity) option
     \<Rightarrow> ('r \<Rightarrow> bool) \<Rightarrow> nat svc" where
  "delete_rows env st get put ent P = run_stmt env st (\<lambda>d.
     (Inr (count_if P (get d)),
      log_delete env ent (filter P (get d)) (put (del_rows P (get d)) d)))"

text \<open>\<open>Model.objects.get(...)\<close> on the rows of a table.\<close>

definition get_row :: "(db \<Rightarrow> 'r list) \<Rightarrow> ('r \<Rightarrow> bool) \<Rightarrow> 'r svc" where
  "get_row get P d = (case find P (get d) of None \<Rightarrow> (Inl DoesNotExist, d) | Some r \<Rightarrow> (Inr r, d))"

section \<open>Transactions and callbacks\<close>

text \<open>Handing a task to the broker; both dispatchers of the source swallow a broker failure.\<close>

definition dispatch :: "env \<Rightarrow> task \<Rightarrow> db \<Rightarrow> db" where
  "dispatch env t d = (if ev_broker_up env then d\<lparr> queue := queue d @ [t] \<rparr> else d)"

definition run_hooks :: "env \<Rightarrow> db \<Rightarrow> db" where
  "run_hooks env d = (fold (dispatch env) (hooks d) d)\<lparr> hooks := [] \<rparr>"

definition on_commit :: "env \<Rightarrow> task \<Rightarrow> unit svc" where
  "on_commit env t d =
     (Inr (), if in_tx d then d\<lparr> hooks := hooks d @ [t] \<rparr> else dispatch env t d)"

definition send_now :: "env \<Rightarrow> task \<Rightarrow> unit svc" where
  "send_now env t d = (Inr (), dispatch env t d)"

text \<open>The outermost block is a transaction: it checks the deferred foreign keys, ends the
  transaction-local settings and runs the callbacks when it commits.  An inner block is a
  savepoint.  An exception that leaves the block undoes everything since its start, callbacks
  included.\<close>

definition atomic :: "env \<Rightarrow> 'a svc \<Rightarrow> 'a svc" where
  "atomic env m d =
     (if in_tx d
      then (case m d of (Inl e, d') \<Rightarrow> (Inl e, d) | (Inr x, d') \<Rightarrow> (Inr x, d'))
      else (case m (d\<lparr> in_tx := True, sess := None, hooks := [] \<rparr>) of
              (Inl e, d') \<Rightarrow> (Inl e, d)
            | (Inr x, d') \<Rightarrow>
                (case ev_fault env OnCommit of
                   Some s \<Rightarrow> (Inl (DatabaseError s), d)
                 | None \<Rightarrow>
                     if fk_ok d'
                     then (Inr x, run_hooks env (d'\<lparr> in_tx := False, sess := None \<rparr>))
                     else (Inl (DatabaseError (Some ''23503'')), d))))"

text \<open>A statement outside any block is its own transaction.\<close>

definition autocommit :: "env \<Rightarrow> 'a svc \<Rightarrow> 'a svc" where
  "autocommit env m = atomic env m"

end
