(* ===== verification/Statements.thy ===== *)
theory Statements
  imports Session
begin

text \<open>
  The statements of the schema's tables and what they keep.  The locale \<open>db_table\<close> extends the
  contract of a checked table by the access functions of one table of the database; inside it
  every statement is shown to keep the invariant of an open transaction, and its outcome is
  given on each branch.  Every table interprets it.

  \<open>tx_ok\<close> is the invariant inside a transaction (all immediate constraints hold), \<open>db_ok\<close> the
  invariant between transactions (the foreign keys hold as well), \<open>at_rest\<close> the state in which no transaction is open, and a call is \<open>safe\<close> when it
  keeps them, so that it may run at top level or inside a transaction.
\<close>

section \<open>Invariants\<close>

definition tx_ok :: "db \<Rightarrow> bool" where
  "tx_ok d = (tables_ok d \<and> in_tx d)"

definition db_ok :: "db \<Rightarrow> bool" where
  "db_ok d = (tables_ok d \<and> (in_tx d \<or> fk_ok d))"

definition at_rest :: "db \<Rightarrow> bool" where
  "at_rest d = (tables_ok d \<and> fk_ok d \<and> \<not> in_tx d)"

definition safe :: "'a svc \<Rightarrow> bool" where
  "safe m = (keeps tx_ok m \<and> keeps db_ok m \<and> keeps at_rest m)"

lemma tables_ok_frame [simp]:
  "tables_ok (d\<lparr> in_tx := b \<rparr>) = tables_ok d" "tables_ok (d\<lparr> sess := s \<rparr>) = tables_ok d"
  "tables_ok (d\<lparr> hooks := h \<rparr>) = tables_ok d" "tables_ok (d\<lparr> queue := q \<rparr>) = tables_ok d"
  "tables_ok (d\<lparr> audit := a \<rparr>) = tables_ok d" "tables_ok (d\<lparr> checks := c \<rparr>) = tables_ok d"
  "tables_ok (d\<lparr> notifications := n \<rparr>) = tables_ok d"
  "tables_ok (d\<lparr> metrics := m \<rparr>) = tables_ok d" "tables_ok (d\<lparr> heartbeats := b' \<rparr>) = tables_ok d"
  by (simp_all add: tables_ok_def)

lemma fk_ok_frame [simp]:
  "fk_ok (d\<lparr> in_tx := b \<rparr>) = fk_ok d" "fk_ok (d\<lparr> sess := s \<rparr>) = fk_ok d"
  "fk_ok (d\<lparr> hooks := h \<rparr>) = fk_ok d" "fk_ok (d\<lparr> queue := q \<rparr>) = fk_ok d"
  "fk_ok (d\<lparr> audit := a \<rparr>) = fk_ok d" "fk_ok (d\<lparr> checks := c \<rparr>) = fk_ok d"
  "fk_ok (d\<lparr> notifications := n \<rparr>) = fk_ok d" "fk_ok (d\<lparr> metrics := m \<rparr>) = fk_ok d"
  "fk_ok (d\<lparr> heartbeats := b' \<rparr>) = fk_ok d"
  by (simp_all add: fk_ok_def)

lemma tx_ok_frame [simp]:
  "tx_ok (d\<lparr> sess := s \<rparr>) = tx_ok d" "tx_ok (d\<lparr> hooks := h \<rparr>) = tx_ok d"
  "tx_ok (d\<lparr> queue := q \<rparr>) = tx_ok d" "tx_ok (d\<lparr> audit := a \<rparr>) = tx_ok d"
  "tx_ok (d\<lparr> checks := c \<rparr>) = tx_ok d" "tx_ok (d\<lparr> notifications := n \<rparr>) = tx_ok d"
  "tx_ok (d\<lparr> metrics := m \<rparr>) = tx_ok d" "tx_ok (d\<lparr> heartbeats := b' \<rparr>) = tx_ok d"
  by (simp_all add: tx_ok_def)

lemma db_ok_frame [simp]:
  "db_ok (d\<lparr> sess := s \<rparr>) = db_ok d" "db_ok (d\<lparr> hooks := h \<rparr>) = db_ok d"
  "db_ok (d\<lparr> queue := q \<rparr>) = db_ok d" "db_ok (d\<lparr> audit := a \<rparr>) = db_ok d"
  "db_ok (d\<lparr> checks := c \<rparr>) = db_ok d" "db_ok (d\<lparr> notifications := n \<rparr>) = db_ok d"
  "db_ok (d\<lparr> metrics := m \<rparr>) = db_ok d" "db_ok (d\<lparr> heartbeats := b' \<rparr>) = db_ok d"
  by (simp_all add: db_ok_def)

lemma at_rest_frame [simp]:
  "at_rest (d\<lparr> sess := s \<rparr>) = at_rest d" "at_rest (d\<lparr> hooks := h \<rparr>) = at_rest d"
  "at_rest (d\<lparr> queue := q \<rparr>) = at_rest d" "at_rest (d\<lparr> audit := a \<rparr>) = at_rest d"
  "at_rest (d\<lparr> checks := c \<rparr>) = at_rest d" "at_rest (d\<lparr> notifications := n \<rparr>) = at_rest d"
  "at_rest (d\<lparr> metrics := m \<rparr>) = at_rest d" "at_rest (d\<lparr> heartbeats := b' \<rparr>) = at_rest d"
  by (simp_all add: at_rest_def)

lemma at_rest_db_ok: "at_rest d \<Longrightarrow> db_ok d"
  by (simp add: at_rest_def db_ok_def)

lemma tx_ok_db_ok: "tx_ok d \<Longrightarrow> db_ok d"
  by (simp add: tx_ok_def db_ok_def)

section \<open>The audit trigger and the dispatcher touch nothing else\<close>

lemma log_insert_eq:
  "log_insert env ent r d = d\<lparr> audit := audit d @ (case ent of None \<Rightarrow> [] | Some g \<Rightarrow>
      [audit_row env (sess d) Audit_insert (g r) None (Some (g r))]) \<rparr>"
  by (simp add: log_insert_def write_audit_log_def split: option.splits)

lemma log_update_eq:
  "log_update env ent f rs d = d\<lparr> audit := audit d @ (case ent of None \<Rightarrow> [] | Some g \<Rightarrow>
      map (\<lambda>r. audit_row env (sess d) Audit_update (g (f r)) (Some (g r)) (Some (g (f r)))) rs) \<rparr>"
  by (simp add: log_update_def write_audit_log_def comp_def split: option.splits)

lemma log_delete_eq:
  "log_delete env ent rs d = d\<lparr> audit := audit d @ (case ent of None \<Rightarrow> [] | Some g \<Rightarrow>
      map (\<lambda>r. audit_row env (sess d) Audit_delete (g r) (Some (g r)) None) rs) \<rparr>"
  by (simp add: log_delete_def write_audit_log_def comp_def split: option.splits)

lemmas log_eqs = log_insert_eq log_update_eq log_delete_eq

lemma dispatch_eq:
  "dispatch env t d = d\<lparr> queue := queue d @ (if ev_broker_up env then [t] else []) \<rparr>"
  by (simp add: dispatch_def)

lemma fold_dispatch_eq:
  "fold (dispatch env) ts d = d\<lparr> queue := queue d @ (if ev_broker_up env then ts else []) \<rparr>"
  by (induction ts arbitrary: d) (auto simp: dispatch_eq)

lemma run_hooks_eq:
  "run_hooks env d = d\<lparr> queue := queue d @ (if ev_broker_up env then hooks d else []), hooks := [] \<rparr>"
  by (simp add: run_hooks_def fold_dispatch_eq)

section \<open>Transactions\<close>

text \<open>How a block ends.\<close>

lemma atomic_cases:
  assumes "atomic env m d = (r, d')"
  obtains
    (failed) e where "r = Inl e" "d' = d"
  | (savepoint) x where "in_tx d" "m d = (Inr x, d')" "r = Inr x"
  | (commit) x d1 where "\<not> in_tx d" "m (d\<lparr> in_tx := True, sess := None, hooks := [] \<rparr>) = (Inr x, d1)"
      "ev_fault env OnCommit = None" "fk_ok d1" "r = Inr x"
      "d' = run_hooks env (d1\<lparr> in_tx := False, sess := None \<rparr>)"
  using assms that unfolding atomic_def
  by (auto split: if_splits prod.splits sum.splits option.splits)

lemma atomic_error_rolls_back: "atomic env m d = (Inl e, d') \<Longrightarrow> d' = d"
  by (elim atomic_cases) auto

lemma atomic_in_tx: "in_tx d \<Longrightarrow> m d = (Inr x, d') \<Longrightarrow> atomic env m d = (Inr x, d')"
  by (simp add: atomic_def)

lemma atomic_in_tx_err: "in_tx d \<Longrightarrow> m d = (Inl e, d') \<Longrightarrow> atomic env m d = (Inl e, d)"
  by (simp add: atomic_def)

lemma atomic_commit:
  assumes "\<not> in_tx d" "m (d\<lparr> in_tx := True, sess := None, hooks := [] \<rparr>) = (Inr x, d1)"
    and "ev_fault env OnCommit = None" "fk_ok d1"
  shows "atomic env m d = (Inr x, run_hooks env (d1\<lparr> in_tx := False, sess := None \<rparr>))"
  using assms by (simp add: atomic_def)

lemma atomic_body_err:
  "\<not> in_tx d \<Longrightarrow> m (d\<lparr> in_tx := True, sess := None, hooks := [] \<rparr>) = (Inl e, d1)
     \<Longrightarrow> atomic env m d = (Inl e, d)"
  by (simp add: atomic_def)

lemma atomic_fk_err:
  assumes "\<not> in_tx d" "m (d\<lparr> in_tx := True, sess := None, hooks := [] \<rparr>) = (Inr x, d1)"
    and "ev_fault env OnCommit = None" "\<not> fk_ok d1"
  shows "atomic env m d = (Inl (DatabaseError (Some ''23503'')), d)"
  using assms by (simp add: atomic_def)

lemma keeps_tx_ok_atomic [inv_intros]:
  assumes "keeps tx_ok m"
  shows "keeps tx_ok (atomic env m)"
proof
  fix d assume d: "tx_ok d"
  obtain r d' where m: "atomic env m d = (r, d')" by (cases "atomic env m d")
  then have "tx_ok d'"
  proof (cases rule: atomic_cases)
    case (savepoint x)
    then show ?thesis using keepsE[OF assms d savepoint(2)] by simp
  qed (use d in \<open>simp_all add: tx_ok_def\<close>)
  then show "tx_ok (snd (atomic env m d))" using m by simp
qed

lemma keeps_db_ok_atomic [inv_intros]:
  assumes "keeps tx_ok m"
  shows "keeps db_ok (atomic env m)"
proof
  fix d assume d: "db_ok d"
  obtain r d' where m: "atomic env m d = (r, d')" by (cases "atomic env m d")
  then have "db_ok d'"
  proof (cases rule: atomic_cases)
    case (commit x d1)
    have "tx_ok (d\<lparr> in_tx := True, sess := None, hooks := [] \<rparr>)"
      using d by (simp add: tx_ok_def db_ok_def)
    then have "tx_ok d1" using keepsE[OF assms _ commit(2)] by blast
    then show ?thesis using commit by (simp add: run_hooks_eq db_ok_def tx_ok_def)
  next
    case (savepoint x)
    have "tx_ok d" using d savepoint(1) by (simp add: tx_ok_def db_ok_def)
    then show ?thesis using keepsE[OF assms _ savepoint(2)] tx_ok_db_ok by blast
  qed (use d in simp)
  then show "db_ok (snd (atomic env m d))" using m by simp
qed

lemma keeps_at_rest_atomic [inv_intros]:
  assumes "keeps tx_ok m"
  shows "keeps at_rest (atomic env m)"
proof
  fix d assume d: "at_rest d"
  obtain r d' where m: "atomic env m d = (r, d')" by (cases "atomic env m d")
  then have "at_rest d'"
  proof (cases rule: atomic_cases)
    case (commit x d1)
    have "tx_ok (d\<lparr> in_tx := True, sess := None, hooks := [] \<rparr>)"
      using d by (simp add: tx_ok_def at_rest_def)
    then have "tx_ok d1" using keepsE[OF assms _ commit(2)] by blast
    then show ?thesis using commit by (simp add: run_hooks_eq at_rest_def tx_ok_def)
  next
    case (savepoint x)
    then show ?thesis using d by (simp add: at_rest_def)
  qed (use d in simp)
  then show "at_rest (snd (atomic env m d))" using m by simp
qed

lemma safe_atomic [inv_intros]: "keeps tx_ok m \<Longrightarrow> safe (atomic env m)"
  by (simp add: safe_def keeps_tx_ok_atomic keeps_db_ok_atomic keeps_at_rest_atomic)

lemma safe_autocommit [inv_intros]: "keeps tx_ok m \<Longrightarrow> safe (autocommit env m)"
  by (simp add: autocommit_def safe_atomic)

lemma safeD1: "safe m \<Longrightarrow> keeps tx_ok m"
  and safeD2: "safe m \<Longrightarrow> keeps db_ok m"
  and safeD3: "safe m \<Longrightarrow> keeps at_rest m"
  by (simp_all add: safe_def)

lemma safe_ret [inv_intros]: "safe (ret x)"
  and safe_raise [inv_intros]: "safe (raise e)"
  and safe_query [inv_intros]: "safe (query f)"
  by (simp_all add: safe_def keeps_ret keeps_raise keeps_query)

lemma safe_bind [inv_intros]: "safe m \<Longrightarrow> (\<And>x. safe (f x)) \<Longrightarrow> safe (bind_svc m f)"
  by (simp add: safe_def keeps_bind)

lemma safe_then [inv_intros]: "safe m \<Longrightarrow> safe k \<Longrightarrow> safe (then_svc m k)"
  by (simp add: safe_def keeps_then)

lemma safe_catch [inv_intros]: "safe m \<Longrightarrow> (\<And>e. safe (h e)) \<Longrightarrow> safe (catch_svc m h)"
  by (simp add: safe_def keeps_catch)

lemma safe_if [inv_intros]: "safe m \<Longrightarrow> safe k \<Longrightarrow> safe (if b then m else k)"
  by simp

lemma safe_option [inv_intros]:
  "safe m \<Longrightarrow> (\<And>x. safe (k x)) \<Longrightarrow> safe (case v of None \<Rightarrow> m | Some x \<Rightarrow> k x)"
  by (cases v) auto

lemma safe_on_commit [inv_intros]: "safe (on_commit env t)"
  by (auto simp: safe_def keeps_def on_commit_def dispatch_eq)

lemma safe_send_now [inv_intros]: "safe (send_now env t)"
  by (auto simp: safe_def keeps_def send_now_def dispatch_eq)

lemma safe_settings [inv_intros]: "safe (apply_write_path_session_settings env a t r s)"
  by (auto simp: safe_def keeps_def apply_write_path_session_settings_def split: option.splits)

lemma safe_get_row [inv_intros]: "safe (get_row get P)"
  by (auto simp: safe_def keeps_def get_row_def split: option.splits)

lemma settings_ok [simp]:
  "ev_fault env OnSettings = None \<Longrightarrow>
   apply_write_path_session_settings env a t r s d = (Inr (), d\<lparr> sess := Some
     \<lparr> ss_actor_id = a, ss_actor_type = t,
       ss_reason = (case s of None \<Rightarrow> None | Some v \<Rightarrow> nullif_empty v),
       ss_request_id = nullif_empty r \<rparr> \<rparr>)"
  by (simp add: apply_write_path_session_settings_def)

lemma settings_fault [simp]:
  "ev_fault env OnSettings = Some st \<Longrightarrow>
   apply_write_path_session_settings env a t r s d = (Inl (DatabaseError st), d)"
  by (simp add: apply_write_path_session_settings_def)

section \<open>One table of the database\<close>

locale db_table = checked_table check row_ok pair_ok
  for check :: "'r \<Rightarrow> 'r list \<Rightarrow> sqlstate option"
    and row_ok :: "'r \<Rightarrow> bool" and pair_ok :: "'r \<Rightarrow> 'r \<Rightarrow> bool" +
  fixes get :: "db \<Rightarrow> 'r list" and put :: "'r list \<Rightarrow> db \<Rightarrow> db"
  assumes get_put: "get (put rs d) = rs"
    and get_audit: "get (d\<lparr> audit := a \<rparr>) = get d"
    and put_in_tx: "in_tx (put rs d) = in_tx d"
    and put_sess: "sess (put rs d) = sess d"
    and get_ok: "tables_ok d \<Longrightarrow> table_ok row_ok pair_ok (get d)"
    and put_ok: "tables_ok d \<Longrightarrow> table_ok row_ok pair_ok rs \<Longrightarrow> tables_ok (put rs d)"
begin

lemma put_tx_ok: "tx_ok d \<Longrightarrow> table_ok row_ok pair_ok rs \<Longrightarrow> tx_ok (put rs d)"
  by (simp add: tx_ok_def put_ok put_in_tx)

lemma insert_ok:
  "ev_fault env st = None \<Longrightarrow> check r (get d) = None \<Longrightarrow>
   insert_row env st check get put ent r d = (Inr r, log_insert env ent r (put (get d @ [r]) d))"
  by (simp add: insert_row_def run_stmt_def ins_row_def)

lemma insert_refused:
  "ev_fault env st = None \<Longrightarrow> check r (get d) = Some s \<Longrightarrow>
   insert_row env st check get put ent r d = (Inl (DatabaseError (Some s)), d)"
  by (simp add: insert_row_def run_stmt_def ins_row_def)

lemma insert_fault:
  "ev_fault env st = Some s \<Longrightarrow>
   insert_row env st check get put ent r d = (Inl (DatabaseError s), d)"
  by (simp add: insert_row_def run_stmt_def)

lemma update_fault:
  "ev_fault env st = Some s \<Longrightarrow>
   update_rows env st check get put ent P f d = (Inl (DatabaseError s), d)"
  by (simp add: update_rows_def run_stmt_def)

lemma update_none:
  assumes "ev_fault env st = None" "list_all (\<lambda>r. \<not> P r) (get d)"
  shows "update_rows env st check get put ent P f d
     = (Inr 0, log_update env ent f [] (put (get d) d))"
proof -
  have "filter P (get d) = []" using assms(2) by (simp add: list_all_iff filter_empty_conv)
  moreover have "count_if P (get d) = 0" using assms(2) by simp
  ultimately show ?thesis
    using assms upd_rows_none[OF assms(2), of check f "[]"]
    by (simp add: update_rows_def run_stmt_def)
qed

lemma update_relaxed:
  assumes "ev_fault env st = None" "tables_ok d"
    and "\<And>r. r \<in> set (get d) \<Longrightarrow> P r \<Longrightarrow> row_ok (f r)"
    and "\<And>r s. r \<in> set (get d) \<Longrightarrow> P r \<Longrightarrow> pair_ok r s \<Longrightarrow> pair_ok (f r) s"
  shows "update_rows env st check get put ent P f d
     = (Inr (count_if P (get d)),
        log_update env ent f (filter P (get d)) (put (updated P f (get d)) d))"
  using update_relaxing[OF get_ok[OF assms(2)] assms(3,4)] assms(1)
  by (simp add: update_rows_def run_stmt_def)

lemma update_Inr:
  assumes "update_rows env st check get put ent P f d = (Inr n, d')"
  shows "n = count_if P (get d)"
    and "d' = log_update env ent f (filter P (get d)) (put (updated P f (get d)) d)"
proof -
  from assms obtain rs where "upd_rows check P f [] (get d) = Inr rs"
    "n = count_if P (get d)" "d' = log_update env ent f (filter P (get d)) (put rs d)"
    by (auto simp: update_rows_def run_stmt_def split: option.splits sum.splits)
  moreover from this(1) have "rs = updated P f (get d)"
    using upd_rows_Inr by fastforce
  ultimately show "n = count_if P (get d)"
    "d' = log_update env ent f (filter P (get d)) (put (updated P f (get d)) d)"
    by simp_all
qed

lemma update_Inl:
  "update_rows env st check get put ent P f d = (Inl e, d') \<Longrightarrow> d' = d \<and> (\<exists>s. e = DatabaseError s)"
  by (auto simp: update_rows_def run_stmt_def split: option.splits sum.splits)

lemma insert_Inr:
  "insert_row env st check get put ent r d = (Inr x, d') \<Longrightarrow>
     x = r \<and> check r (get d) = None \<and> d' = log_insert env ent r (put (get d @ [r]) d)"
  by (auto simp: insert_row_def run_stmt_def ins_row_def split: option.splits sum.splits)

lemma insert_Inl:
  "insert_row env st check get put ent r d = (Inl e, d') \<Longrightarrow> d' = d \<and> (\<exists>s. e = DatabaseError s)"
  by (auto simp: insert_row_def run_stmt_def split: option.splits sum.splits)

lemma delete_ok:
  "ev_fault env st = None \<Longrightarrow> delete_rows env st get put ent P d
     = (Inr (count_if P (get d)), log_delete env ent (filter P (get d)) (put (del_rows P (get d)) d))"
  by (simp add: delete_rows_def run_stmt_def)

lemma delete_fault:
  "ev_fault env st = Some s \<Longrightarrow> delete_rows env st get put ent P d = (Inl (DatabaseError s), d)"
  by (simp add: delete_rows_def run_stmt_def)

lemma keeps_insert: "keeps tx_ok (insert_row env st check get put ent r)"
proof
  fix d assume d: "tx_ok d"
  then have ok: "table_ok row_ok pair_ok (get d)" by (simp add: tx_ok_def get_ok)
  show "tx_ok (snd (insert_row env st check get put ent r d))"
  proof (cases "ev_fault env st = None \<and> check r (get d) = None")
    case True
    then show ?thesis
      using put_tx_ok[OF d ok_insert[OF ok]] by (simp add: insert_ok ins_row_Inr_iff log_eqs)
  next
    case False
    then show ?thesis
      using d insert_fault insert_refused by (cases "ev_fault env st"; cases "check r (get d)") auto
  qed
qed

lemma keeps_update: "keeps tx_ok (update_rows env st check get put ent P f)"
proof
  fix d assume d: "tx_ok d"
  then have ok: "table_ok row_ok pair_ok (get d)" by (simp add: tx_ok_def get_ok)
  show "tx_ok (snd (update_rows env st check get put ent P f d))"
    using d put_tx_ok[OF d ok_update[OF _ ok]]
    by (simp add: update_rows_def run_stmt_def log_eqs split: option.splits sum.splits)
qed

lemma tables_insert: "tables_ok d \<Longrightarrow> insert_row env st check get put ent r d = (x, d') \<Longrightarrow> tables_ok d'"
  using put_ok ok_insert get_ok
  by (fastforce simp: insert_row_def run_stmt_def log_eqs split: option.splits sum.splits)

lemma tables_update:
  "tables_ok d \<Longrightarrow> update_rows env st check get put ent P f d = (x, d') \<Longrightarrow> tables_ok d'"
  using put_ok ok_update get_ok
  by (fastforce simp: update_rows_def run_stmt_def log_eqs split: option.splits sum.splits)

lemma tables_delete: "tables_ok d \<Longrightarrow> delete_rows env st get put ent P d = (x, d') \<Longrightarrow> tables_ok d'"
  using put_ok ok_delete get_ok
  by (fastforce simp: delete_rows_def run_stmt_def log_eqs split: option.splits sum.splits)

lemma keeps_delete: "keeps tx_ok (delete_rows env st get put ent P)"
proof
  fix d assume d: "tx_ok d"
  then have "table_ok row_ok pair_ok (get d)" by (simp add: tx_ok_def get_ok)
  then show "tx_ok (snd (delete_rows env st get put ent P d))"
    using d put_tx_ok[OF d ok_delete]
    by (simp add: delete_rows_def run_stmt_def log_eqs split: option.splits)
qed

end

section \<open>The statements of each table\<close>

abbreviation put_bookings :: "booking list \<Rightarrow> db \<Rightarrow> db" where
  "put_bookings rs d \<equiv> d\<lparr> bookings := rs \<rparr>"
abbreviation put_entries :: "waitlist_entry list \<Rightarrow> db \<Rightarrow> db" where
  "put_entries rs d \<equiv> d\<lparr> entries := rs \<rparr>"
abbreviation put_offers :: "waitlist_offer list \<Rightarrow> db \<Rightarrow> db" where
  "put_offers rs d \<equiv> d\<lparr> offers := rs \<rparr>"
abbreviation put_keys :: "idempotency_key list \<Rightarrow> db \<Rightarrow> db" where
  "put_keys rs d \<equiv> d\<lparr> keys := rs \<rparr>"
abbreviation put_users :: "app_user list \<Rightarrow> db \<Rightarrow> db" where
  "put_users rs d \<equiv> d\<lparr> users := rs \<rparr>"
abbreviation put_admins :: "resource_admin list \<Rightarrow> db \<Rightarrow> db" where
  "put_admins rs d \<equiv> d\<lparr> admins := rs \<rparr>"
abbreviation put_resources :: "resource list \<Rightarrow> db \<Rightarrow> db" where
  "put_resources rs d \<equiv> d\<lparr> resources := rs \<rparr>"
abbreviation put_series :: "recurring_series list \<Rightarrow> db \<Rightarrow> db" where
  "put_series rs d \<equiv> d\<lparr> series := rs \<rparr>"
abbreviation put_alerts :: "alert_event list \<Rightarrow> db \<Rightarrow> db" where
  "put_alerts rs d \<equiv> d\<lparr> alerts := rs \<rparr>"

interpretation bkt: db_table check_booking booking_row_ok booking_pair_ok bookings put_bookings
  by unfold_locales (auto simp: tables_ok_def)
interpretation wet: db_table check_entry entry_row_ok entry_pair_ok entries put_entries
  by unfold_locales (auto simp: tables_ok_def)
interpretation wot: db_table check_offer offer_row_ok offer_pair_ok offers put_offers
  by unfold_locales (auto simp: tables_ok_def)
interpretation ikt: db_table check_key key_row_ok key_pair_ok keys put_keys
  by unfold_locales (auto simp: tables_ok_def)
interpretation aut: db_table check_user user_row_ok user_pair_ok users put_users
  by unfold_locales (auto simp: tables_ok_def)
interpretation rat: db_table check_admin "\<lambda>_. True" admin_pair_ok admins put_admins
  by unfold_locales (auto simp: tables_ok_def)
interpretation rst: db_table check_resource resource_row_ok resource_pair_ok resources put_resources
  by unfold_locales (auto simp: tables_ok_def)
interpretation set: db_table check_series series_row_ok series_pair_ok series put_series
  by unfold_locales (auto simp: tables_ok_def)
interpretation avt: db_table check_alert "\<lambda>_. True" alert_pair_ok alerts put_alerts
  by unfold_locales (auto simp: tables_ok_def)

definition insert_booking :: "env \<Rightarrow> booking \<Rightarrow> booking svc" where
  "insert_booking env = insert_row env OnBooking check_booking bookings put_bookings (Some EBooking)"
definition update_bookings :: "env \<Rightarrow> (booking \<Rightarrow> bool) \<Rightarrow> (booking \<Rightarrow> booking) \<Rightarrow> nat svc" where
  "update_bookings env = update_rows env OnBooking check_booking bookings put_bookings (Some EBooking)"
definition insert_entry :: "env \<Rightarrow> waitlist_entry \<Rightarrow> waitlist_entry svc" where
  "insert_entry env = insert_row env OnEntry check_entry entries put_entries (Some EEntry)"
definition update_entries ::
  "env \<Rightarrow> (waitlist_entry \<Rightarrow> bool) \<Rightarrow> (waitlist_entry \<Rightarrow> waitlist_entry) \<Rightarrow> nat svc" where
  "update_entries env = update_rows env OnEntry check_entry entries put_entries (Some EEntry)"
definition insert_offer :: "env \<Rightarrow> waitlist_offer \<Rightarrow> waitlist_offer svc" where
  "insert_offer env = insert_row env OnOffer check_offer offers put_offers (Some EOffer)"
definition update_offers ::
  "env \<Rightarrow> (waitlist_offer \<Rightarrow> bool) \<Rightarrow> (waitlist_offer \<Rightarrow> waitlist_offer) \<Rightarrow> nat svc" where
  "update_offers env = update_rows env OnOffer check_offer offers put_offers (Some EOffer)"
definition insert_key :: "env \<Rightarrow> idempotency_key \<Rightarrow> idempotency_key svc" where
  "insert_key env = insert_row env OnKey check_key keys put_keys None"
definition update_keys ::
  "env \<Rightarrow> (idempotency_key \<Rightarrow> bool) \<Rightarrow> (idempotency_key \<Rightarrow> idempotency_key) \<Rightarrow> nat svc" where
  "update_keys env = update_rows env OnKey check_key keys put_keys None"
definition delete_keys :: "env \<Rightarrow> (idempotency_key \<Rightarrow> bool) \<Rightarrow> nat svc" where
  "delete_keys env = delete_rows env OnKey keys put_keys None"
definition update_users :: "env \<Rightarrow> (app_user \<Rightarrow> bool) \<Rightarrow> (app_user \<Rightarrow> app_user) \<Rightarrow> nat svc" where
  "update_users env = update_rows env OnUser check_user users put_users None"
definition insert_admin :: "env \<Rightarrow> resource_admin \<Rightarrow> resource_admin svc" where
  "insert_admin env = insert_row env OnAdmin check_admin admins put_admins (Some EAdmin)"
definition delete_admins :: "env \<Rightarrow> (resource_admin \<Rightarrow> bool) \<Rightarrow> nat svc" where
  "delete_admins env = delete_rows env OnAdmin admins put_admins (Some EAdmin)"
definition insert_resource :: "env \<Rightarrow> resource \<Rightarrow> resource svc" where
  "insert_resource env = insert_row env OnResource check_resource resources put_resources (Some EResource)"
definition update_resources ::
  "env \<Rightarrow> (resource \<Rightarrow> bool) \<Rightarrow> (resource \<Rightarrow> resource) \<Rightarrow> nat svc" where
  "update_resources env =
     update_rows env OnResource check_resource resources put_resources (Some EResource)"
definition insert_series :: "env \<Rightarrow> recurring_series \<Rightarrow> recurring_series svc" where
  "insert_series env = insert_row env OnSeries check_series series put_series None"
definition update_series ::
  "env \<Rightarrow> (recurring_series \<Rightarrow> bool) \<Rightarrow> (recurring_series \<Rightarrow> recurring_series) \<Rightarrow> nat svc" where
  "update_series env = update_rows env OnSeries check_series series put_series None"
definition insert_alert :: "env \<Rightarrow> alert_event \<Rightarrow> alert_event svc" where
  "insert_alert env = insert_row env OnAlert check_alert alerts put_alerts None"
definition update_alerts ::
  "env \<Rightarrow> (alert_event \<Rightarrow> bool) \<Rightarrow> (alert_event \<Rightarrow> alert_event) \<Rightarrow> nat svc" where
  "update_alerts env = update_rows env OnAlert check_alert alerts put_alerts None"

definition insert_check :: "env \<Rightarrow> check_run \<Rightarrow> unit svc" where
  "insert_check env r = run_stmt env OnCheck (\<lambda>d. (Inr (), d\<lparr> checks := checks d @ [r] \<rparr>))"

text \<open>The one raw SQL statement of the booking path: the cleanup DELETE, at its own site.\<close>

definition delete_bookings :: "env \<Rightarrow> (booking \<Rightarrow> bool) \<Rightarrow> nat svc" where
  "delete_bookings env = delete_rows env OnCleanup bookings put_bookings (Some EBooking)"

lemmas stmt_defs =
  insert_booking_def update_bookings_def delete_bookings_def insert_entry_def update_entries_def
  insert_offer_def update_offers_def insert_key_def update_keys_def delete_keys_def
  update_users_def insert_admin_def delete_admins_def insert_resource_def update_resources_def
  insert_series_def update_series_def insert_alert_def update_alerts_def

lemma keeps_stmts [inv_intros]:
  "keeps tx_ok (insert_booking env b)" "keeps tx_ok (update_bookings env P f)"
  "keeps tx_ok (delete_bookings env P)" "keeps tx_ok (insert_entry env e)"
  "keeps tx_ok (update_entries env Q g)" "keeps tx_ok (insert_offer env w)"
  "keeps tx_ok (update_offers env R h)" "keeps tx_ok (insert_key env k)"
  "keeps tx_ok (update_keys env S i)" "keeps tx_ok (delete_keys env S)"
  "keeps tx_ok (update_users env U j)" "keeps tx_ok (insert_admin env a)"
  "keeps tx_ok (delete_admins env A)" "keeps tx_ok (insert_resource env r)"
  "keeps tx_ok (update_resources env V l)" "keeps tx_ok (insert_series env s)"
  "keeps tx_ok (update_series env W m)" "keeps tx_ok (insert_alert env v)"
  "keeps tx_ok (update_alerts env X n)"
  unfolding stmt_defs
  by (rule bkt.keeps_insert bkt.keeps_update bkt.keeps_delete wet.keeps_insert wet.keeps_update
      wot.keeps_insert wot.keeps_update ikt.keeps_insert ikt.keeps_update ikt.keeps_delete
      aut.keeps_update rat.keeps_insert rat.keeps_delete rst.keeps_insert rst.keeps_update
      set.keeps_insert set.keeps_update avt.keeps_insert avt.keeps_update)+

lemma safe_insert_check [inv_intros]: "safe (insert_check env r)"
  by (auto simp: safe_def keeps_def insert_check_def run_stmt_def split: option.splits)

lemma keeps_tx_on_commit [inv_intros]: "keeps tx_ok (on_commit env t)"
  and keeps_tx_send_now [inv_intros]: "keeps tx_ok (send_now env t)"
  and keeps_tx_settings [inv_intros]: "keeps tx_ok (apply_write_path_session_settings env a ty r s)"
  and keeps_tx_get_row [inv_intros]: "keeps tx_ok (get_row get P)"
  and keeps_tx_insert_check [inv_intros]: "keeps tx_ok (insert_check env cr)"
  by (rule safeD1, rule safe_on_commit safe_send_now safe_settings safe_get_row safe_insert_check)+

section \<open>What the statements raise\<close>

abbreviation is_db_error :: "exn \<Rightarrow> bool" where
  "is_db_error e \<equiv> \<exists>s. e = DatabaseError s"

lemma raises_atomic [raises_intros]:
  assumes "raises E m" "\<And>s. E (DatabaseError s)"
  shows "raises E (atomic env m)"
proof (rule raisesI)
  fix d e d' assume "atomic env m d = (Inl e, d')"
  then show "E e"
    using raisesD[OF assms(1)] assms(2) unfolding atomic_def
    by (auto split: if_splits prod.splits sum.splits option.splits)
qed

lemma raises_rows:
  assumes "\<And>s. E (DatabaseError s)"
  shows "raises E (insert_row env st check get put ent r)"
    and "raises E (update_rows env st check get put ent P f)"
    and "raises E (delete_rows env st get put ent P)"
  using assms
  by (auto simp: raises_def insert_row_def update_rows_def delete_rows_def run_stmt_def
      split: option.splits sum.splits)

lemma raises_stmts [raises_intros]:
  assumes "\<And>s. E (DatabaseError s)"
  shows "raises E (insert_booking env b)" "raises E (update_bookings env P f)"
    "raises E (delete_bookings env P)" "raises E (insert_entry env e)"
    "raises E (update_entries env Q g)" "raises E (insert_offer env w)"
    "raises E (update_offers env R h)" "raises E (insert_key env k)"
    "raises E (update_keys env S i)" "raises E (delete_keys env S)"
    "raises E (update_users env U j)" "raises E (insert_admin env a)"
    "raises E (delete_admins env A)" "raises E (insert_resource env r)"
    "raises E (update_resources env V l)" "raises E (insert_series env s)"
    "raises E (update_series env W m)" "raises E (insert_alert env v)"
    "raises E (update_alerts env X n)"
  unfolding stmt_defs by (rule raises_rows, rule assms)+

lemma raises_stmts2 [raises_intros]:
  assumes "\<And>s. E (DatabaseError s)"
  shows "raises E (insert_check env c)" "raises E (apply_write_path_session_settings env ai at ri rr)"
  using assms
  by (auto simp: insert_check_def apply_write_path_session_settings_def raises_def run_stmt_def
      split: option.splits)

lemma raises_get_row [raises_intros]: "E DoesNotExist \<Longrightarrow> raises E (get_row get P)"
  by (auto simp: raises_def get_row_def split: option.splits)

lemma raises_on_commit [raises_intros]: "raises E (on_commit env t)" "raises E (send_now env t)"
  by (auto simp: raises_def on_commit_def send_now_def)

lemma get_row_Inr: "get_row get P d = (Inr r, d') \<longleftrightarrow> find P (get d) = Some r \<and> d' = d"
  by (auto simp: get_row_def split: option.splits)

lemma get_row_Inl: "get_row get P d = (Inl e, d') \<longleftrightarrow> find P (get d) = None \<and> e = DoesNotExist \<and> d' = d"
  by (auto simp: get_row_def split: option.splits)

lemma get_row_Some [simp]: "find P (get d) = Some r \<Longrightarrow> get_row get P d = (Inr r, d)"
  by (simp add: get_row_def)

lemma get_row_None [simp]: "find P (get d) = None \<Longrightarrow> get_row get P d = (Inl DoesNotExist, d)"
  by (simp add: get_row_def)

end
