(* ===== verification/Notifications.thy ===== *)
theory Notifications
  imports Statements
begin

text \<open>
  \<open>core/notifications.py\<close>: the builders of the notification messages, each giving the task that
  \<open>dispatch_notification\<close> hands to the broker, and the delivery attempt the worker runs.  The
  mail backend is a parameter: it gives the error text of a failed send, or nothing.
\<close>

definition notify_offer_created ::
  "uuid \<Rightarrow> string \<Rightarrow> instant \<Rightarrow> instant \<Rightarrow> instant \<Rightarrow> string \<Rightarrow> task" where
  "notify_offer_created recipient rname s e expires_at rid =
     NotifyTask recipient Offer_created
       [Txt ''A slot is available for '', Txt rname, Txt '' - respond by '', Iso expires_at]
       [Txt rname, Txt '' is available for '', Iso s, Txt '' to '', Iso e,
        Txt ''. This offer expires at '', Iso expires_at,
        Txt ''. Confirm before then or it will be released to the next person on the waitlist.'']
       [(''resource_name'', Txt rname), (''start'', Iso s), (''end'', Iso e),
        (''expires_at'', Iso expires_at)] rid"

definition notify_admin_cancellation ::
  "uuid \<Rightarrow> string \<Rightarrow> instant \<Rightarrow> instant \<Rightarrow> string \<Rightarrow> string \<Rightarrow> task" where
  "notify_admin_cancellation recipient rname s e reason rid =
     NotifyTask recipient Admin_cancellation
       [Txt ''Your booking for '', Txt rname, Txt '' was cancelled by an administrator'']
       [Txt ''Your booking for '', Txt rname, Txt '' ('', Iso s, Txt '' to '', Iso e,
        Txt '') was cancelled by an administrator. Reason given: '', Txt reason]
       [(''resource_name'', Txt rname), (''start'', Iso s), (''end'', Iso e),
        (''reason'', Txt reason)] rid"

definition notify_rematerialization ::
  "uuid \<Rightarrow> string \<Rightarrow> instant \<Rightarrow> instant \<Rightarrow> instant \<Rightarrow> instant \<Rightarrow> string \<Rightarrow> task" where
  "notify_rematerialization recipient rname old_s old_e new_s new_e rid =
     NotifyTask recipient Tz_rematerialization
       [Txt ''A recurring booking time for '', Txt rname, Txt '' has changed'']
       [Txt ''A timezone rule update changed one of your recurring booking times for '', Txt rname,
        Txt ''. Previously: '', Iso old_s, Txt '' to '', Iso old_e,
        Txt '' Now: '', Iso new_s, Txt '' to '', Iso new_e,
        Txt '' The booked duration is unchanged; only the underlying UTC instant was recomputed.'']
       [(''resource_name'', Txt rname), (''old_start'', Iso old_s), (''old_end'', Iso old_e),
        (''new_start'', Iso new_s), (''new_end'', Iso new_e)] rid"

definition notify_rematerialization_conflict ::
  "uuid \<Rightarrow> string \<Rightarrow> string \<Rightarrow> string \<Rightarrow> task" where
  "notify_rematerialization_conflict recipient rname occurrence_date rid =
     NotifyTask recipient Tz_rematerialization_conflict
       [Txt ''Action needed: a recurring booking for '', Txt rname, Txt '' could not be updated'']
       [Txt ''A timezone rule update could not be automatically applied to a recurring booking for '',
        Txt rname, Txt '' on '', Txt occurrence_date,
        Txt '', because the recomputed time now conflicts with another booking. '',
        Txt ''This occurrence has been left at its original (now incorrect) time. '',
        Txt ''Please review and resolve it manually.'']
       [(''resource_name'', Txt rname), (''occurrence_date'', Txt occurrence_date)] rid"

definition notify_series_owner_deactivated ::
  "uuid \<Rightarrow> string \<Rightarrow> string \<Rightarrow> string \<Rightarrow> string \<Rightarrow> task" where
  "notify_series_owner_deactivated recipient rname sid remaining rid =
     NotifyTask recipient Series_owner_deactivated
       [Txt ''Action needed: a recurring series for '', Txt rname, Txt '' needs a new owner'']
       [Txt ''The owner of a recurring booking series for '', Txt rname, Txt '' ('', Txt remaining,
        Txt '' occurrence(s) remaining) has been deactivated. Please transfer ownership of this '',
        Txt ''series to another user or terminate it - it will otherwise keep materializing new '',
        Txt ''occurrences for a principal who is no longer active.'']
       [(''resource_name'', Txt rname), (''series_id'', Txt sid),
        (''occurrences_remaining'', Txt remaining)] rid"

definition notify_rollback_hold_released ::
  "uuid \<Rightarrow> string \<Rightarrow> instant \<Rightarrow> instant \<Rightarrow> string \<Rightarrow> task" where
  "notify_rollback_hold_released recipient rname s e rid =
     NotifyTask recipient Rollback_hold_released
       [Txt ''Your reserved offer for '', Txt rname, Txt '' was released - system maintenance'']
       [Txt ''Your held offer for '', Txt rname, Txt '' ('', Iso s, Txt '' to '', Iso e,
        Txt '') was released because of a system rollback, not because you missed the response '',
        Txt ''window. Your place in the waitlist queue has been preserved. You will be offered '',
        Txt ''this or another matching slot again once the system is confirmed healthy.'']
       [(''resource_name'', Txt rname), (''start'', Iso s), (''end'', Iso e)] rid"

section \<open>Delivery\<close>

text \<open>One attempt: \<open>get_or_create\<close> of the log row, one more attempt counted, then the outcome.  A
  failed send is recorded and raised again, so that the task queue schedules the next attempt.
  Each statement commits on its own.\<close>

definition log_row :: "uuid \<Rightarrow> string \<Rightarrow> task \<Rightarrow> notification_log" where
  "log_row nid email t =
     \<lparr> nl_id = nid, nl_type = nt_type t, nl_recipient = nt_recipient t, nl_email = email,
       nl_subject = nt_subject t, nl_body = nt_body t, nl_context = nt_context t,
       nl_status = Pending, nl_attempts = 0, nl_last_error = None,
       nl_request_id = Some (nt_request_id t), nl_sent_at = None \<rparr>"

definition execute_notification_delivery ::
  "env \<Rightarrow> (string \<Rightarrow> task \<Rightarrow> string option) \<Rightarrow> uuid \<Rightarrow> string \<Rightarrow> task \<Rightarrow> unit svc" where
  "execute_notification_delivery env send_mail nid email t d =
     (let rows = notifications d;
          rows1 = (if list_ex (\<lambda>n. nl_id n = nid) rows then rows else rows @ [log_row nid email t]);
          rows2 = updated (\<lambda>n. nl_id n = nid) (\<lambda>n. n\<lparr> nl_attempts := nl_attempts n + 1 \<rparr>) rows1
      in case send_mail email t of
           Some err \<Rightarrow> (Inl (ValueError err), d\<lparr> notifications :=
              updated (\<lambda>n. nl_id n = nid)
                (\<lambda>n. n\<lparr> nl_status := Failed, nl_last_error := Some err \<rparr>) rows2 \<rparr>)
         | None \<Rightarrow> (Inr (), d\<lparr> notifications :=
              updated (\<lambda>n. nl_id n = nid)
                (\<lambda>n. n\<lparr> nl_status := Sent, nl_sent_at := Some (ev_py_now env) \<rparr>) rows2 \<rparr>))"

text \<open>The task retried by the queue: attempts until one succeeds, at most \<open>n\<close>.\<close>

fun deliver_with_retries ::
  "nat \<Rightarrow> (nat \<Rightarrow> env) \<Rightarrow> (nat \<Rightarrow> string \<Rightarrow> task \<Rightarrow> string option) \<Rightarrow> uuid \<Rightarrow> string \<Rightarrow> task
     \<Rightarrow> unit svc" where
  "deliver_with_retries 0 envs send_mail nid email t d = (Inl (ValueError ''max retries''), d)"
| "deliver_with_retries (Suc n) envs send_mail nid email t d =
     (case execute_notification_delivery (envs 0) (send_mail 0) nid email t d of
        (Inr x, d') \<Rightarrow> (Inr x, d')
      | (Inl e, d') \<Rightarrow>
          deliver_with_retries n (\<lambda>i. envs (Suc i)) (\<lambda>i. send_mail (Suc i)) nid email t d')"

lemma delivery_only_logs:
  "snd (execute_notification_delivery env send nid email t d)
     = d\<lparr> notifications := notifications (snd (execute_notification_delivery env send nid email t d)) \<rparr>"
  by (simp add: execute_notification_delivery_def Let_def split: option.splits)

lemma safe_delivery [inv_intros]: "safe (execute_notification_delivery env send nid email t)"
  by (auto simp: safe_def keeps_def execute_notification_delivery_def Let_def split: option.splits)

definition log_of :: "uuid \<Rightarrow> db \<Rightarrow> notification_log list" where
  "log_of nid d = filter (\<lambda>n. nl_id n = nid) (notifications d)"

lemma filter_updated_same_id:
  assumes "\<And>n. nl_id (f n) = nl_id n"
  shows "filter (\<lambda>n. nl_id n = i) (updated (\<lambda>n. nl_id n = i) f rows)
           = map f (filter (\<lambda>n. nl_id n = i) rows)"
  using assms by (induction rows) auto

lemma filter_get_or_create:
  "filter (\<lambda>n. nl_id n = i) (if list_ex (\<lambda>n. nl_id n = i) rows then rows else rows @ [log_row i m t])
     = (if filter (\<lambda>n. nl_id n = i) rows = [] then [log_row i m t]
        else filter (\<lambda>n. nl_id n = i) rows)"
  by (auto simp: list_ex_iff filter_empty_conv log_row_def)

text \<open>What one attempt makes of the row of its notification.\<close>

lemma log_of_delivery:
  "log_of nid (snd (execute_notification_delivery env send nid email t d)) =
     map (\<lambda>n. case send email t of
            Some err \<Rightarrow> n\<lparr> nl_attempts := nl_attempts n + 1, nl_status := Failed,
                          nl_last_error := Some err \<rparr>
          | None \<Rightarrow> n\<lparr> nl_attempts := nl_attempts n + 1, nl_status := Sent,
                       nl_sent_at := Some (ev_py_now env) \<rparr>)
       (if log_of nid d = [] then [log_row nid email t] else log_of nid d)"
  unfolding execute_notification_delivery_def log_of_def Let_def
  by (cases "send email t") (simp_all add: filter_updated_same_id filter_get_or_create comp_def)

end
