(* ===== verification/Booking_Services.thy ===== *)
theory Booking_Services
  imports Notifications
begin

text \<open>
  \<open>bookings/services.py\<close>: the write path of bookings.  Every function opens its own block, applies
  the session settings, runs its statements and, where the source does, translates database
  errors by SQLSTATE.  \<open>create_booking\<close> first reclaims the expired holds that its range overlaps,
  then lets the exclusion constraint decide.
\<close>

section \<open>SQLSTATE translation\<close>

definition RETRYABLE_SQLSTATES :: "sqlstate list" where
  "RETRYABLE_SQLSTATES = [''55P03'', ''40P01'', ''57014'']"

definition FAILOVER_SQLSTATES :: "sqlstate list" where
  "FAILOVER_SQLSTATES = [''57P01'', ''57P02'', ''57P03'']"

definition failover_shaped :: "sqlstate option \<Rightarrow> bool" where
  "failover_shaped s = (case s of None \<Rightarrow> True | Some c \<Rightarrow> c \<in> List.set FAILOVER_SQLSTATES)"

definition retryable :: "sqlstate option \<Rightarrow> bool" where
  "retryable s = (case s of None \<Rightarrow> False | Some c \<Rightarrow> c \<in> List.set RETRYABLE_SQLSTATES)"

fun handle_write_database_error :: "exn \<Rightarrow> exn" where
  "handle_write_database_error (DatabaseError s) =
     (if s = Some ''23P01'' then SlotUnavailableError
      else if retryable s then ServiceUnavailableError 1 ''lock_contention''
      else if failover_shaped s
        then ServiceUnavailableError FAILOVER_RETRY_AFTER_SECONDS ''failover''
      else DatabaseError s)"
| "handle_write_database_error e = e"

definition translating :: "'a svc \<Rightarrow> 'a svc" where
  "translating m = catch_svc m (\<lambda>e. raise (handle_write_database_error e))"

text \<open>The actor recorded by the audit trail: nothing for a background job.\<close>

definition session_actor :: "actor_type \<Rightarrow> uuid \<Rightarrow> uuid option" where
  "session_actor ty u = (if ty = Actor_system then None else Some u)"

definition sql_range :: "instant \<Rightarrow> instant \<Rightarrow> trange svc" where
  "sql_range s e d = (case mk_range s e of
      Inl st \<Rightarrow> (Inl (DatabaseError (Some st)), d) | Inr r \<Rightarrow> (Inr r, d))"

section \<open>Creating a booking\<close>

record create_request =
  cq_resource :: uuid
  cq_user :: uuid
  cq_start :: instant
  cq_end :: instant
  cq_request_id :: string
  cq_series :: "uuid option"
  cq_actor_type :: actor_type
  cq_status :: booking_status

text \<open>\<open>expires_at <= t\<close>, which SQL does not satisfy for a missing value.\<close>

definition expired_at :: "instant \<Rightarrow> booking \<Rightarrow> bool" where
  "expired_at t b = (case bk_expires_at b of None \<Rightarrow> False | Some x \<Rightarrow> x \<le> t)"

text \<open>The WHERE clause of the cleanup DELETE.\<close>

definition reclaimable :: "env \<Rightarrow> uuid \<Rightarrow> trange \<Rightarrow> booking \<Rightarrow> bool" where
  "reclaimable env res r b =
     (bk_resource b = res \<and> bk_status b = Held \<and>
      expired_at (ev_db_now env) b \<and> overlaps (bk_range b) r)"

definition new_booking :: "env \<Rightarrow> create_request \<Rightarrow> trange \<Rightarrow> booking" where
  "new_booking env req r =
     \<lparr> bk_id = ev_uuid env, bk_resource = cq_resource req, bk_series = cq_series req,
       bk_user = cq_user req, bk_range = r, bk_status = cq_status req,
       bk_expires_at = (if cq_status req = Held
          then Some (ev_py_now env + OFFER_WINDOW_MINUTES * minute) else None),
       bk_created_at = ev_py_now env, bk_cancelled_at = None, bk_cancelled_by = None,
       bk_reason = None \<rparr>"

definition create_booking_tx :: "env \<Rightarrow> create_request \<Rightarrow> booking svc" where
  "create_booking_tx env req =
     then_svc
       (apply_write_path_session_settings env
          (session_actor (cq_actor_type req) (cq_user req)) (cq_actor_type req)
          (cq_request_id req) None)
       (bind_svc (sql_range (cq_start req) (cq_end req)) (\<lambda>r.
          then_svc (delete_bookings env (reclaimable env (cq_resource req) r))
            (insert_booking env (new_booking env req r))))"

definition create_booking :: "env \<Rightarrow> create_request \<Rightarrow> booking svc" where
  "create_booking env req = translating (atomic env (create_booking_tx env req))"

section \<open>Editing, cancelling and transferring\<close>

record edit_request =
  eq_booking :: booking
  eq_start :: instant
  eq_end :: instant
  eq_request_id :: string
  eq_actor_type :: actor_type

definition edit_booking :: "env \<Rightarrow> edit_request \<Rightarrow> booking svc" where
  "edit_booking env req = translating (atomic env
     (then_svc
       (apply_write_path_session_settings env
          (session_actor (eq_actor_type req) (bk_user (eq_booking req))) (eq_actor_type req)
          (eq_request_id req) None)
       (bind_svc (sql_range (eq_start req) (eq_end req)) (\<lambda>r.
          then_svc (update_bookings env (\<lambda>b. bk_id b = bk_id (eq_booking req))
                      (\<lambda>b. b\<lparr> bk_range := r \<rparr>))
            (get_row bookings (\<lambda>b. bk_id b = bk_id (eq_booking req)))))))"

record cancel_request =
  xq_booking :: booking
  xq_actor :: uuid
  xq_actor_type :: actor_type
  xq_reason :: "string option"
  xq_request_id :: string

definition resource_name :: "uuid \<Rightarrow> db \<Rightarrow> string" where
  "resource_name rid d = (case find (\<lambda>r. rs_id r = rid) (resources d) of
      None \<Rightarrow> '''' | Some r \<Rightarrow> rs_name r)"

definition cancelled_row :: "instant \<Rightarrow> uuid \<Rightarrow> string option \<Rightarrow> booking \<Rightarrow> booking" where
  "cancelled_row now actor reason b =
     b\<lparr> bk_status := Cancelled, bk_cancelled_at := Some now, bk_cancelled_by := Some actor,
        bk_reason := reason \<rparr>"

text \<open>What a cancellation registers for after the commit: the cascade, and for an administrative
  override the notification of the owner.\<close>

definition register_cancel_hooks :: "env \<Rightarrow> cancel_request \<Rightarrow> booking \<Rightarrow> unit svc" where
  "register_cancel_hooks env req b =
     then_svc (on_commit env (CascadeTask (bk_resource b) (lo (bk_range b)) (hi (bk_range b))
                 (xq_request_id req)))
       (if xq_actor_type req = Actor_admin
        then bind_svc (query (resource_name (bk_resource (xq_booking req)))) (\<lambda>nm.
               on_commit env (notify_admin_cancellation (bk_user (xq_booking req)) nm
                 (lo (bk_range b)) (hi (bk_range b))
                 (case xq_reason req of None \<Rightarrow> '''' | Some s \<Rightarrow> s) (xq_request_id req)))
        else ret ())"

definition cancel_booking :: "env \<Rightarrow> cancel_request \<Rightarrow> (booking \<times> bool) svc" where
  "cancel_booking env req = translating (atomic env
     (then_svc
       (apply_write_path_session_settings env
          (session_actor (xq_actor_type req) (xq_actor req)) (xq_actor_type req)
          (xq_request_id req) (xq_reason req))
       (bind_svc (update_bookings env
            (\<lambda>b. bk_id b = bk_id (xq_booking req) \<and> bk_status b = Confirmed)
            (cancelled_row (ev_py_now env) (xq_actor req) (xq_reason req))) (\<lambda>n.
        bind_svc (get_row bookings (\<lambda>b. bk_id b = bk_id (xq_booking req))) (\<lambda>b.
          if n \<noteq> 0 then then_svc (register_cancel_hooks env req b) (ret (b, False))
          else ret (b, True))))))"

definition transfer_booking_ownership :: "env \<Rightarrow> booking \<Rightarrow> uuid \<Rightarrow> string \<Rightarrow> booking svc" where
  "transfer_booking_ownership env b new_owner request_id = atomic env
     (then_svc (apply_write_path_session_settings env None Actor_system request_id None)
       (then_svc (update_bookings env (\<lambda>r. bk_id r = bk_id b) (\<lambda>r. r\<lparr> bk_user := new_owner \<rparr>))
         (get_row bookings (\<lambda>r. bk_id r = bk_id b))))"

record series_cancel_request =
  sq_series :: uuid
  sq_actor :: uuid
  sq_actor_type :: actor_type
  sq_reason :: "string option"
  sq_request_id :: string

definition cancel_recurring_series :: "env \<Rightarrow> series_cancel_request \<Rightarrow> (uuid list \<times> nat) svc" where
  "cancel_recurring_series env req = atomic env
     (then_svc
       (apply_write_path_session_settings env (Some (sq_actor req)) (sq_actor_type req)
          (sq_request_id req) (sq_reason req))
       (bind_svc (query (\<lambda>d. map bk_id (filter (\<lambda>b. bk_series b = Some (sq_series req)
              \<and> bk_status b = Confirmed \<and> ev_py_now env \<le> bk_starts_at b) (bookings d)))) (\<lambda>ids.
        then_svc (update_bookings env (\<lambda>b. bk_id b \<in> List.set ids)
             (cancelled_row (ev_py_now env) (sq_actor req) (sq_reason req)))
          (query (\<lambda>d. (ids, count_if (\<lambda>b. bk_series b = Some (sq_series req)
              \<and> bk_starts_at b < ev_py_now env) (bookings d)))))))"

lemmas booking_service_defs [service_defs] =
  create_booking_def create_booking_tx_def edit_booking_def cancel_booking_def
  register_cancel_hooks_def transfer_booking_ownership_def cancel_recurring_series_def
  translating_def

section \<open>All of them are safe\<close>

lemma safe_sql_range [inv_intros]: "safe (sql_range s e)"
  by (auto simp: safe_def keeps_def sql_range_def split: sum.splits)

lemma keeps_tx_sql_range [inv_intros]: "keeps tx_ok (sql_range s e)"
  by (rule safeD1, rule safe_sql_range)

lemma safe_translating [inv_intros]: "safe m \<Longrightarrow> safe (translating m)"
  unfolding translating_def by (intro inv_intros)

lemma keeps_tx_translating [inv_intros]: "keeps tx_ok m \<Longrightarrow> keeps tx_ok (translating m)"
  unfolding translating_def by (intro inv_intros)

lemma keeps_tx_create_booking_tx [inv_intros]: "keeps tx_ok (create_booking_tx env req)"
  unfolding create_booking_tx_def by (intro inv_intros)

lemma keeps_tx_register [inv_intros]: "keeps tx_ok (register_cancel_hooks env req b)"
  unfolding register_cancel_hooks_def by (intro inv_intros)

lemma safe_booking_services [inv_intros]:
  "safe (create_booking env cr)" "safe (edit_booking env er)" "safe (cancel_booking env xr)"
  "safe (transfer_booking_ownership env b u rid)" "safe (cancel_recurring_series env sr)"
  unfolding create_booking_def edit_booking_def cancel_booking_def
    transfer_booking_ownership_def cancel_recurring_series_def
  by (intro inv_intros)+

end
