(* ===== verification/Heartbeat.thy ===== *)
theory Heartbeat
  imports Session
begin

text \<open>
  \<open>core/heartbeat.py\<close>: the staleness rule that the background jobs and checks share.
\<close>

text \<open>\<open>order_by("-run_at").first()\<close>: the latest run of a check.\<close>

definition latest_run :: "check_name \<Rightarrow> db \<Rightarrow> check_run option" where
  "latest_run c d = (case filter (\<lambda>r. cr_check r = c) (checks d) of
      [] \<Rightarrow> None
    | r # rs \<Rightarrow> Some (foldl (\<lambda>m x. if cr_run_at m < cr_run_at x then x else m) r rs))"

definition heartbeat_is_stale :: "check_name \<Rightarrow> int \<Rightarrow> instant \<Rightarrow> db \<Rightarrow> bool" where
  "heartbeat_is_stale c threshold now d = (case latest_run c d of
      None \<Rightarrow> True
    | Some r \<Rightarrow> threshold * second < now - cr_run_at r)"

end
