(* ===== verification/Waitlist_Services.thy ===== *)
theory Waitlist_Services
  imports Booking_Services Heartbeat
begin

text \<open>
  \<open>waitlist/services.py\<close> and \<open>waitlist/tasks.py\<close>: joining and leaving the waitlist, the cascade that
  turns a freed range into a hold and an offer for the first eligible entry, acceptance, decline,
  the reaper of expired holds, and the staleness and stuck-hold reads.

  A loop whose every turn draws fresh identifiers and reads the clock again takes a sequence of
  environments, one per turn.
\<close>

section \<open>Reads\<close>

definition slot_is_free :: "uuid \<Rightarrow> instant \<Rightarrow> instant \<Rightarrow> db \<Rightarrow> bool" where
  "slot_is_free res s e d =
     (\<not> list_ex (\<lambda>b. bk_resource b = res \<and> active_status (bk_status b) \<and>
          overlaps (bk_range b) (TR s e)) (bookings d))"

text \<open>\<open>ORDER BY joined_at, id\<close>.\<close>

definition entry_key :: "waitlist_entry \<Rightarrow> instant \<times> uuid" where
  "entry_key e = (we_joined_at e, we_id e)"

definition entry_before :: "waitlist_entry \<Rightarrow> waitlist_entry \<Rightarrow> bool" where
  "entry_before a b =
     (we_joined_at a < we_joined_at b \<or> (we_joined_at a = we_joined_at b \<and> we_id a \<le> we_id b))"

definition eligible :: "uuid \<Rightarrow> instant \<Rightarrow> instant \<Rightarrow> waitlist_entry \<Rightarrow> bool" where
  "eligible res s e w =
     (we_resource w = res \<and> we_status w = Waiting \<and> contained_by (we_range w) (TR s e))"

definition find_eligible_entries :: "uuid \<Rightarrow> instant \<Rightarrow> instant \<Rightarrow> db \<Rightarrow> waitlist_entry list" where
  "find_eligible_entries res s e d = order_by entry_before (filter (eligible res s e) (entries d))"

section \<open>Joining and leaving\<close>

record join_request =
  jq_resource :: uuid
  jq_user :: uuid
  jq_start :: instant
  jq_end :: instant
  jq_request_id :: string

definition new_entry :: "env \<Rightarrow> join_request \<Rightarrow> trange \<Rightarrow> waitlist_entry" where
  "new_entry env req r =
     \<lparr> we_id = ev_uuid env, we_resource = jq_resource req, we_user = jq_user req, we_range = r,
       we_status = Waiting, we_joined_at = ev_db_now env \<rparr>"

fun join_error :: "exn \<Rightarrow> exn" where
  "join_error (DatabaseError s) =
     (if s = Some ''23505'' then AlreadyOnWaitlistError
      else if retryable s then ServiceUnavailableError 1 ''lock_contention''
      else if failover_shaped s
        then ServiceUnavailableError FAILOVER_RETRY_AFTER_SECONDS ''failover''
      else DatabaseError s)"
| "join_error e = e"

definition join_waitlist :: "env \<Rightarrow> join_request \<Rightarrow> waitlist_entry svc" where
  "join_waitlist env req = catch_svc (atomic env
     (then_svc
       (apply_write_path_session_settings env (Some (jq_user req)) Actor_user (jq_request_id req) None)
       (bind_svc (sql_range (jq_start req) (jq_end req)) (\<lambda>r.
          insert_entry env (new_entry env req r)))))
     (\<lambda>e. raise (join_error e))"

record entry_cancel_request =
  wq_entry :: uuid
  wq_actor :: uuid
  wq_request_id :: string
  wq_actor_type :: actor_type

definition cancel_waitlist_entry ::
  "env \<Rightarrow> entry_cancel_request \<Rightarrow> (waitlist_entry \<times> bool) svc" where
  "cancel_waitlist_entry env req = atomic env
     (then_svc
       (apply_write_path_session_settings env (session_actor (wq_actor_type req) (wq_actor req))
          (wq_actor_type req) (wq_request_id req) None)
       (bind_svc (update_entries env (\<lambda>w. we_id w = wq_entry req \<and> we_status w = Waiting)
            (\<lambda>w. w\<lparr> we_status := Entry_cancelled \<rparr>)) (\<lambda>n.
        bind_svc (get_row entries (\<lambda>w. we_id w = wq_entry req)) (\<lambda>w.
          ret (w, n = 0)))))"

section \<open>The cascade\<close>

definition record_offer_cascade_heartbeat :: "env \<Rightarrow> bool \<Rightarrow> nat \<Rightarrow> unit svc" where
  "record_offer_cascade_heartbeat env offer_created tried =
     autocommit env (insert_check env \<lparr> cr_check = Offer_cascade, cr_run_at = ev_db_now env,
        cr_status = Check_pass,
        cr_findings = JObj [(''offer_created'', JBool offer_created),
                            (''candidates_tried'', JNum (int tried))] \<rparr>)"

definition hold_request :: "uuid \<Rightarrow> string \<Rightarrow> waitlist_entry \<Rightarrow> create_request" where
  "hold_request res rid w =
     \<lparr> cq_resource = res, cq_user = we_user w, cq_start = lo (we_range w), cq_end = hi (we_range w),
       cq_request_id = rid, cq_series = None, cq_actor_type = Actor_system, cq_status = Held \<rparr>"

definition new_offer :: "env \<Rightarrow> uuid \<Rightarrow> waitlist_entry \<Rightarrow> booking \<Rightarrow> waitlist_offer" where
  "new_offer env res w hold =
     \<lparr> wo_id = ev_uuid2 env, wo_entry = we_id w, wo_hold = bk_id hold, wo_resource = res,
       wo_range = TR (lo (we_range w)) (hi (we_range w)), wo_status = Offer_active,
       wo_expires_at = (case bk_expires_at hold of None \<Rightarrow> 0 | Some x \<Rightarrow> x),
       wo_created_at = ev_db_now env \<rparr>"

text \<open>What follows a hold that was granted: the offer row, the entry's status, the notification and
  the heartbeat, each committed on its own.\<close>

definition issue_offer ::
  "env \<Rightarrow> uuid \<Rightarrow> string \<Rightarrow> waitlist_entry \<Rightarrow> nat \<Rightarrow> booking \<Rightarrow> waitlist_offer option svc" where
  "issue_offer env res rid w tried hold =
     (if bk_expires_at hold = None then raise AssertionError
      else bind_svc (autocommit env (insert_offer env (new_offer env res w hold))) (\<lambda>offer.
        then_svc (autocommit env (update_entries env (\<lambda>r. we_id r = we_id w)
                    (\<lambda>r. r\<lparr> we_status := Offered \<rparr>)))
        (bind_svc (query (resource_name res)) (\<lambda>nm.
         then_svc (send_now env (notify_offer_created (we_user w) nm (lo (we_range w)) (hi (we_range w))
                     (case bk_expires_at hold of None \<Rightarrow> 0 | Some x \<Rightarrow> x) rid))
         (then_svc (record_offer_cascade_heartbeat env True tried)
           (ret (Some offer)))))))"

text \<open>The loop over the candidates: a hold that conflicts passes to the next candidate, any other
  failure ends the run.\<close>

fun try_candidates ::
  "(nat \<Rightarrow> env) \<Rightarrow> uuid \<Rightarrow> string \<Rightarrow> nat \<Rightarrow> waitlist_entry list \<Rightarrow> waitlist_offer option svc" where
  "try_candidates envs res rid i [] =
     then_svc (record_offer_cascade_heartbeat (envs i) False i) (ret None)"
| "try_candidates envs res rid i (w # ws) = (\<lambda>d.
     (case create_booking (envs i) (hold_request res rid w) d of
        (Inl SlotUnavailableError, d') \<Rightarrow> try_candidates envs res rid (Suc i) ws d'
      | (Inl e, d') \<Rightarrow> (Inl e, d')
      | (Inr hold, d') \<Rightarrow> issue_offer (envs i) res rid w (Suc i) hold d'))"

definition create_offer_for_freed_range ::
  "(nat \<Rightarrow> env) \<Rightarrow> uuid \<Rightarrow> instant \<Rightarrow> instant \<Rightarrow> string \<Rightarrow> waitlist_offer option svc" where
  "create_offer_for_freed_range envs res s e rid =
     bind_svc (query (find_eligible_entries res s e)) (\<lambda>ws. try_candidates envs res rid 0 ws)"

text \<open>The worker's task: the resource is read again, then the cascade runs.\<close>

definition create_offer_for_freed_range_task ::
  "(nat \<Rightarrow> env) \<Rightarrow> uuid \<Rightarrow> instant \<Rightarrow> instant \<Rightarrow> string \<Rightarrow> waitlist_offer option svc" where
  "create_offer_for_freed_range_task envs res s e rid =
     then_svc (get_row resources (\<lambda>r. rs_id r = res)) (create_offer_for_freed_range envs res s e rid)"

section \<open>Accepting and declining\<close>

record offer_request =
  fq_offer :: waitlist_offer
  fq_user :: uuid
  fq_request_id :: string
  fq_actor_type :: actor_type

definition acceptable :: "env \<Rightarrow> offer_request \<Rightarrow> booking \<Rightarrow> bool" where
  "acceptable env req b =
     (bk_id b = wo_hold (fq_offer req) \<and> bk_status b = Held \<and> bk_user b = fq_user req \<and>
      (case bk_expires_at b of None \<Rightarrow> False | Some x \<Rightarrow> ev_py_now env < x))"

definition accept_offer :: "env \<Rightarrow> offer_request \<Rightarrow> booking svc" where
  "accept_offer env req = atomic env
     (then_svc
       (apply_write_path_session_settings env (Some (fq_user req)) Actor_user (fq_request_id req) None)
       (bind_svc (update_bookings env (acceptable env req)
            (\<lambda>b. b\<lparr> bk_status := Confirmed, bk_expires_at := None \<rparr>)) (\<lambda>n.
        if n = 0 then raise OfferExpiredError
        else then_svc (update_offers env
               (\<lambda>w. wo_id w = wo_id (fq_offer req) \<and> wo_status w = Offer_active)
               (\<lambda>w. w\<lparr> wo_status := Offer_confirmed \<rparr>))
          (then_svc (update_entries env (\<lambda>w. we_id w = wo_entry (fq_offer req))
               (\<lambda>w. w\<lparr> we_status := Fulfilled \<rparr>))
            (get_row bookings (\<lambda>b. bk_id b = wo_hold (fq_offer req)))))))"

definition decline_offer :: "env \<Rightarrow> offer_request \<Rightarrow> waitlist_offer svc" where
  "decline_offer env req = then_svc (atomic env
     (then_svc
       (apply_write_path_session_settings env (session_actor (fq_actor_type req) (fq_user req))
          (fq_actor_type req) (fq_request_id req) None)
       (bind_svc (update_offers env
            (\<lambda>w. wo_id w = wo_id (fq_offer req) \<and> wo_status w = Offer_active)
            (\<lambda>w. w\<lparr> wo_status := Offer_declined \<rparr>)) (\<lambda>n.
        if n = 0 then raise OfferAlreadyResolvedError
        else then_svc (update_bookings env
               (\<lambda>b. bk_id b = wo_hold (fq_offer req) \<and> bk_status b = Held)
               (\<lambda>b. b\<lparr> bk_status := Cancelled, bk_cancelled_at := Some (ev_py_now env),
                      bk_expires_at := None \<rparr>))
          (then_svc (update_entries env (\<lambda>w. we_id w = wo_entry (fq_offer req))
               (\<lambda>w. w\<lparr> we_status := Entry_expired \<rparr>))
            (on_commit env (CascadeTask (wo_resource (fq_offer req)) (lo (wo_range (fq_offer req)))
               (hi (wo_range (fq_offer req))) (fq_request_id req))))))))
     (get_row offers (\<lambda>w. wo_id w = wo_id (fq_offer req)))"

section \<open>The reaper\<close>

record reap_findings =
  rf_reclaimed :: nat
  rf_cascades :: nat
  rf_returned :: nat

definition expired_hold :: "instant \<Rightarrow> booking \<Rightarrow> bool" where
  "expired_hold now b = (bk_status b = Held \<and> expired_at now b)"

definition reaped_row :: "instant \<Rightarrow> booking \<Rightarrow> booking" where
  "reaped_row now b =
     b\<lparr> bk_status := Cancelled, bk_cancelled_at := Some now, bk_expires_at := None \<rparr>"

text \<open>The transaction of one hold: nothing when the row is no longer an expired hold (an acceptance
  came first), otherwise the offer that was resolved, if the hold had an active one.\<close>

definition reap_hold :: "env \<Rightarrow> instant \<Rightarrow> string \<Rightarrow> uuid \<Rightarrow> waitlist_offer option option svc" where
  "reap_hold env now rid hid = atomic env
     (then_svc (apply_write_path_session_settings env None Actor_system rid None)
       (bind_svc (update_bookings env (\<lambda>b. bk_id b = hid \<and> expired_hold now b) (reaped_row now)) (\<lambda>n.
        if n = 0 then ret None
        else bind_svc (query (\<lambda>d. find (\<lambda>w. wo_hold w = hid \<and> wo_status w = Offer_active) (offers d)))
          (\<lambda>v. case v of
              None \<Rightarrow> ret (Some None)
            | Some w \<Rightarrow>
                then_svc (update_offers env (\<lambda>r. wo_id r = wo_id w)
                            (\<lambda>r. r\<lparr> wo_status := Offer_expired \<rparr>))
                (then_svc (update_entries env (\<lambda>r. we_id r = wo_entry w)
                            (\<lambda>r. r\<lparr> we_status := Entry_expired \<rparr>))
                  (ret (Some (Some w))))))))"

fun reap_loop ::
  "(nat \<Rightarrow> nat \<Rightarrow> env) \<Rightarrow> instant \<Rightarrow> string \<Rightarrow> nat \<Rightarrow> booking list \<Rightarrow> reap_findings
     \<Rightarrow> reap_findings svc" where
  "reap_loop envs now rid k [] acc = ret acc"
| "reap_loop envs now rid k (h # hs) acc =
     bind_svc (reap_hold (envs k 0) now rid (bk_id h)) (\<lambda>v. case v of
         None \<Rightarrow> reap_loop envs now rid (Suc k) hs acc
       | Some None \<Rightarrow>
           reap_loop envs now rid (Suc k) hs (acc\<lparr> rf_reclaimed := rf_reclaimed acc + 1 \<rparr>)
       | Some (Some w) \<Rightarrow>
           bind_svc (create_offer_for_freed_range (\<lambda>i. envs k (Suc i)) (bk_resource h)
                       (lo (wo_range w)) (hi (wo_range w)) rid) (\<lambda>off.
             reap_loop envs now rid (Suc k) hs
               \<lparr> rf_reclaimed = rf_reclaimed acc + 1,
                 rf_cascades = rf_cascades acc + (if off = None then 0 else 1),
                 rf_returned = rf_returned acc + 1 \<rparr>))"

definition reap_findings_json :: "reap_findings \<Rightarrow> json" where
  "reap_findings_json f = JObj [(''holds_reclaimed'', JNum (int (rf_reclaimed f))),
     (''cascades_triggered'', JNum (int (rf_cascades f))),
     (''entries_returned_to_waiting'', JNum (int (rf_returned f)))]"

definition reap_expired_holds :: "(nat \<Rightarrow> nat \<Rightarrow> env) \<Rightarrow> reap_findings svc" where
  "reap_expired_holds envs =
     (let now = ev_py_now (envs 0 0); rid = ev_request_id (envs 0 0) in
      bind_svc (query (\<lambda>d. filter (expired_hold now) (bookings d))) (\<lambda>holds.
      bind_svc (reap_loop envs now rid 0 holds \<lparr> rf_reclaimed = 0, rf_cascades = 0, rf_returned = 0 \<rparr>)
        (\<lambda>f. then_svc (autocommit (envs (length holds) 0) (insert_check (envs (length holds) 0)
               \<lparr> cr_check = Hold_reaper, cr_run_at = ev_db_now (envs (length holds) 0),
                 cr_status = Check_pass, cr_findings = reap_findings_json f \<rparr>))
             (ret f))))"

section \<open>Staleness and stuck holds\<close>

definition hold_reaper_heartbeat_is_stale :: "instant \<Rightarrow> db \<Rightarrow> bool" where
  "hold_reaper_heartbeat_is_stale now d =
     heartbeat_is_stale Hold_reaper (HOLD_REAPER_INTERVAL_SECONDS * 3) now d"

definition offer_cascade_heartbeat_is_stale :: "instant \<Rightarrow> db \<Rightarrow> bool" where
  "offer_cascade_heartbeat_is_stale now d =
     heartbeat_is_stale Offer_cascade OFFER_CASCADE_STALE_THRESHOLD_SECONDS now d"

definition count_stuck_held_bookings :: "instant \<Rightarrow> db \<Rightarrow> uuid list" where
  "count_stuck_held_bookings now d =
     map bk_id (filter (\<lambda>b. bk_status b = Held \<and>
        (case bk_expires_at b of None \<Rightarrow> False
         | Some x \<Rightarrow> x < now - OFFER_CASCADE_STUCK_HOLD_GRACE_SECONDS * second)) (bookings d))"

section \<open>Safety\<close>

lemma safe_join [inv_intros]: "safe (join_waitlist env req)"
  and safe_cancel_entry [inv_intros]: "safe (cancel_waitlist_entry env creq)"
  and safe_accept [inv_intros]: "safe (accept_offer env freq)"
  and safe_decline [inv_intros]: "safe (decline_offer env freq)"
  and safe_heartbeat [inv_intros]: "safe (record_offer_cascade_heartbeat env b n)"
  unfolding join_waitlist_def cancel_waitlist_entry_def accept_offer_def decline_offer_def
    record_offer_cascade_heartbeat_def
  by (intro inv_intros)+

lemma safe_issue_offer [inv_intros]: "safe (issue_offer env res rid w n hold)"
  unfolding issue_offer_def by (intro inv_intros)

lemma keeps_try_candidates:
  assumes "\<And>i w. keeps I (create_booking (envs i) (hold_request res rid w))"
    and "\<And>i w n h. keeps I (issue_offer (envs i) res rid w n h)"
    and "\<And>i b n. keeps I (record_offer_cascade_heartbeat (envs i) b n)"
  shows "keeps I (try_candidates envs res rid i ws)"
proof (induction ws arbitrary: i)
  case Nil
  show ?case using assms(3) by (simp add: keeps_then keeps_ret)
next
  case (Cons w ws)
  show ?case
  proof
    fix d assume d: "I d"
    obtain r d' where c: "create_booking (envs i) (hold_request res rid w) d = (r, d')"
      by (cases "create_booking (envs i) (hold_request res rid w) d")
    have d': "I d'" using keepsE[OF assms(1) d c] .
    show "I (snd (try_candidates envs res rid i (w # ws) d))"
      using c d' keepsD[OF Cons.IH d'] keepsD[OF assms(2) d']
      by (auto split: sum.splits exn.splits)
  qed
qed

lemma safe_try_candidates [inv_intros]: "safe (try_candidates envs res rid i ws)"
  unfolding safe_def
  by (intro conjI keeps_try_candidates; rule safeD1 safeD2 safeD3; intro inv_intros)

lemma safe_cascade [inv_intros]: "safe (create_offer_for_freed_range envs res s e rid)"
  unfolding create_offer_for_freed_range_def by (intro inv_intros)

lemma safe_cascade_task [inv_intros]: "safe (create_offer_for_freed_range_task envs res s e rid)"
  unfolding create_offer_for_freed_range_task_def by (intro inv_intros)

lemma safe_reap_hold [inv_intros]: "safe (reap_hold env now rid hid)"
  unfolding reap_hold_def by (intro inv_intros)

lemma safe_reap_loop [inv_intros]: "safe (reap_loop envs now rid k hs acc)"
proof (induction hs arbitrary: k acc)
  case (Cons h hs)
  show ?case unfolding reap_loop.simps
    by (intro inv_intros Cons.IH; rule safe_bind; intro inv_intros Cons.IH)
qed (simp add: safe_ret)

lemma safe_reaper [inv_intros]: "safe (reap_expired_holds envs)"
  unfolding reap_expired_holds_def Let_def by (intro inv_intros)

end
