(* ===== verification/Demo.thy ===== *)
theory Demo
  imports Statements
begin

text \<open>
  A small concrete world for the witnesses: a healthy environment at a given time, two users, one
  administrator, one room, and rows of each kind to put into it.
\<close>

definition demo_env :: "instant \<Rightarrow> uuid \<Rightarrow> env" where
  "demo_env t i = \<lparr> ev_db_now = t, ev_py_now = t, ev_fault = (\<lambda>_. None), ev_broker_up = True,
     ev_uuid = i, ev_uuid2 = i + 1000, ev_request_id = ''job'', ev_sha256 = (\<lambda>s. s),
     ev_zone = (\<lambda>_. Some \<lparr> zn_before = 0, zn_transitions = [] \<rparr>), ev_tzdata_version = ''2026.3'' \<rparr>"

definition demo_user :: "uuid \<Rightarrow> app_user" where
  "demo_user i = \<lparr> au_id = i, au_email = (if i = 1 then ''a'' else if i = 2 then ''b'' else ''c''), au_name = ''Name'', au_role = Booker,
     au_status = User_active, au_deactivated_at = None \<rparr>"

definition demo_room :: resource where
  "demo_room = \<lparr> rs_id = 10, rs_name = ''Room'', rs_category = ''meeting_room'',
     rs_timezone = ''UTC'', rs_bookable_start = 0, rs_bookable_end = 24 * hour - 1,
     rs_max_duration = None, rs_policy = Transfer, rs_status = Resource_active, rs_created_by = 1,
     rs_restricted_group = None, rs_created_at = 0 \<rparr>"

definition demo_booking :: "uuid \<Rightarrow> uuid \<Rightarrow> trange \<Rightarrow> booking_status \<Rightarrow> instant option \<Rightarrow> booking" where
  "demo_booking i u r st x = \<lparr> bk_id = i, bk_resource = 10, bk_series = None, bk_user = u,
     bk_range = r, bk_status = st, bk_expires_at = x, bk_created_at = 0, bk_cancelled_at = None,
     bk_cancelled_by = None, bk_reason = None \<rparr>"

definition demo_entry :: "uuid \<Rightarrow> uuid \<Rightarrow> trange \<Rightarrow> entry_status \<Rightarrow> instant \<Rightarrow> waitlist_entry" where
  "demo_entry i u r st t = \<lparr> we_id = i, we_resource = 10, we_user = u, we_range = r,
     we_status = st, we_joined_at = t \<rparr>"

definition demo_offer :: "uuid \<Rightarrow> uuid \<Rightarrow> uuid \<Rightarrow> trange \<Rightarrow> offer_status \<Rightarrow> instant \<Rightarrow> waitlist_offer" where
  "demo_offer i e h r st x = \<lparr> wo_id = i, wo_entry = e, wo_hold = h, wo_resource = 10,
     wo_range = r, wo_status = st, wo_expires_at = x, wo_created_at = 0 \<rparr>"

definition demo_db :: "booking list \<Rightarrow> waitlist_entry list \<Rightarrow> waitlist_offer list \<Rightarrow> db" where
  "demo_db bs es ws = empty_db\<lparr> users := [demo_user 1, demo_user 2, demo_user 3],
     resources := [demo_room], bookings := bs, entries := es, offers := ws \<rparr>"

lemmas demo_defs = demo_env_def demo_user_def demo_room_def demo_booking_def demo_entry_def
  demo_offer_def demo_db_def empty_db_def

lemmas schema_defs = db_ok_def tables_ok_def table_ok_def fk_ok_def booking_row_ok_def
  booking_pair_ok_def bookings_conflict_def hold_has_expiry_def active_status_def overlaps_def
  range_isempty_def entry_row_ok_def entry_pair_ok_def entries_clash_def live_entry_def
  offer_row_ok_def offer_pair_ok_def offers_clash_def resource_row_ok_def resource_pair_ok_def
  user_row_ok_def user_pair_ok_def key_row_ok_def key_pair_ok_def

end
