(* ===== verification/Booking_Properties.thy ===== *)
theory Booking_Properties
  imports Booking_Services Demo
begin

text \<open>
  What the booking write path guarantees: the complete outcome of \<open>create_booking\<close>, edit and
  cancel, the translation of database errors, the absence of double bookings, and what a rolled
  back call leaves behind.
\<close>

definition healthy :: "env \<Rightarrow> bool" where
  "healthy env = (ev_fault env = (\<lambda>_. None))"

lemma healthyD [simp]: "healthy env \<Longrightarrow> ev_fault env st = None"
  by (simp add: healthy_def)

text \<open>The begin of an outermost block.\<close>

definition begin_tx :: "db \<Rightarrow> db" where
  "begin_tx d = d\<lparr> in_tx := True, sess := None, hooks := [] \<rparr>"

lemma begin_tx_simps [simp]:
  "bookings (begin_tx d) = bookings d" "entries (begin_tx d) = entries d"
  "offers (begin_tx d) = offers d" "keys (begin_tx d) = keys d" "users (begin_tx d) = users d"
  "resources (begin_tx d) = resources d" "series (begin_tx d) = series d"
  "admins (begin_tx d) = admins d" "audit (begin_tx d) = audit d" "queue (begin_tx d) = queue d"
  "memberships (begin_tx d) = memberships d" "alerts (begin_tx d) = alerts d"
  "notifications (begin_tx d) = notifications d" "metrics (begin_tx d) = metrics d"
  "heartbeats (begin_tx d) = heartbeats d"
  "checks (begin_tx d) = checks d" "in_tx (begin_tx d)" "sess (begin_tx d) = None"
  "hooks (begin_tx d) = []" "tables_ok (begin_tx d) = tables_ok d" "fk_ok (begin_tx d) = fk_ok d"
  by (simp_all add: begin_tx_def)

lemma atomic_begin:
  "\<not> in_tx d \<Longrightarrow> atomic env m d =
     (case m (begin_tx d) of
        (Inl e, d') \<Rightarrow> (Inl e, d)
      | (Inr x, d') \<Rightarrow>
          (case ev_fault env OnCommit of
             Some s \<Rightarrow> (Inl (DatabaseError s), d)
           | None \<Rightarrow>
               if fk_ok d'
               then (Inr x, run_hooks env (d'\<lparr> in_tx := False, sess := None \<rparr>))
               else (Inl (DatabaseError (Some ''23503'')), d)))"
  by (simp add: atomic_def begin_tx_def)

lemma atomic_run:
  assumes "\<not> in_tx d" "ev_fault env OnCommit = None" "m (begin_tx d) = (Inr x, d1)" "fk_ok d1"
  shows "atomic env m d = (Inr x, d1\<lparr> in_tx := False, sess := None,
     queue := queue d1 @ (if ev_broker_up env then hooks d1 else []), hooks := [] \<rparr>)"
  using assms by (simp add: atomic_begin run_hooks_eq)

lemma atomic_fail: "\<not> in_tx d \<Longrightarrow> m (begin_tx d) = (Inl e, d1) \<Longrightarrow> atomic env m d = (Inl e, d)"
  by (simp add: atomic_begin)

lemma translating_Inr [simp]: "m d = (Inr x, d') \<Longrightarrow> translating m d = (Inr x, d')"
  by (simp add: translating_def)

lemma translating_Inl [simp]:
  "m d = (Inl e, d') \<Longrightarrow> translating m d = (Inl (handle_write_database_error e), d')"
  by (simp add: translating_def)

lemma translating_cases:
  assumes "translating m d = (r, d')"
  obtains (err) e where "m d = (Inl e, d')" "r = Inl (handle_write_database_error e)"
        | (val) x where "m d = (Inr x, d')" "r = Inr x"
  using assms unfolding translating_def catch_svc_def
  by (auto split: prod.splits sum.splits)

section \<open>Creating a booking\<close>

definition create_session :: "create_request \<Rightarrow> session" where
  "create_session req = \<lparr> ss_actor_id = session_actor (cq_actor_type req) (cq_user req),
     ss_actor_type = cq_actor_type req, ss_reason = None,
     ss_request_id = nullif_empty (cq_request_id req) \<rparr>"

definition survivors :: "env \<Rightarrow> create_request \<Rightarrow> db \<Rightarrow> booking list" where
  "survivors env req d =
     del_rows (reclaimable env (cq_resource req) (TR (cq_start req) (cq_end req))) (bookings d)"

definition create_audit :: "env \<Rightarrow> create_request \<Rightarrow> db \<Rightarrow> audit_log list" where
  "create_audit env req d =
     map (\<lambda>b. audit_row env (Some (create_session req)) Audit_delete (EBooking b) (Some (EBooking b)) None)
       (filter (reclaimable env (cq_resource req) (TR (cq_start req) (cq_end req))) (bookings d))
     @ [audit_row env (Some (create_session req)) Audit_insert
          (EBooking (new_booking env req (TR (cq_start req) (cq_end req)))) None
          (Some (EBooking (new_booking env req (TR (cq_start req) (cq_end req)))))]"

definition created :: "env \<Rightarrow> create_request \<Rightarrow> booking" where
  "created env req = new_booking env req (TR (cq_start req) (cq_end req))"

lemma create_tx_eq:
  assumes "healthy env" "cq_start req \<le> cq_end req"
  shows "fst (create_booking_tx env req d) =
      (case check_booking (created env req) (survivors env req d) of
         None \<Rightarrow> Inr (created env req) | Some st \<Rightarrow> Inl (DatabaseError (Some st)))"
    and "check_booking (created env req) (survivors env req d) = None \<Longrightarrow>
      snd (create_booking_tx env req d) =
        d\<lparr> bookings := survivors env req d @ [created env req],
           sess := Some (create_session req), audit := audit d @ create_audit env req d \<rparr>"
  using assms
  by (simp_all add: create_booking_tx_def sql_range_def bind_svc_def then_svc_def
      delete_bookings_def bkt.delete_ok insert_booking_def bkt.insert_ok bkt.insert_refused
      insert_row_def run_stmt_def ins_row_def log_eqs survivors_def created_def create_audit_def
      create_session_def split: option.splits)

text \<open>The constraint decides: a proper new booking with a fresh id is refused exactly when an
  active booking that the cleanup does not reclaim overlaps it.\<close>

definition blocked :: "env \<Rightarrow> create_request \<Rightarrow> db \<Rightarrow> bool" where
  "blocked env req d =
     (active_status (cq_status req) \<and>
      list_ex (\<lambda>b. active_status (bk_status b) \<and> bk_resource b = cq_resource req \<and>
          overlaps (TR (cq_start req) (cq_end req)) (bk_range b) \<and>
          \<not> reclaimable env (cq_resource req) (TR (cq_start req) (cq_end req)) b) (bookings d))"

definition fresh_booking_id :: "env \<Rightarrow> db \<Rightarrow> bool" where
  "fresh_booking_id env d = list_all (\<lambda>b. bk_id b \<noteq> ev_uuid env) (bookings d)"

lemma created_simps [simp]:
  "bk_id (created env req) = ev_uuid env" "bk_resource (created env req) = cq_resource req"
  "bk_user (created env req) = cq_user req" "bk_status (created env req) = cq_status req"
  "bk_range (created env req) = TR (cq_start req) (cq_end req)"
  "bk_series (created env req) = cq_series req"
  "bk_expires_at (created env req) = (if cq_status req = Held
     then Some (ev_py_now env + OFFER_WINDOW_MINUTES * minute) else None)"
  by (simp_all add: created_def new_booking_def)

lemma created_row_ok: "cq_start req < cq_end req \<Longrightarrow> booking_row_ok (created env req)"
  by (simp add: booking_row_ok_def hold_has_expiry_def isempty_proper proper_def)

lemma check_created:
  assumes "cq_start req < cq_end req" "fresh_booking_id env d"
  shows "check_booking (created env req) (survivors env req d) =
    (if blocked env req d then Some ''23P01'' else None)"
proof -
  have fresh: "\<not> list_ex (\<lambda>r. bk_id (created env req) = bk_id r) (survivors env req d)"
    using assms(2) by (auto simp: list_ex_iff survivors_def fresh_booking_id_def list_all_iff)
  have row: "\<not> range_isempty (bk_range (created env req))" "hold_has_expiry (created env req)"
    using created_row_ok[OF assms(1)] by (auto simp: booking_row_ok_def)
  have "list_ex (bookings_conflict (created env req)) (survivors env req d) = blocked env req d"
    by (auto simp: list_ex_iff survivors_def blocked_def bookings_conflict_def)
  then show ?thesis using fresh row by (simp add: check_booking_def)
qed

text \<open>The foreign keys at the commit: the new row refers to existing rows, and no offer still
  refers to a reclaimed hold.\<close>

definition references_exist :: "create_request \<Rightarrow> db \<Rightarrow> bool" where
  "references_exist req d =
     (cq_resource req \<in> List.set (map rs_id (resources d)) \<and>
      cq_user req \<in> List.set (map au_id (users d)) \<and>
      opt_all (\<lambda>s. s \<in> List.set (map se_id (series d))) (cq_series req))"

definition offer_on_reclaimed :: "env \<Rightarrow> create_request \<Rightarrow> db \<Rightarrow> bool" where
  "offer_on_reclaimed env req d =
     list_ex (\<lambda>w. list_ex (\<lambda>b. bk_id b = wo_hold w \<and>
        reclaimable env (cq_resource req) (TR (cq_start req) (cq_end req)) b) (bookings d))
       (offers d)"

lemma booking_ids_unique:
  "tables_ok d \<Longrightarrow> a \<in> List.set (bookings d) \<Longrightarrow> b \<in> List.set (bookings d) \<Longrightarrow> bk_id a = bk_id b \<Longrightarrow> a = b"
  using bk.ok_pair[of "bookings d" a b] by (auto simp: tables_ok_def booking_pair_ok_def)

lemma survivors_ids:
  assumes "tables_ok d"
  shows "i \<in> bk_id ` List.set (survivors env req d) \<longleftrightarrow>
    i \<in> bk_id ` List.set (bookings d) \<and>
    \<not> list_ex (\<lambda>b. bk_id b = i \<and>
        reclaimable env (cq_resource req) (TR (cq_start req) (cq_end req)) b) (bookings d)"
  using booking_ids_unique[OF assms] by (auto simp: survivors_def list_ex_iff image_iff)

lemma fk_after_create:
  assumes "tables_ok d" "fk_ok d" "references_exist req d" "fresh_booking_id env d"
  shows "fk_ok (d\<lparr> bookings := survivors env req d @ [created env req] \<rparr>)
    \<longleftrightarrow> \<not> offer_on_reclaimed env req d"
proof -
  have bks: "list_all (\<lambda>b. bk_resource b \<in> List.set (map rs_id (resources d)) \<and>
      bk_user b \<in> List.set (map au_id (users d)) \<and>
      opt_all (\<lambda>s. s \<in> List.set (map se_id (series d))) (bk_series b))
      (survivors env req d @ [created env req])"
    using assms(2,3) by (auto simp: fk_ok_def list_all_iff survivors_def references_exist_def)
  have holds: "wo_hold w \<noteq> ev_uuid env \<and> wo_hold w \<in> bk_id ` List.set (bookings d)"
    if "w \<in> List.set (offers d)" for w
    using that assms(2,4) by (auto simp: fk_ok_def list_all_iff fresh_booking_id_def)
  have "list_all (\<lambda>w. wo_hold w \<in> List.set (map bk_id (survivors env req d @ [created env req])))
      (offers d) \<longleftrightarrow> \<not> offer_on_reclaimed env req d"
    using holds survivors_ids[OF assms(1)]
    unfolding list_all_iff offer_on_reclaimed_def list_ex_iff[where xs = "offers d"]
    by (auto simp: image_iff)
  then show ?thesis using bks assms(2) by (auto simp: fk_ok_def list_all_iff)
qed

definition after_create :: "env \<Rightarrow> create_request \<Rightarrow> db \<Rightarrow> db" where
  "after_create env req d =
     d\<lparr> bookings := survivors env req d @ [created env req],
        audit := audit d @ create_audit env req d \<rparr>"

definition idle :: "db \<Rightarrow> bool" where
  "idle d = (\<not> in_tx d \<and> sess d = None \<and> hooks d = [])"

lemma survivors_begin [simp]: "survivors env req (begin_tx d) = survivors env req d"
  "create_audit env req (begin_tx d) = create_audit env req d"
  by (simp_all add: survivors_def create_audit_def)

lemma idle_restore: "idle d \<Longrightarrow>
    (begin_tx d)\<lparr> bookings := bs, audit := a, in_tx := False, sess := None, hooks := [] \<rparr>
      = d\<lparr> bookings := bs, audit := a \<rparr>"
  by (cases d) (simp add: idle_def begin_tx_def)

lemma create_booking_cases:
  assumes "healthy env" "idle d" "db_ok d" "cq_start req < cq_end req"
    and "fresh_booking_id env d" "references_exist req d"
  shows "create_booking env req d =
    (if blocked env req d then (Inl SlotUnavailableError, d)
     else if offer_on_reclaimed env req d then (Inl (DatabaseError (Some ''23503'')), d)
     else (Inr (created env req), after_create env req d))"
proof -
  have ok: "tables_ok d" "fk_ok d" "\<not> in_tx d"
    using assms(2,3) by (auto simp: db_ok_def idle_def)
  have le: "cq_start req \<le> cq_end req" using assms(4) by simp
  note tx = create_tx_eq[OF assms(1) le, of "begin_tx d", simplified]
  note chk = check_created[OF assms(4,5)]
  define t where "t = create_booking_tx env req (begin_tx d)"
  have fk: "fk_ok ((begin_tx d)\<lparr> bookings := survivors env req d @ [created env req], sess := s,
      audit := a \<rparr>) = (\<not> offer_on_reclaimed env req d)" for s a
    using fk_after_create[OF ok(1,2) assms(6,5)] by (simp add: fk_ok_def)
  show ?thesis
  proof (cases "blocked env req d")
    case True
    then have "fst t = Inl (DatabaseError (Some ''23P01''))"
      using tx(1) chk by (simp add: t_def)
    then have "create_booking_tx env req (begin_tx d)
        = (Inl (DatabaseError (Some ''23P01'')), snd t)" by (simp add: t_def prod_eq_iff)
    then show ?thesis using True ok by (simp add: create_booking_def atomic_begin)
  next
    case False
    then have t: "create_booking_tx env req (begin_tx d) = (Inr (created env req),
        (begin_tx d)\<lparr> bookings := survivors env req d @ [created env req],
          sess := Some (create_session req), audit := audit d @ create_audit env req d \<rparr>)"
      using tx chk by (simp add: prod_eq_iff)
    show ?thesis
    proof (cases "offer_on_reclaimed env req d")
      case True
      then show ?thesis using False ok t fk assms(1)
        by (simp add: create_booking_def atomic_begin retryable_def RETRYABLE_SQLSTATES_def
            failover_shaped_def FAILOVER_SQLSTATES_def)
    next
      case False2: False
      have "atomic env (create_booking_tx env req) d
          = (Inr (created env req), after_create env req d)"
        using False False2 ok t fk assms(1,2)
        by (simp add: atomic_begin run_hooks_eq after_create_def) (cases d, simp add: begin_tx_def idle_def)
      then show ?thesis using False False2 by (simp add: create_booking_def)
    qed
  qed
qed

lemma create_booking_error_unchanged: "create_booking env req d = (Inl e, d') \<Longrightarrow> d' = d"
  unfolding create_booking_def
  by (erule translating_cases) (auto dest: atomic_error_rolls_back)

section \<open>Statements that keep the foreign keys\<close>

lemma fk_ok_bookings_frame:
  assumes "fk_ok d" "map bk_id rs = map bk_id (bookings d)"
    and "map bk_resource rs = map bk_resource (bookings d)"
    and "map bk_user rs = map bk_user (bookings d)"
    and "map bk_series rs = map bk_series (bookings d)"
  shows "fk_ok (d\<lparr> bookings := rs \<rparr>)"
proof -
  have all: "list_all (\<lambda>b. Q (g b)) rs = list_all (\<lambda>b. Q (g b)) (bookings d)"
    if "map g rs = map g (bookings d)" for Q and g :: "booking \<Rightarrow> 'b"
    using arg_cong[OF that, of "list_all Q"] by (simp add: list.pred_map comp_def)
  have "bk_id ` List.set rs = bk_id ` List.set (bookings d)"
    using assms(2) by (metis image_set)
  then show ?thesis
    using assms(1) all[OF assms(3), of "\<lambda>x. x \<in> List.set (map rs_id (resources d))"]
      all[OF assms(4), of "\<lambda>x. x \<in> List.set (map au_id (users d))"]
      all[OF assms(5), of "opt_all (\<lambda>s. s \<in> List.set (map se_id (series d)))"]
    by (simp add: fk_ok_def list_all_iff ball_conj_distrib)
qed

lemma fk_ok_bookings_updated:
  assumes "fk_ok d"
    and "\<And>b. P b \<Longrightarrow> bk_id (f b) = bk_id b" "\<And>b. P b \<Longrightarrow> bk_resource (f b) = bk_resource b"
    and "\<And>b. P b \<Longrightarrow> bk_user (f b) = bk_user b" "\<And>b. P b \<Longrightarrow> bk_series (f b) = bk_series b"
  shows "fk_ok (d\<lparr> bookings := updated P f (bookings d) \<rparr>)"
  by (rule fk_ok_bookings_frame[OF assms(1)]) (simp_all add: map_updated assms(2-))

lemma cancelled_row_simps [simp]:
  "bk_id (cancelled_row n a r b) = bk_id b" "bk_resource (cancelled_row n a r b) = bk_resource b"
  "bk_user (cancelled_row n a r b) = bk_user b" "bk_series (cancelled_row n a r b) = bk_series b"
  "bk_range (cancelled_row n a r b) = bk_range b" "bk_status (cancelled_row n a r b) = Cancelled"
  "bk_expires_at (cancelled_row n a r b) = bk_expires_at b"
  by (simp_all add: cancelled_row_def)

text \<open>Taking a row out of the exclusion domain is never refused.\<close>

lemma cancel_row_ok:
  "booking_row_ok b \<Longrightarrow> bk_status b = Confirmed \<Longrightarrow> booking_row_ok (cancelled_row n a r b)"
  by (auto simp: booking_row_ok_def hold_has_expiry_def)

lemma cancel_pair_ok: "booking_pair_ok b c \<Longrightarrow> booking_pair_ok (cancelled_row n a r b) c"
  by (auto simp: booking_pair_ok_def bookings_conflict_def active_status_def)

lemma booking_split:
  assumes "tables_ok d" "b \<in> List.set (bookings d)"
  obtains xs ys where "bookings d = xs @ b # ys"
    "list_all (\<lambda>r. \<not> bk_id r = bk_id b) xs" "list_all (\<lambda>r. \<not> bk_id r = bk_id b) ys"
proof -
  obtain xs ys where split: "bookings d = xs @ b # ys"
    using assms(2) by (meson split_list)
  have "sorted_wrt booking_pair_ok (xs @ b # ys)"
    using assms(1) split by (simp add: tables_ok_def table_ok_def)
  then have "list_all (\<lambda>r. \<not> bk_id r = bk_id b) xs" "list_all (\<lambda>r. \<not> bk_id r = bk_id b) ys"
    by (auto simp: sorted_wrt_append list_all_iff booking_pair_ok_def)
  then show thesis using that split by blast
qed

lemma find_append_skip: "list_all (\<lambda>r. \<not> P r) xs \<Longrightarrow> find P (xs @ ys) = find P ys"
  by (induction xs) auto

lemma find_booking:
  assumes "tables_ok d" "b \<in> List.set (bookings d)"
  shows "find (\<lambda>r. bk_id r = bk_id b) (bookings d) = Some b"
proof -
  obtain xs ys where "bookings d = xs @ b # ys" "list_all (\<lambda>r. \<not> bk_id r = bk_id b) xs"
    using booking_split[OF assms] by metis
  then show ?thesis by (simp add: find_append_skip)
qed


section \<open>Editing\<close>

definition edit_session :: "edit_request \<Rightarrow> session" where
  "edit_session req = \<lparr> ss_actor_id = session_actor (eq_actor_type req) (bk_user (eq_booking req)),
     ss_actor_type = eq_actor_type req, ss_reason = None,
     ss_request_id = nullif_empty (eq_request_id req) \<rparr>"

definition edited :: "edit_request \<Rightarrow> booking \<Rightarrow> booking" where
  "edited req b = b\<lparr> bk_range := TR (eq_start req) (eq_end req) \<rparr>"

definition edit_blocked :: "edit_request \<Rightarrow> booking \<Rightarrow> db \<Rightarrow> bool" where
  "edit_blocked req b d =
     list_ex (\<lambda>c. bk_id c \<noteq> bk_id b \<and> bookings_conflict (edited req b) c) (bookings d)"

definition after_edit :: "env \<Rightarrow> edit_request \<Rightarrow> booking \<Rightarrow> db \<Rightarrow> db" where
  "after_edit env req b d =
     d\<lparr> bookings := updated (\<lambda>r. bk_id r = bk_id b) (edited req) (bookings d),
        audit := audit d @ [audit_row env (Some (edit_session req)) Audit_update
          (EBooking (edited req b)) (Some (EBooking b)) (Some (EBooking (edited req b)))] \<rparr>"

lemma edited_simps [simp]:
  "bk_id (edited req b) = bk_id b" "bk_resource (edited req b) = bk_resource b"
  "bk_user (edited req b) = bk_user b" "bk_series (edited req b) = bk_series b"
  "bk_status (edited req b) = bk_status b" "bk_expires_at (edited req b) = bk_expires_at b"
  "bk_range (edited req b) = TR (eq_start req) (eq_end req)"
  by (simp_all add: edited_def)

lemma edit_update_eq:
  assumes "tables_ok d" "b \<in> List.set (bookings d)" "eq_start req < eq_end req"
  shows "upd_rows check_booking (\<lambda>r. bk_id r = bk_id b) (edited req) [] (bookings d) =
    (if edit_blocked req b d then Inl ''23P01''
     else Inr (updated (\<lambda>r. bk_id r = bk_id b) (edited req) (bookings d)))"
    and "filter (\<lambda>r. bk_id r = bk_id b) (bookings d) = [b]"
proof -
  obtain xs ys where split: "bookings d = xs @ b # ys"
    and xs: "list_all (\<lambda>r. \<not> bk_id r = bk_id b) xs" and ys: "list_all (\<lambda>r. \<not> bk_id r = bk_id b) ys"
    using booking_split[OF assms(1,2)] by metis
  have row: "booking_row_ok b" using assms(1,2) bk.ok_row by (auto simp: tables_ok_def)
  have ids: "\<not> list_ex (\<lambda>r. bk_id b = bk_id r) (xs @ ys)"
    using xs ys by (auto simp: list_ex_iff list_all_iff)
  have chk: "check_booking (edited req b) (xs @ ys) =
      (if edit_blocked req b d then Some ''23P01'' else None)"
    using row ids assms(3) xs ys
    by (auto simp: check_booking_def booking_row_ok_def hold_has_expiry_def isempty_proper proper_def
        edit_blocked_def split list_ex_iff list_all_iff)
  show "upd_rows check_booking (\<lambda>r. bk_id r = bk_id b) (edited req) [] (bookings d) =
    (if edit_blocked req b d then Inl ''23P01''
     else Inr (updated (\<lambda>r. bk_id r = bk_id b) (edited req) (bookings d)))"
    unfolding split using upd_rows_one[OF xs _ ys, of b check_booking "edited req"] chk
    by (simp add: updated_none[OF xs] updated_none[OF ys])
  show "filter (\<lambda>r. bk_id r = bk_id b) (bookings d) = [b]"
    using xs ys unfolding split by (simp add: list_all_iff)
qed

lemma find_updated_booking:
  assumes "tables_ok d" "b \<in> List.set (bookings d)" "\<And>r. bk_id (f r) = bk_id r"
  shows "find (\<lambda>r. bk_id r = bk_id b) (updated (\<lambda>r. bk_id r = bk_id b) f (bookings d)) = Some (f b)"
proof -
  obtain xs ys where "bookings d = xs @ b # ys" "list_all (\<lambda>r. \<not> bk_id r = bk_id b) xs"
    using booking_split[OF assms(1,2)] by metis
  then show ?thesis using assms(3) by (simp add: updated_none find_append_skip)
qed

lemma edit_booking_cases:
  assumes "healthy env" "idle d" "db_ok d" "eq_start req < eq_end req"
    and "b \<in> List.set (bookings d)" "bk_id (eq_booking req) = bk_id b"
  shows "edit_booking env req d =
    (if edit_blocked req b d then (Inl SlotUnavailableError, d)
     else (Inr (edited req b), after_edit env req b d))"
proof -
  have ok: "tables_ok d" "fk_ok d" "\<not> in_tx d"
    using assms(2,3) by (auto simp: db_ok_def idle_def)
  note upd = edit_update_eq[OF ok(1) assms(5,4)]
  have f: "(\<lambda>b. b\<lparr> bk_range := TR (eq_start req) (eq_end req) \<rparr>) = edited req"
    by (simp add: edited_def fun_eq_iff)
  have blocked: "edit_blocked req b (d\<lparr> in_tx := x, sess := y, hooks := z \<rparr>) = edit_blocked req b d"
    for x y z by (simp add: edit_blocked_def)
  have fk: "fk_ok (d\<lparr> bookings := updated (\<lambda>r. bk_id r = bk_id b) (edited req) (bookings d) \<rparr>)"
    by (rule fk_ok_bookings_updated[OF ok(2)]) simp_all
  have found: "find (\<lambda>r. bk_id r = bk_id b) (updated (\<lambda>r. bk_id r = bk_id b) (edited req) (bookings d))
      = Some (edited req b)"
    by (rule find_updated_booking[OF ok(1) assms(5)]) simp
  define m where "m = then_svc
       (apply_write_path_session_settings env
          (session_actor (eq_actor_type req) (bk_user (eq_booking req))) (eq_actor_type req)
          (eq_request_id req) None)
       (bind_svc (sql_range (eq_start req) (eq_end req)) (\<lambda>r.
          then_svc (update_bookings env (\<lambda>b. bk_id b = bk_id (eq_booking req))
                      (\<lambda>b. b\<lparr> bk_range := r \<rparr>))
            (get_row bookings (\<lambda>b. bk_id b = bk_id (eq_booking req)))))"
  have m: "edit_booking env req = translating (atomic env m)"
    by (simp add: edit_booking_def m_def)
  note body = m_def bind_svc_def then_svc_def sql_range_def update_bookings_def update_rows_def
    run_stmt_def log_eqs get_row_def f
  show ?thesis
  proof (cases "edit_blocked req b d")
    case True
    have "fst (m (begin_tx d)) = Inl (DatabaseError (Some ''23P01''))"
      using True assms(1,4,6) upd by (simp add: body)
    then have "atomic env m d = (Inl (DatabaseError (Some ''23P01'')), d)"
      using ok(3) by (cases "m (begin_tx d)") (auto intro: atomic_fail)
    then show ?thesis using True m by simp
  next
    case False
    define d1 where "d1 = (begin_tx d)
      \<lparr> bookings := updated (\<lambda>r. bk_id r = bk_id b) (edited req) (bookings d),
        sess := Some (edit_session req),
        audit := audit d @ [audit_row env (Some (edit_session req)) Audit_update
          (EBooking (edited req b)) (Some (EBooking b)) (Some (EBooking (edited req b)))] \<rparr>"
    have run: "m (begin_tx d) = (Inr (edited req b), d1)"
      using False assms(1,4,6) upd found by (simp add: body d1_def edit_session_def)
    have fk1: "fk_ok d1" using fk by (simp add: d1_def fk_ok_def)
    have "d1\<lparr> in_tx := False, sess := None,
        queue := queue d1 @ (if ev_broker_up env then hooks d1 else []), hooks := [] \<rparr>
        = after_edit env req b d"
      by (rule db.equality) (use assms(2) in \<open>simp_all add: d1_def after_edit_def idle_def\<close>)
    then have "atomic env m d = (Inr (edited req b), after_edit env req b d)"
      using atomic_run[of d env m, OF ok(3) healthyD[OF assms(1)] run fk1] by simp
    then show ?thesis using False m by simp
  qed
qed

section \<open>Cancelling\<close>

definition cancel_session :: "cancel_request \<Rightarrow> session" where
  "cancel_session req = \<lparr> ss_actor_id = session_actor (xq_actor_type req) (xq_actor req),
     ss_actor_type = xq_actor_type req,
     ss_reason = (case xq_reason req of None \<Rightarrow> None | Some r \<Rightarrow> nullif_empty r),
     ss_request_id = nullif_empty (xq_request_id req) \<rparr>"

definition cancel_row :: "env \<Rightarrow> cancel_request \<Rightarrow> booking \<Rightarrow> booking" where
  "cancel_row env req = cancelled_row (ev_py_now env) (xq_actor req) (xq_reason req)"

definition cancel_hooks :: "cancel_request \<Rightarrow> booking \<Rightarrow> db \<Rightarrow> task list" where
  "cancel_hooks req b d =
     CascadeTask (bk_resource b) (lo (bk_range b)) (hi (bk_range b)) (xq_request_id req)
     # (if xq_actor_type req = Actor_admin
        then [notify_admin_cancellation (bk_user (xq_booking req))
                (resource_name (bk_resource (xq_booking req)) d) (lo (bk_range b)) (hi (bk_range b))
                (case xq_reason req of None \<Rightarrow> '''' | Some s \<Rightarrow> s) (xq_request_id req)]
        else [])"

text \<open>The effect of a cancellation on the rows and the trail; the callbacks are apart.\<close>

definition cancelled_db :: "env \<Rightarrow> cancel_request \<Rightarrow> booking \<Rightarrow> db \<Rightarrow> db" where
  "cancelled_db env req b d =
     d\<lparr> bookings := updated (\<lambda>r. bk_id r = bk_id b) (cancel_row env req) (bookings d),
        audit := audit d @ [audit_row env (Some (cancel_session req)) Audit_update
          (EBooking (cancel_row env req b)) (Some (EBooking b))
          (Some (EBooking (cancel_row env req b)))] \<rparr>"

lemma cancel_row_simps [simp]:
  "bk_id (cancel_row env req b) = bk_id b" "bk_resource (cancel_row env req b) = bk_resource b"
  "bk_user (cancel_row env req b) = bk_user b" "bk_series (cancel_row env req b) = bk_series b"
  "bk_range (cancel_row env req b) = bk_range b" "bk_status (cancel_row env req b) = Cancelled"
  by (simp_all add: cancel_row_def)

definition cancel_tx :: "env \<Rightarrow> cancel_request \<Rightarrow> (booking \<times> bool) svc" where
  "cancel_tx env req =
     then_svc
       (apply_write_path_session_settings env
          (session_actor (xq_actor_type req) (xq_actor req)) (xq_actor_type req)
          (xq_request_id req) (xq_reason req))
       (bind_svc (update_bookings env
            (\<lambda>b. bk_id b = bk_id (xq_booking req) \<and> bk_status b = Confirmed)
            (cancelled_row (ev_py_now env) (xq_actor req) (xq_reason req))) (\<lambda>n.
        bind_svc (get_row bookings (\<lambda>b. bk_id b = bk_id (xq_booking req))) (\<lambda>b.
          if n \<noteq> 0 then then_svc (register_cancel_hooks env req b) (ret (b, False))
          else ret (b, True))))"

lemma cancel_booking_tx: "cancel_booking env req = translating (atomic env (cancel_tx env req))"
  by (simp add: cancel_booking_def cancel_tx_def)

lemma guarded_filter:
  assumes "tables_ok d" "b \<in> List.set (bookings d)"
  shows "filter (\<lambda>r. bk_id r = bk_id b \<and> bk_status r = st) (bookings d)
      = (if bk_status b = st then [b] else [])"
    and "updated (\<lambda>r. bk_id r = bk_id b \<and> bk_status r = st) f (bookings d)
      = (if bk_status b = st then updated (\<lambda>r. bk_id r = bk_id b) f (bookings d) else bookings d)"
proof -
  obtain xs ys where split: "bookings d = xs @ b # ys"
    and xs: "list_all (\<lambda>r. \<not> bk_id r = bk_id b) xs" and ys: "list_all (\<lambda>r. \<not> bk_id r = bk_id b) ys"
    using booking_split[OF assms] by metis
  have none: "list_all (\<lambda>r. \<not> (bk_id r = bk_id b \<and> bk_status r = st)) zs"
    if "list_all (\<lambda>r. \<not> bk_id r = bk_id b) zs" for zs
    using that by (auto simp: list_all_iff)
  show "filter (\<lambda>r. bk_id r = bk_id b \<and> bk_status r = st) (bookings d)
      = (if bk_status b = st then [b] else [])"
    using none[OF xs] none[OF ys] by (simp add: split filter_empty_conv list_all_iff)
  show "updated (\<lambda>r. bk_id r = bk_id b \<and> bk_status r = st) f (bookings d)
      = (if bk_status b = st then updated (\<lambda>r. bk_id r = bk_id b) f (bookings d) else bookings d)"
    by (simp add: split updated_none[OF none[OF xs]] updated_none[OF none[OF ys]]
        updated_none[OF xs] updated_none[OF ys])
qed

lemma cancel_tx_eq:
  assumes "healthy env" "tables_ok d" "in_tx d"
    and "b \<in> List.set (bookings d)" "bk_id (xq_booking req) = bk_id b"
  shows "cancel_tx env req d =
    (if bk_status b = Confirmed
     then (Inr (cancel_row env req b, False),
           (cancelled_db env req b d)\<lparr> sess := Some (cancel_session req),
              hooks := hooks d @ cancel_hooks req b d \<rparr>)
     else (Inr (b, True), d\<lparr> sess := Some (cancel_session req) \<rparr>))"
proof -
  let ?P = "\<lambda>r. bk_id r = bk_id b \<and> bk_status r = Confirmed"
  let ?f = "cancel_row env req"
  note flt = guarded_filter[OF assms(2,4)]
  have f: "cancelled_row (ev_py_now env) (xq_actor req) (xq_reason req) = ?f"
    by (simp add: cancel_row_def fun_eq_iff)
  have upd: "upd_rows check_booking ?P ?f [] (bookings d) = Inr (updated ?P ?f (bookings d))"
    using assms(2) cancel_row_ok cancel_pair_ok bk.ok_row
    by (intro bk.update_relaxing) (auto simp: tables_ok_def cancel_row_def)
  have found: "find (\<lambda>r. bk_id r = bk_id b) (updated ?P ?f (bookings d))
      = Some (if bk_status b = Confirmed then ?f b else b)"
    using find_booking[OF assms(2,4)] find_updated_booking[OF assms(2,4), of ?f] flt(2) by simp
  show ?thesis
    using assms(1,3,5) upd found flt
    by (simp add: cancel_tx_def then_svc_def bind_svc_def update_bookings_def update_rows_def
        run_stmt_def log_eqs get_row_def f register_cancel_hooks_def on_commit_def cancel_hooks_def
        cancelled_db_def cancel_session_def count_if_def resource_name_def)
qed

lemma fk_ok_cancelled: "fk_ok d \<Longrightarrow> fk_ok (cancelled_db env req b d)"
  unfolding cancelled_db_def
  using fk_ok_bookings_updated[of d "\<lambda>r. bk_id r = bk_id b" "cancel_row env req"]
  by (simp add: fk_ok_def)

lemma cancel_booking_cases:
  assumes "healthy env" "idle d" "db_ok d"
    and "b \<in> List.set (bookings d)" "bk_id (xq_booking req) = bk_id b"
  shows "cancel_booking env req d =
    (if bk_status b = Confirmed
     then (Inr (cancel_row env req b, False),
           (cancelled_db env req b d)\<lparr> queue := queue d @
              (if ev_broker_up env then cancel_hooks req b d else []) \<rparr>)
     else (Inr (b, True), d))"
proof -
  have ok: "tables_ok d" "fk_ok d" "\<not> in_tx d"
    using assms(2,3) by (auto simp: db_ok_def idle_def)
  have tx: "cancel_tx env req (begin_tx d) =
    (if bk_status b = Confirmed
     then (Inr (cancel_row env req b, False),
           (cancelled_db env req b (begin_tx d))\<lparr> sess := Some (cancel_session req),
              hooks := cancel_hooks req b d \<rparr>)
     else (Inr (b, True), (begin_tx d)\<lparr> sess := Some (cancel_session req) \<rparr>))"
    using cancel_tx_eq[OF assms(1), of "begin_tx d" b req] assms(4,5) ok
    by (simp add: cancel_hooks_def resource_name_def)
  show ?thesis
  proof (cases "bk_status b = Confirmed")
    case True
    define d1 where "d1 = (cancelled_db env req b (begin_tx d))
      \<lparr> sess := Some (cancel_session req), hooks := cancel_hooks req b d \<rparr>"
    have run: "cancel_tx env req (begin_tx d) = (Inr (cancel_row env req b, False), d1)"
      using tx True by (simp add: d1_def)
    have fk1: "fk_ok d1" using fk_ok_cancelled[of "begin_tx d"] ok by (simp add: d1_def)
    have "d1\<lparr> in_tx := False, sess := None,
        queue := queue d1 @ (if ev_broker_up env then hooks d1 else []), hooks := [] \<rparr>
        = (cancelled_db env req b d)\<lparr> queue := queue d @
              (if ev_broker_up env then cancel_hooks req b d else []) \<rparr>"
      by (rule db.equality) (use assms(2) in \<open>simp_all add: d1_def cancelled_db_def idle_def\<close>)
    then have "atomic env (cancel_tx env req) d = (Inr (cancel_row env req b, False),
        (cancelled_db env req b d)\<lparr> queue := queue d @
              (if ev_broker_up env then cancel_hooks req b d else []) \<rparr>)"
      using atomic_run[of d env "cancel_tx env req", OF ok(3) healthyD[OF assms(1)] run fk1] by simp
    then show ?thesis using True by (simp add: cancel_booking_tx)
  next
    case False
    have eq: "(begin_tx d)\<lparr> sess := Some (cancel_session req) \<rparr>\<lparr> in_tx := False, sess := None,
        queue := queue d, hooks := [] \<rparr> = d"
      by (rule db.equality) (use assms(2) in \<open>simp_all add: idle_def\<close>)
    have "atomic env (cancel_tx env req) d = (Inr (b, True), d)"
      using atomic_run[of d env "cancel_tx env req" _ "(begin_tx d)\<lparr> sess := Some (cancel_session req) \<rparr>"]
        tx False ok assms(1) eq by simp
    then show ?thesis using False by (simp add: cancel_booking_tx)
  qed
qed

section \<open>Properties\<close>

lemmas demo_simps = demo_defs schema_defs idle_def

text \<open>C1: the constraint, and nothing else, decides a create: on a consistent database, with no
  server fault, a create with a fresh id for existing rows answers \<open>slot_unavailable\<close> exactly when
  an active booking of that resource overlaps the range and is not an expired hold; a refused
  create leaves the database untouched.\<close>

theorem create_booking_decided_by_constraint:
  assumes "healthy env" "idle d" "db_ok d" "cq_start req < cq_end req"
    and "fresh_booking_id env d" "references_exist req d" "active_status (cq_status req)"
  shows "create_booking env req d = (Inl SlotUnavailableError, d) \<longleftrightarrow>
    (\<exists>b \<in> List.set (bookings d). active_status (bk_status b) \<and> bk_resource b = cq_resource req \<and>
       overlaps (bk_range b) (TR (cq_start req) (cq_end req)) \<and>
       \<not> (bk_status b = Held \<and> expired_at (ev_db_now env) b))"
  unfolding create_booking_cases[OF assms(1-6)]
  using assms(7) by (auto simp: blocked_def list_ex_iff reclaimable_def overlaps_sym[of "TR _ _"])

definition demo_create :: "uuid \<Rightarrow> instant \<Rightarrow> instant \<Rightarrow> create_request" where
  "demo_create u s e = \<lparr> cq_resource = 10, cq_user = u, cq_start = s, cq_end = e,
     cq_request_id = ''r'', cq_series = None, cq_actor_type = Actor_user, cq_status = Confirmed \<rparr>"

lemma healthy_demo [simp]: "healthy (demo_env t i)"
  by (simp add: healthy_def demo_env_def)

theorem create_booking_decided_by_constraint_witness:
  "create_booking (demo_env 0 7) (demo_create 2 150 250)
      (demo_db [demo_booking 5 1 (TR 100 200) Confirmed None] [] [])
   = (Inl SlotUnavailableError, demo_db [demo_booking 5 1 (TR 100 200) Confirmed None] [] [])"
  by (rule create_booking_decided_by_constraint[THEN iffD2]; (rule healthy_demo)?;
      (code_simp; fail)?; (simp add: demo_simps demo_create_def; fail)?)

text \<open>An expired hold that no offer row refers to never blocks a booking: when every active
  booking in the way is such a hold, the create succeeds, the holds are gone, every other row is
  as it was, and a new hold expires 15 minutes after the call.\<close>

theorem create_booking_reclaims_expired_holds:
  assumes "healthy env" "idle d" "db_ok d" "cq_start req < cq_end req"
    and "fresh_booking_id env d" "references_exist req d"
    and "\<not> offer_on_reclaimed env req d"
    and "list_all (\<lambda>b. active_status (bk_status b) \<and> bk_resource b = cq_resource req \<and>
           overlaps (bk_range b) (TR (cq_start req) (cq_end req)) \<longrightarrow>
           bk_status b = Held \<and> expired_at (ev_db_now env) b) (bookings d)"
  shows "\<exists>b d'. create_booking env req d = (Inr b, d') \<and>
    bookings d' = filter (\<lambda>r. \<not> (bk_resource r = cq_resource req \<and> bk_status r = Held \<and>
        expired_at (ev_db_now env) r \<and> overlaps (bk_range r) (TR (cq_start req) (cq_end req))))
      (bookings d) @ [b] \<and>
    bk_range b = TR (cq_start req) (cq_end req) \<and> bk_status b = cq_status req \<and>
    bk_user b = cq_user req \<and>
    bk_expires_at b = (if cq_status req = Held then Some (ev_py_now env + 15 * minute) else None)"
proof -
  have "\<not> blocked env req d"
    using assms(8) by (auto simp: blocked_def list_ex_iff list_all_iff reclaimable_def
        overlaps_sym[of "TR _ _"])
  then have "create_booking env req d = (Inr (created env req), after_create env req d)"
    using create_booking_cases[OF assms(1-6)] assms(7) by simp
  then show ?thesis
    by (auto simp: after_create_def survivors_def del_rows_def reclaimable_def
        OFFER_WINDOW_MINUTES_def)
qed

theorem create_booking_reclaims_expired_holds_witness:
  "\<exists>b d'. create_booking (demo_env 900 7) (demo_create 2 150 250)
      (demo_db [demo_booking 5 1 (TR 100 200) Held (Some 800)] [] []) = (Inr b, d') \<and>
    bookings d' = [b]"
  using create_booking_reclaims_expired_holds[of "demo_env 900 7"
      "demo_db [demo_booking 5 1 (TR 100 200) Held (Some 800)] [] []" "demo_create 2 150 250"]
  by (simp add: demo_simps demo_create_def fresh_booking_id_def references_exist_def
      offer_on_reclaimed_def expired_at_def healthy_def) blast

text \<open>But a hold made for a waitlist offer is referred to by its \<open>waitlist_offer\<close> row, whose
  foreign key does not cascade.  Once such a hold has expired, every create that it stands in the
  way of runs through, is refused by the deferred foreign key at its commit (SQLSTATE 23503),
  which no branch of the translation knows, and surfaces as a bare 500; the hold stays.\<close>

theorem create_over_offered_expired_hold_fails:
  assumes "healthy env" "idle d" "db_ok d" "cq_start req < cq_end req"
    and "fresh_booking_id env d" "references_exist req d"
    and "h \<in> List.set (bookings d)" "w \<in> List.set (offers d)" "wo_hold w = bk_id h"
    and "bk_status h = Held" "expired_at (ev_db_now env) h" "bk_resource h = cq_resource req"
    and "overlaps (bk_range h) (TR (cq_start req) (cq_end req))"
    and "\<not> blocked env req d"
  shows "create_booking env req d = (Inl (DatabaseError (Some ''23503'')), d) \<and>
    response_status (DatabaseError (Some ''23503'')) = 500"
proof -
  have "reclaimable env (cq_resource req) (TR (cq_start req) (cq_end req)) h"
    using assms(10-13) by (simp add: reclaimable_def)
  then have "offer_on_reclaimed env req d"
    using assms(7-9) unfolding offer_on_reclaimed_def list_ex_iff by metis
  then show ?thesis using create_booking_cases[OF assms(1-6)] assms(14) by simp
qed

definition demo_held :: db where
  "demo_held = demo_db [demo_booking 5 1 (TR 100 200) Held (Some 800)]
     [demo_entry 6 1 (TR 100 200) Offered 0] [demo_offer 8 6 5 (TR 100 200) Offer_active 800]"

theorem create_over_offered_expired_hold_fails_witness:
  "create_booking (demo_env 900 7) (demo_create 2 150 250) demo_held
     = (Inl (DatabaseError (Some ''23503'')), demo_held)"
  using create_over_offered_expired_hold_fails[of "demo_env 900 7" demo_held "demo_create 2 150 250"
      "demo_booking 5 1 (TR 100 200) Held (Some 800)" "demo_offer 8 6 5 (TR 100 200) Offer_active 800"]
  by (simp add: demo_held_def demo_simps demo_create_def fresh_booking_id_def references_exist_def
      blocked_def reclaimable_def expired_at_def healthy_def)

lemma handled_sqlstates:
  "handle_write_database_error e = DatabaseError s \<Longrightarrow>
     e = DatabaseError s \<and> s \<noteq> Some ''23P01'' \<and> \<not> retryable s \<and> \<not> failover_shaped s"
  by (cases e) (auto split: if_splits)

text \<open>C11: a create that fails, for whatever reason, on whatever database and with whatever server
  fault, leaves no trace: no row, no audit row, no callback; and it never answers with a raw
  database error for a conflict, a contention SQLSTATE or a failover-shaped failure.\<close>

theorem create_booking_failure_is_clean:
  assumes "create_booking env req d = (Inl e, d')"
  shows "d' = d \<and> (\<forall>s. e = DatabaseError s \<longrightarrow>
     s \<notin> {None, Some ''23P01'', Some ''55P03'', Some ''40P01'', Some ''57014'', Some ''57P01'',
          Some ''57P02'', Some ''57P03''})"
proof (intro conjI allI impI)
  show "d' = d" using create_booking_error_unchanged[OF assms] .
  fix s assume "e = DatabaseError s"
  with assms have "\<exists>e'. handle_write_database_error e' = DatabaseError s"
    unfolding create_booking_def by (auto elim!: translating_cases)
  then have "s \<noteq> Some ''23P01'' \<and> \<not> retryable s \<and> \<not> failover_shaped s"
    using handled_sqlstates by blast
  then show "s \<notin> {None, Some ''23P01'', Some ''55P03'', Some ''40P01'', Some ''57014'', Some ''57P01'',
          Some ''57P02'', Some ''57P03''}"
    by (cases s)
      (auto simp: retryable_def RETRYABLE_SQLSTATES_def failover_shaped_def FAILOVER_SQLSTATES_def)
qed

theorem create_booking_failure_is_clean_witness:
  "snd (create_booking (demo_env 0 7) (demo_create 2 300 250) (demo_db [] [] [])) = demo_db [] [] []"
proof -
  have "create_booking (demo_env 0 7) (demo_create 2 300 250) (demo_db [] [] [])
      = (Inl (DatabaseError (Some ''22000'')), demo_db [] [] [])"
    by (simp add: create_booking_def create_booking_tx_def atomic_def sql_range_def mk_range_def
        demo_simps demo_create_def bind_svc_def then_svc_def translating_def catch_svc_def
        apply_write_path_session_settings_def retryable_def RETRYABLE_SQLSTATES_def
        failover_shaped_def FAILOVER_SQLSTATES_def)
  from create_booking_failure_is_clean[OF this] this show ?thesis by simp
qed

text \<open>Requests that reach the database one after the other, in whatever order the row locks let
  them through.\<close>

fun run_creates :: "(env \<times> create_request) list \<Rightarrow> db \<Rightarrow> (exn + booking) list \<times> db" where
  "run_creates [] d = ([], d)"
| "run_creates ((env, req) # rs) d =
     (let (r, d1) = create_booking env req d; (out, d2) = run_creates rs d1 in (r # out, d2))"

lemma idle_after_create [simp]: "idle (after_create env req d) = idle d"
  by (simp add: idle_def after_create_def)

lemma db_ok_create: "db_ok d \<Longrightarrow> create_booking env req d = (r, d') \<Longrightarrow> db_ok d'"
  by (rule keepsE[OF safeD2[OF safe_booking_services(1)]])

lemma losers_all_refused:
  assumes "idle d" "db_ok d" "winner \<in> List.set (bookings d)" "bk_status winner = Confirmed"
    and "bk_resource winner = res"
    and "list_all (\<lambda>(env, req). healthy env \<and> cq_start req < cq_end req \<and> cq_resource req = res \<and>
           active_status (cq_status req) \<and> overlaps (bk_range winner) (TR (cq_start req) (cq_end req)) \<and>
           fresh_booking_id env d \<and> references_exist req d) rs"
  shows "run_creates rs d = (replicate (length rs) (Inl SlotUnavailableError), d)"
  using assms(6)
proof (induction rs)
  case (Cons p rs)
  obtain env req where p: "p = (env, req)" by (cases p)
  then have h: "healthy env" "cq_start req < cq_end req" "cq_resource req = res"
    "active_status (cq_status req)" "overlaps (bk_range winner) (TR (cq_start req) (cq_end req))"
    "fresh_booking_id env d" "references_exist req d"
    using Cons.prems by auto
  have "blocked env req d"
    unfolding blocked_def list_ex_iff
    using assms(3-5) h(3,4) h(5)[unfolded overlaps_sym[of "bk_range winner"]]
    by (intro conjI bexI[of _ winner]) (simp_all add: active_status_def reclaimable_def)
  then have "create_booking env req d = (Inl SlotUnavailableError, d)"
    using create_booking_cases[OF h(1) assms(1,2) h(2,6,7)] by simp
  then show ?case using Cons p by simp
qed simp




definition demo_edit :: "booking \<Rightarrow> instant \<Rightarrow> instant \<Rightarrow> edit_request" where
  "demo_edit b s e = \<lparr> eq_booking = b, eq_start = s, eq_end = e, eq_request_id = ''r'',
     eq_actor_type = Actor_user \<rparr>"


text \<open>The edit has no status guard.  The beneficiary's edit of a \<open>held\<close> row moves the hold, and
  the offer that promises the old range keeps promising it: the range it names is then free.\<close>

theorem edit_moves_hold_away_from_its_offer:
  assumes "healthy env" "idle d" "db_ok d" "eq_start req < eq_end req"
    and "h \<in> List.set (bookings d)" "bk_id (eq_booking req) = bk_id h" "bk_status h = Held"
    and "w \<in> List.set (offers d)" "wo_hold w = bk_id h" "wo_range w = bk_range h"
    and "\<not> overlaps (bk_range h) (TR (eq_start req) (eq_end req))"
    and "\<not> edit_blocked req h d"
  shows "\<exists>h' d'. edit_booking env req d = (Inr h', d') \<and> h' \<in> List.set (bookings d') \<and>
    bk_status h' = Held \<and> w \<in> List.set (offers d') \<and> wo_hold w = bk_id h' \<and>
    (\<forall>b \<in> List.set (bookings d'). active_status (bk_status b) \<and> bk_resource b = bk_resource h' \<longrightarrow>
       \<not> overlaps (wo_range w) (bk_range b))"
proof -
  have ok: "tables_ok d" using assms(3) by (simp add: db_ok_def)
  let ?d = "after_edit env req h d"
  have r: "edit_booking env req d = (Inr (edited req h), ?d)"
    using edit_booking_cases[OF assms(1-6)] assms(12) by simp
  have "edited req h \<in> List.set (bookings ?d)"
    using assms(5) by (auto simp: after_edit_def set_updated image_iff)
  moreover have "\<not> overlaps (wo_range w) (bk_range b)"
    if b: "b \<in> List.set (bookings ?d)" "active_status (bk_status b)" "bk_resource b = bk_resource h" for b
  proof (cases "bk_id b = bk_id h")
    case True
    then have "b = edited req h"
      using b(1) booking_ids_unique[OF ok _ assms(5)]
      by (auto simp: after_edit_def set_updated split: if_splits)
    then show ?thesis using assms(10,11) by simp
  next
    case False
    then have "b \<in> List.set (bookings d)" using b(1)
      by (auto simp: after_edit_def set_updated split: if_splits)
    then have "booking_pair_ok h b"
      using bk.ok_pair[of "bookings d" h b] ok assms(5) False by (auto simp: tables_ok_def)
    then show ?thesis
      using b(2,3) assms(7,10) by (auto simp: booking_pair_ok_def bookings_conflict_def active_status_def)
  qed
  ultimately show ?thesis
    using r assms(7-9) by (intro exI[of _ "edited req h"] exI[of _ ?d]) (auto simp: after_edit_def)
qed

theorem edit_moves_hold_away_from_its_offer_witness:
  "\<exists>h' d'. edit_booking (demo_env 0 7)
      (demo_edit (demo_booking 5 1 (TR 100 200) Held (Some 800)) 500 600) demo_held = (Inr h', d') \<and>
    bk_status h' = Held \<and> demo_offer 8 6 5 (TR 100 200) Offer_active 800 \<in> List.set (offers d')"
  using edit_moves_hold_away_from_its_offer[of "demo_env 0 7" demo_held
      "demo_edit (demo_booking 5 1 (TR 100 200) Held (Some 800)) 500 600"
      "demo_booking 5 1 (TR 100 200) Held (Some 800)" "demo_offer 8 6 5 (TR 100 200) Offer_active 800"]
  by (simp add: demo_held_def demo_simps demo_edit_def edit_blocked_def edited_def healthy_def) blast

text \<open>C13: cancelling a confirmed booking takes its row, and no other, to \<open>cancelled\<close> and hands the
  cascade for exactly its range (and for an administrator's override the notification of the
  owner with the recorded reason) to the broker; cancelling anything else is a no-op that reports
  the row as it is.  A broker outage changes nothing but the queue.\<close>

theorem cancel_booking_outcome:
  assumes "healthy env" "idle d" "db_ok d"
    and "b \<in> List.set (bookings d)" "bk_id (xq_booking req) = bk_id b"
  shows "if bk_status b = Confirmed
    then \<exists>b' d'. cancel_booking env req d = (Inr (b', False), d') \<and>
      b' = b\<lparr> bk_status := Cancelled, bk_cancelled_at := Some (ev_py_now env),
              bk_cancelled_by := Some (xq_actor req), bk_reason := xq_reason req \<rparr> \<and>
      bookings d' = map (\<lambda>r. if r = b then b' else r) (bookings d) \<and>
      queue d' = queue d @ (if ev_broker_up env
        then CascadeTask (bk_resource b) (lo (bk_range b)) (hi (bk_range b)) (xq_request_id req)
          # (if xq_actor_type req = Actor_admin
             then [notify_admin_cancellation (bk_user (xq_booking req))
                     (resource_name (bk_resource (xq_booking req)) d) (lo (bk_range b)) (hi (bk_range b))
                     (case xq_reason req of None \<Rightarrow> '''' | Some s \<Rightarrow> s) (xq_request_id req)]
             else [])
        else [])
    else cancel_booking env req d = (Inr (b, True), d)"
proof -
  have ok: "tables_ok d" using assms(2,3) by (simp add: db_ok_def)
  have uniq: "bk_id c = bk_id b \<longleftrightarrow> c = b" if "c \<in> List.set (bookings d)" for c
    using booking_ids_unique[OF ok that assms(4)] by blast
  have rows: "updated (\<lambda>r. bk_id r = bk_id b) (cancel_row env req) (bookings d)
      = map (\<lambda>r. if r = b then cancel_row env req b else r) (bookings d)"
    using uniq by (auto simp: updated_def)
  show ?thesis
    unfolding cancel_booking_cases[OF assms] using rows
    by (auto simp: cancelled_db_def cancel_hooks_def cancel_row_def cancelled_row_def)
qed

definition demo_cancel :: "booking \<Rightarrow> actor_type \<Rightarrow> cancel_request" where
  "demo_cancel b ty = \<lparr> xq_booking = b, xq_actor = 3, xq_actor_type = ty,
     xq_reason = Some ''maintenance'', xq_request_id = ''r'' \<rparr>"

theorem cancel_booking_outcome_witness:
  "\<exists>b' d'. cancel_booking (demo_env 0 7)
      (demo_cancel (demo_booking 5 1 (TR 100 200) Confirmed None) Actor_user)
      (demo_db [demo_booking 5 1 (TR 100 200) Confirmed None] [] []) = (Inr (b', False), d') \<and>
    bk_status b' = Cancelled \<and> queue d' = [CascadeTask 10 100 200 ''r'']"
  using cancel_booking_outcome[of "demo_env 0 7"
      "demo_db [demo_booking 5 1 (TR 100 200) Confirmed None] [] []"
      "demo_booking 5 1 (TR 100 200) Confirmed None"
      "demo_cancel (demo_booking 5 1 (TR 100 200) Confirmed None) Actor_user"]
  by (auto simp: demo_simps demo_cancel_def healthy_def)

text \<open>A cancelled slot is free at once: after the cancellation any user's create of a range
  inside it succeeds, in particular one with a hold for the first of the waitlist.\<close>

theorem cancelled_slot_is_bookable:
  assumes "healthy env" "idle d" "db_ok d" "b \<in> List.set (bookings d)" "bk_status b = Confirmed"
    and "bk_id (xq_booking xreq) = bk_id b" "cancel_booking env xreq d = (r, d1)"
    and "healthy env'" "cq_start req < cq_end req" "cq_resource req = bk_resource b"
    and "contained_by (TR (cq_start req) (cq_end req)) (bk_range b)"
    and "fresh_booking_id env' d" "references_exist req d"
  shows "\<exists>b' d2. create_booking env' req d1 = (Inr b', d2) \<and> b' \<in> List.set (bookings d2) \<and>
    bk_user b' = cq_user req \<and> bk_status b' = cq_status req"
proof -
  let ?R = "TR (cq_start req) (cq_end req)"
  have ok: "tables_ok d" using assms(3) by (simp add: db_ok_def)
  have c: "r = Inr (cancel_row env xreq b, False)"
    "d1 = (cancelled_db env xreq b d)\<lparr> queue := queue d @
              (if ev_broker_up env then cancel_hooks xreq b d else []) \<rparr>"
    using cancel_booking_cases[OF assms(1-4,6)] assms(5,7) by auto
  have idle1: "idle d1" using assms(2) by (simp add: c(2) idle_def cancelled_db_def)
  have ok1: "db_ok d1"
    using keepsE[OF safeD2[OF safe_booking_services(3)] assms(3,7)] .
  have clear: "\<not> (active_status (bk_status c) \<and> bk_resource c = bk_resource b \<and> overlaps (bk_range c) ?R)"
    if "c \<in> List.set (bookings d1)" for c
  proof
    assume c': "active_status (bk_status c) \<and> bk_resource c = bk_resource b \<and> overlaps (bk_range c) ?R"
    then have c0: "c \<in> List.set (bookings d)" "bk_id c \<noteq> bk_id b"
      using that c(2) by (auto simp: cancelled_db_def set_updated active_status_def split: if_splits)
    then have "booking_pair_ok b c"
      using bk.ok_pair[of "bookings d" b c] ok assms(4) by (auto simp: tables_ok_def)
    then have "\<not> overlaps (bk_range b) (bk_range c)"
      using c' assms(5) by (auto simp: booking_pair_ok_def bookings_conflict_def active_status_def)
    then have "\<not> overlaps ?R (bk_range c)" using disjoint_contained[OF assms(11)] by blast
    then show False using c' overlaps_sym by blast
  qed
  have nb: "\<not> blocked env' req d1"
    using clear assms(10) overlaps_sym by (fastforce simp: blocked_def list_ex_iff)
  have no: "\<not> offer_on_reclaimed env' req d1"
    using clear assms(10)
    by (auto simp: offer_on_reclaimed_def list_ex_iff reclaimable_def active_status_def)
  have fr: "fresh_booking_id env' d1" "references_exist req d1"
    using assms(12,13) by (auto simp: c(2) cancelled_db_def fresh_booking_id_def list_all_iff
        set_updated references_exist_def)
  show ?thesis
    using create_booking_cases[OF assms(8) idle1 ok1 assms(9) fr] nb no
    by (simp add: after_create_def)
qed

theorem cancelled_slot_is_bookable_witness:
  "\<exists>b' d2. create_booking (demo_env 0 7) (demo_create 2 120 180)
      (snd (cancel_booking (demo_env 0 7)
        (demo_cancel (demo_booking 5 1 (TR 100 200) Confirmed None) Actor_user)
        (demo_db [demo_booking 5 1 (TR 100 200) Confirmed None] [] []))) = (Inr b', d2) \<and>
     bk_user b' = 2"
  using cancelled_slot_is_bookable[of "demo_env 0 7"
      "demo_db [demo_booking 5 1 (TR 100 200) Confirmed None] [] []"
      "demo_booking 5 1 (TR 100 200) Confirmed None"
      "demo_cancel (demo_booking 5 1 (TR 100 200) Confirmed None) Actor_user" _ _
      "demo_env 0 7" "demo_create 2 120 180", OF _ _ _ _ _ _ prod.collapse[symmetric]]
  by (auto simp: demo_simps demo_cancel_def demo_create_def healthy_def contained_by_def
      fresh_booking_id_def references_exist_def)

end
