(* ===== verification/Waitlist_Properties.thy ===== *)
theory Waitlist_Properties
  imports Waitlist_Services Booking_Properties "HOL-Library.Multiset"
begin

text \<open>
  What the waitlist guarantees: the order and the containment rule of eligibility, the offer the
  cascade makes, the outcome of acceptance and decline, the race between acceptance and the
  reaper in both orders, and that the reaper leaves no expired hold.
\<close>

section \<open>Rows rewritten under a guard\<close>

lemma list_all_updated:
  "(\<And>r. P r \<Longrightarrow> Q (f r) = Q r) \<Longrightarrow> list_all Q (updated P f rs) = list_all Q rs"
  by (induction rs) auto

lemma image_updated: "(\<And>r. P r \<Longrightarrow> g (f r) = g r) \<Longrightarrow> g ` List.set (updated P f rs) = g ` List.set rs"
  by (induction rs) auto

lemma fk_ok_updated3:
  assumes "fk_ok d"
    and "\<And>b. P b \<Longrightarrow> bk_id (f b) = bk_id b \<and> bk_resource (f b) = bk_resource b \<and>
           bk_user (f b) = bk_user b \<and> bk_series (f b) = bk_series b"
    and "\<And>e. Q e \<Longrightarrow> we_id (g e) = we_id e \<and> we_resource (g e) = we_resource e \<and> we_user (g e) = we_user e"
    and "\<And>w. R w \<Longrightarrow> wo_entry (h w) = wo_entry w \<and> wo_hold (h w) = wo_hold w \<and>
           wo_resource (h w) = wo_resource w"
  shows "fk_ok (d\<lparr> bookings := updated P f (bookings d), entries := updated Q g (entries d),
     offers := updated R h (offers d) \<rparr>)"
  using assms unfolding fk_ok_def
  by (simp add: list_all_updated image_updated)

lemma find_updated:
  "(\<And>r. P r \<Longrightarrow> Q (f r) = Q r) \<Longrightarrow>
   find Q (updated P f rs) = map_option (\<lambda>r. if P r then f r else r) (find Q rs)"
  by (induction rs) auto

section \<open>Accepting an offer\<close>

definition confirm_row :: "booking \<Rightarrow> booking" where
  "confirm_row b = b\<lparr> bk_status := Confirmed, bk_expires_at := None \<rparr>"

lemma confirm_row_simps [simp]:
  "bk_id (confirm_row b) = bk_id b" "bk_resource (confirm_row b) = bk_resource b"
  "bk_user (confirm_row b) = bk_user b" "bk_series (confirm_row b) = bk_series b"
  "bk_range (confirm_row b) = bk_range b" "bk_status (confirm_row b) = Confirmed"
  "bk_expires_at (confirm_row b) = None"
  by (simp_all add: confirm_row_def)

text \<open>The rows after an accepted offer.\<close>

definition accepted_db :: "env \<Rightarrow> offer_request \<Rightarrow> audit_log list \<Rightarrow> db \<Rightarrow> db" where
  "accepted_db env req log d =
     d\<lparr> bookings := updated (acceptable env req) confirm_row (bookings d),
        offers := updated (\<lambda>w. wo_id w = wo_id (fq_offer req) \<and> wo_status w = Offer_active)
          (\<lambda>w. w\<lparr> wo_status := Offer_confirmed \<rparr>) (offers d),
        entries := updated (\<lambda>w. we_id w = wo_entry (fq_offer req)) (\<lambda>w. w\<lparr> we_status := Fulfilled \<rparr>)
          (entries d),
        audit := audit d @ log \<rparr>"

lemma bookings_update_confirm:
  assumes "tables_ok d"
  shows "upd_rows check_booking (acceptable env req) confirm_row [] (bookings d)
    = Inr (updated (acceptable env req) confirm_row (bookings d))"
  using assms bk.ok_row
  by (intro bk.update_relaxing)
    (auto simp: tables_ok_def booking_row_ok_def hold_has_expiry_def booking_pair_ok_def
      bookings_conflict_def active_status_def acceptable_def)

lemma entries_update_leaving:
  assumes "tables_ok d" "st \<noteq> Waiting" "st \<noteq> Offered"
  shows "upd_rows check_entry P (\<lambda>w. w\<lparr> we_status := st \<rparr>) [] (entries d)
    = Inr (updated P (\<lambda>w. w\<lparr> we_status := st \<rparr>) (entries d))"
  using assms we.ok_row
  by (intro we.update_relaxing)
    (auto simp: tables_ok_def entry_row_ok_def entry_pair_ok_def entries_clash_def live_entry_def)

lemma offers_update_leaving:
  assumes "tables_ok d" "st \<noteq> Offer_active"
  shows "upd_rows check_offer P (\<lambda>w. w\<lparr> wo_status := st \<rparr>) [] (offers d)
    = Inr (updated P (\<lambda>w. w\<lparr> wo_status := st \<rparr>) (offers d))"
  using assms wo.ok_row
  by (intro wo.update_relaxing)
    (auto simp: tables_ok_def offer_row_ok_def offer_pair_ok_def offers_clash_def)

lemma accept_offer_cases:
  assumes "healthy env" "idle d" "db_ok d"
    and "b \<in> List.set (bookings d)" "bk_id b = wo_hold (fq_offer req)"
  shows "if acceptable env req b
    then \<exists>log. accept_offer env req d = (Inr (confirm_row b), accepted_db env req log d)
    else accept_offer env req d = (Inl OfferExpiredError, d)"
proof -
  have ok: "tables_ok d" "fk_ok d" "\<not> in_tx d"
    using assms(2,3) by (auto simp: db_ok_def idle_def)
  have uniq: "c = b" if "c \<in> List.set (bookings d)" "bk_id c = wo_hold (fq_offer req)" for c
    using booking_ids_unique[OF ok(1) that(1) assms(4)] that(2) assms(5) by simp
  have flt: "count_if (acceptable env req) (bookings d) \<noteq> 0 \<longleftrightarrow> acceptable env req b"
    using uniq assms(4) by (auto simp: list_all_iff acceptable_def)
  have f: "(\<lambda>b. b\<lparr> bk_status := Confirmed, bk_expires_at := None \<rparr>) = confirm_row"
    by (simp add: fun_eq_iff confirm_row_def)
  have found: "find (\<lambda>b. bk_id b = wo_hold (fq_offer req))
      (updated (acceptable env req) confirm_row (bookings d))
      = Some (if acceptable env req b then confirm_row b else b)"
    using find_booking[OF ok(1) assms(4)] assms(5) by (simp add: find_updated)
  define m where "m = then_svc
       (apply_write_path_session_settings env (Some (fq_user req)) Actor_user (fq_request_id req) None)
       (bind_svc (update_bookings env (acceptable env req)
            (\<lambda>b. b\<lparr> bk_status := Confirmed, bk_expires_at := None \<rparr>)) (\<lambda>n.
        if n = 0 then raise OfferExpiredError
        else then_svc (update_offers env
               (\<lambda>w. wo_id w = wo_id (fq_offer req) \<and> wo_status w = Offer_active)
               (\<lambda>w. w\<lparr> wo_status := Offer_confirmed \<rparr>))
          (then_svc (update_entries env (\<lambda>w. we_id w = wo_entry (fq_offer req))
               (\<lambda>w. w\<lparr> we_status := Fulfilled \<rparr>))
            (get_row bookings (\<lambda>b. bk_id b = wo_hold (fq_offer req))))))"
  have m: "accept_offer env req = atomic env m" by (simp add: accept_offer_def m_def)
  note body = m_def bind_svc_def then_svc_def update_bookings_def update_offers_def
    update_entries_def update_rows_def run_stmt_def log_eqs get_row_def f
    bookings_update_confirm[OF ok(1)] entries_update_leaving[OF ok(1)]
    offers_update_leaving[OF ok(1)]
  show ?thesis
  proof (cases "acceptable env req b")
    case True
    obtain log s where run: "m (begin_tx d)
        = (Inr (confirm_row b), accepted_db env req log ((begin_tx d)\<lparr> sess := s \<rparr>))"
      using True assms(1) flt found by (simp add: body accepted_db_def)
    have fk1: "fk_ok (accepted_db env req log ((begin_tx d)\<lparr> sess := s \<rparr>))"
      using fk_ok_updated3[OF ok(2), of "acceptable env req" confirm_row] unfolding accepted_db_def
      by (simp add: fk_ok_def)
    have eq: "(accepted_db env req log ((begin_tx d)\<lparr> sess := s \<rparr>))\<lparr> in_tx := False, sess := None,
        queue := queue d, hooks := [] \<rparr> = accepted_db env req log d"
      by (rule db.equality) (use assms(2) in \<open>simp_all add: accepted_db_def idle_def\<close>)
    have "atomic env m d = (Inr (confirm_row b), accepted_db env req log d)"
      using atomic_run[of d env m, OF ok(3) healthyD[OF assms(1)] run fk1] eq
      by (simp add: accepted_db_def)
    then show ?thesis using True m by auto
  next
    case False
    have "fst (m (begin_tx d)) = Inl OfferExpiredError"
      using False assms(1) flt by (simp add: body)
    then have "atomic env m d = (Inl OfferExpiredError, d)"
      using ok(3) by (cases "m (begin_tx d)") (auto intro: atomic_fail)
    then show ?thesis using False m by simp
  qed
qed

section \<open>Declining an offer\<close>

definition release_row :: "instant \<Rightarrow> booking \<Rightarrow> booking" where
  "release_row now b =
     b\<lparr> bk_status := Cancelled, bk_cancelled_at := Some now, bk_expires_at := None \<rparr>"

lemma release_row_simps [simp]:
  "bk_id (release_row n b) = bk_id b" "bk_resource (release_row n b) = bk_resource b"
  "bk_user (release_row n b) = bk_user b" "bk_series (release_row n b) = bk_series b"
  "bk_range (release_row n b) = bk_range b" "bk_status (release_row n b) = Cancelled"
  "bk_expires_at (release_row n b) = None"
  by (simp_all add: release_row_def)

lemma bookings_update_release:
  assumes "tables_ok d"
  shows "upd_rows check_booking P (release_row n) [] (bookings d)
    = Inr (updated P (release_row n) (bookings d))"
  using assms bk.ok_row
  by (intro bk.update_relaxing)
    (auto simp: tables_ok_def booking_row_ok_def hold_has_expiry_def booking_pair_ok_def
      bookings_conflict_def active_status_def)

definition declined_db :: "env \<Rightarrow> offer_request \<Rightarrow> audit_log list \<Rightarrow> db \<Rightarrow> db" where
  "declined_db env req log d =
     d\<lparr> offers := updated (\<lambda>w. wo_id w = wo_id (fq_offer req) \<and> wo_status w = Offer_active)
          (\<lambda>w. w\<lparr> wo_status := Offer_declined \<rparr>) (offers d),
        bookings := updated (\<lambda>b. bk_id b = wo_hold (fq_offer req) \<and> bk_status b = Held)
          (release_row (ev_py_now env)) (bookings d),
        entries := updated (\<lambda>w. we_id w = wo_entry (fq_offer req))
          (\<lambda>w. w\<lparr> we_status := Entry_expired \<rparr>) (entries d),
        audit := audit d @ log \<rparr>"

lemma declined_db_frame [simp]:
  "queue (declined_db env req log d) = queue d" "hooks (declined_db env req log d) = hooks d"
  "offers (declined_db env req log d)
     = updated (\<lambda>w. wo_id w = wo_id (fq_offer req) \<and> wo_status w = Offer_active)
         (\<lambda>w. w\<lparr> wo_status := Offer_declined \<rparr>) (offers d)"
  by (simp_all add: declined_db_def)

definition cascade_of :: "offer_request \<Rightarrow> task" where
  "cascade_of req = CascadeTask (wo_resource (fq_offer req)) (lo (wo_range (fq_offer req)))
     (hi (wo_range (fq_offer req))) (fq_request_id req)"

lemma offer_ids_unique:
  "tables_ok d \<Longrightarrow> a \<in> List.set (offers d) \<Longrightarrow> b \<in> List.set (offers d) \<Longrightarrow> wo_id a = wo_id b \<Longrightarrow> a = b"
  using wo.ok_pair[of "offers d" a b] by (auto simp: tables_ok_def offer_pair_ok_def)

lemma find_by_unique:
  assumes "w \<in> List.set ws" "P w" "\<And>v. v \<in> List.set ws \<Longrightarrow> P v \<Longrightarrow> v = w"
  shows "find P ws = Some w"
proof -
  obtain xs ys where ws: "ws = xs @ w # ys" "w \<notin> List.set xs"
    using assms(1) by (meson split_list_first)
  have "list_all (\<lambda>v. \<not> P v) xs" using assms(3) ws by (fastforce simp: list_all_iff)
  then show ?thesis using ws(1) assms(2) by (simp add: find_append_skip)
qed

lemma count_if_pos: "w \<in> List.set ws \<Longrightarrow> P w \<Longrightarrow> count_if P ws \<noteq> 0"
  by (auto simp: list_all_iff)

lemma count_if_zero: "(\<And>v. v \<in> List.set ws \<Longrightarrow> \<not> P v) \<Longrightarrow> count_if P ws = 0"
  by (auto simp: list_all_iff)

definition decline_tx :: "env \<Rightarrow> offer_request \<Rightarrow> unit svc" where
  "decline_tx env req = then_svc
       (apply_write_path_session_settings env (session_actor (fq_actor_type req) (fq_user req))
          (fq_actor_type req) (fq_request_id req) None)
       (bind_svc (update_offers env (\<lambda>w. wo_id w = wo_id (fq_offer req) \<and> wo_status w = Offer_active)
            (\<lambda>w. w\<lparr> wo_status := Offer_declined \<rparr>)) (\<lambda>n.
        if n = 0 then raise OfferAlreadyResolvedError
        else then_svc (update_bookings env
               (\<lambda>b. bk_id b = wo_hold (fq_offer req) \<and> bk_status b = Held)
               (\<lambda>b. b\<lparr> bk_status := Cancelled, bk_cancelled_at := Some (ev_py_now env),
                      bk_expires_at := None \<rparr>))
          (then_svc (update_entries env (\<lambda>w. we_id w = wo_entry (fq_offer req))
               (\<lambda>w. w\<lparr> we_status := Entry_expired \<rparr>))
            (on_commit env (CascadeTask (wo_resource (fq_offer req)) (lo (wo_range (fq_offer req)))
               (hi (wo_range (fq_offer req))) (fq_request_id req))))))"

lemma decline_offer_tx:
  "decline_offer env req = then_svc (atomic env (decline_tx env req))
     (get_row offers (\<lambda>w. wo_id w = wo_id (fq_offer req)))"
  by (simp add: decline_offer_def decline_tx_def)

text \<open>The body of a decline in an open transaction.\<close>

lemma decline_tx_cases:
  assumes "healthy env" "tables_ok d" "in_tx d" "w \<in> List.set (offers d)" "wo_id w = wo_id (fq_offer req)"
  shows "if wo_status w = Offer_active
    then \<exists>log s. decline_tx env req d = (Inr (),
        (declined_db env req log (d\<lparr> sess := s \<rparr>))\<lparr> hooks := hooks d @ [cascade_of req] \<rparr>)
    else fst (decline_tx env req d) = Inl OfferAlreadyResolvedError"
proof -
  have uniq: "v = w" if "v \<in> List.set (offers d)" "wo_id v = wo_id (fq_offer req)" for v
    using offer_ids_unique[OF assms(2) that(1) assms(4)] that(2) assms(5) by simp
  let ?P = "\<lambda>w. wo_id w = wo_id (fq_offer req) \<and> wo_status w = Offer_active"
  have cnt: "count_if ?P (offers d) \<noteq> 0 \<longleftrightarrow> wo_status w = Offer_active"
  proof (cases "wo_status w = Offer_active")
    case True
    then show ?thesis using count_if_pos[OF assms(4), of ?P] assms(5) by blast
  next
    case False
    then have "\<not> ?P v" if "v \<in> List.set (offers d)" for v using uniq[OF that] by auto
    then have "count_if ?P (offers d) = 0" by (rule count_if_zero)
    then show ?thesis using False by simp
  qed
  have f: "(\<lambda>b. b\<lparr> bk_status := Cancelled, bk_cancelled_at := Some (ev_py_now env),
      bk_expires_at := None \<rparr>) = release_row (ev_py_now env)"
    by (simp add: fun_eq_iff release_row_def)
  note body = decline_tx_def bind_svc_def then_svc_def update_bookings_def update_offers_def
    update_entries_def update_rows_def run_stmt_def log_eqs on_commit_def f
    bookings_update_release[OF assms(2)] entries_update_leaving[OF assms(2)]
    offers_update_leaving[OF assms(2)]
  show ?thesis
  proof (cases "wo_status w = Offer_active")
    case True
    obtain log s where "decline_tx env req d = (Inr (),
        (declined_db env req log (d\<lparr> sess := s \<rparr>))\<lparr> hooks := hooks d @ [cascade_of req] \<rparr>)"
      using True assms(1,3) cnt by (simp add: body declined_db_def cascade_of_def)
    then show ?thesis using True by auto
  next
    case False
    then have "fst (decline_tx env req d) = Inl OfferAlreadyResolvedError"
      using assms(1) cnt by (simp add: body)
    then show ?thesis using False by simp
  qed
qed

lemma find_offer:
  assumes "tables_ok d" "w \<in> List.set (offers d)" "wo_id w = i"
  shows "find (\<lambda>v. wo_id v = i) (offers d) = Some w"
  using offer_ids_unique[OF assms(1) _ assms(2)] assms(3) by (intro find_by_unique[OF assms(2)]) auto

lemma decline_offer_cases:
  assumes "healthy env" "idle d" "db_ok d"
    and "w \<in> List.set (offers d)" "wo_id w = wo_id (fq_offer req)"
  shows "if wo_status w = Offer_active
    then \<exists>log. decline_offer env req d = (Inr (w\<lparr> wo_status := Offer_declined \<rparr>),
       (declined_db env req log d)\<lparr> queue := queue d @
          (if ev_broker_up env then [cascade_of req] else []) \<rparr>)
    else decline_offer env req d = (Inl OfferAlreadyResolvedError, d)"
proof -
  have ok: "tables_ok d" "fk_ok d" "\<not> in_tx d"
    using assms(2,3) by (auto simp: db_ok_def idle_def)
  let ?P = "\<lambda>w. wo_id w = wo_id (fq_offer req) \<and> wo_status w = Offer_active"
  let ?m = "decline_tx env req"
  have found: "find (\<lambda>w. wo_id w = wo_id (fq_offer req)) (offers d) = Some w"
    using find_offer[OF ok(1) assms(4)] assms(5) by simp
  have body: "if wo_status w = Offer_active
    then \<exists>log s. ?m (begin_tx d) = (Inr (),
        (declined_db env req log ((begin_tx d)\<lparr> sess := s \<rparr>))\<lparr> hooks := [cascade_of req] \<rparr>)
    else fst (?m (begin_tx d)) = Inl OfferAlreadyResolvedError"
    using decline_tx_cases[OF assms(1), of "begin_tx d" w req] assms(4,5) ok(1)
    by (cases "wo_status w = Offer_active") auto
  show ?thesis
  proof (cases "wo_status w = Offer_active")
    case True
    then obtain log s where run: "?m (begin_tx d) = (Inr (),
        (declined_db env req log ((begin_tx d)\<lparr> sess := s \<rparr>))\<lparr> hooks := [cascade_of req] \<rparr>)"
      using body by auto
    have fk1: "fk_ok ((declined_db env req log ((begin_tx d)\<lparr> sess := s \<rparr>))\<lparr> hooks := [cascade_of req] \<rparr>)"
      using fk_ok_updated3[OF ok(2), of "\<lambda>b. bk_id b = wo_hold (fq_offer req) \<and> bk_status b = Held"
          "release_row (ev_py_now env)"] unfolding declined_db_def
      by (simp add: fk_ok_def)
    have "((declined_db env req log ((begin_tx d)\<lparr> sess := s \<rparr>))\<lparr> hooks := [cascade_of req] \<rparr>)
        \<lparr> in_tx := False, sess := None,
          queue := queue d @ (if ev_broker_up env then [cascade_of req] else []), hooks := [] \<rparr>
        = (declined_db env req log d)\<lparr> queue := queue d @
          (if ev_broker_up env then [cascade_of req] else []) \<rparr>"
      by (rule db.equality) (use assms(2) in \<open>simp_all add: declined_db_def idle_def\<close>)
    then have "atomic env ?m d = (Inr (), (declined_db env req log d)\<lparr> queue := queue d @
          (if ev_broker_up env then [cascade_of req] else []) \<rparr>)"
      using atomic_run[of d env ?m, OF ok(3) healthyD[OF assms(1)] run fk1]
      by (cases "ev_broker_up env") simp_all
    moreover have "find (\<lambda>w. wo_id w = wo_id (fq_offer req))
        (updated ?P (\<lambda>w. w\<lparr> wo_status := Offer_declined \<rparr>) (offers d))
        = Some (w\<lparr> wo_status := Offer_declined \<rparr>)"
      using found True assms(5) by (simp add: find_updated)
    ultimately show ?thesis
      using True by (auto simp: decline_offer_tx then_svc_def bind_svc_def get_row_def)
  next
    case False
    then have "fst (?m (begin_tx d)) = Inl OfferAlreadyResolvedError" using body by simp
    then have "atomic env ?m d = (Inl OfferAlreadyResolvedError, d)"
      using ok(3) by (cases "?m (begin_tx d)") (auto intro: atomic_fail)
    then show ?thesis using False by (simp add: decline_offer_tx)
  qed
qed

section \<open>Reaping one hold\<close>

lemma reaped_row_release: "reaped_row now = release_row now"
  by (simp add: fun_eq_iff reaped_row_def release_row_def)

definition active_offer_on :: "uuid \<Rightarrow> db \<Rightarrow> waitlist_offer option" where
  "active_offer_on hid d = find (\<lambda>w. wo_hold w = hid \<and> wo_status w = Offer_active) (offers d)"

definition reaped_db :: "instant \<Rightarrow> uuid \<Rightarrow> audit_log list \<Rightarrow> db \<Rightarrow> db" where
  "reaped_db now hid log d =
     (case active_offer_on hid d of
        None \<Rightarrow> d\<lparr> bookings := updated (\<lambda>b. bk_id b = hid \<and> expired_hold now b) (release_row now) (bookings d),
                   audit := audit d @ log \<rparr>
      | Some w \<Rightarrow>
          d\<lparr> bookings := updated (\<lambda>b. bk_id b = hid \<and> expired_hold now b) (release_row now) (bookings d),
             offers := updated (\<lambda>r. wo_id r = wo_id w) (\<lambda>r. r\<lparr> wo_status := Offer_expired \<rparr>) (offers d),
             entries := updated (\<lambda>r. we_id r = wo_entry w) (\<lambda>r. r\<lparr> we_status := Entry_expired \<rparr>) (entries d),
             audit := audit d @ log \<rparr>)"

lemma reaped_db_frame [simp]:
  "queue (reaped_db now hid log d) = queue d" "hooks (reaped_db now hid log d) = hooks d"
  "in_tx (reaped_db now hid log d) = in_tx d" "sess (reaped_db now hid log d) = sess d"
  "resources (reaped_db now hid log d) = resources d" "users (reaped_db now hid log d) = users d"
  "bookings (reaped_db now hid log d)
     = updated (\<lambda>b. bk_id b = hid \<and> expired_hold now b) (release_row now) (bookings d)"
  "idle (reaped_db now hid log d) = idle d" "checks (reaped_db now hid log d) = checks d"
  by (simp_all add: reaped_db_def idle_def split: option.splits)

lemma reap_hold_cases:
  assumes "healthy env" "idle d" "db_ok d"
    and "b \<in> List.set (bookings d)" "bk_id b = hid"
  shows "if expired_hold now b
    then \<exists>log. reap_hold env now rid hid d = (Inr (Some (active_offer_on hid d)), reaped_db now hid log d)
    else reap_hold env now rid hid d = (Inr None, d)"
proof -
  have ok: "tables_ok d" "fk_ok d" "\<not> in_tx d"
    using assms(2,3) by (auto simp: db_ok_def idle_def)
  let ?P = "\<lambda>b. bk_id b = hid \<and> expired_hold now b"
  have uniq: "c = b" if "c \<in> List.set (bookings d)" "bk_id c = hid" for c
    using booking_ids_unique[OF ok(1) that(1) assms(4)] that(2) assms(5) by simp
  define m where "m = then_svc (apply_write_path_session_settings env None Actor_system rid None)
       (bind_svc (update_bookings env ?P (reaped_row now)) (\<lambda>n.
        if n = 0 then ret None
        else bind_svc (query (\<lambda>d. find (\<lambda>w. wo_hold w = hid \<and> wo_status w = Offer_active) (offers d)))
          (\<lambda>v. case v of
              None \<Rightarrow> ret (Some None)
            | Some w \<Rightarrow>
                then_svc (update_offers env (\<lambda>r. wo_id r = wo_id w)
                            (\<lambda>r. r\<lparr> wo_status := Offer_expired \<rparr>))
                (then_svc (update_entries env (\<lambda>r. we_id r = wo_entry w)
                            (\<lambda>r. r\<lparr> we_status := Entry_expired \<rparr>))
                  (ret (Some (Some w)))))))"
  have m: "reap_hold env now rid hid = atomic env m" by (simp add: reap_hold_def m_def)
  note body = m_def bind_svc_def then_svc_def update_bookings_def update_offers_def
    update_entries_def update_rows_def run_stmt_def log_eqs reaped_row_release
    bookings_update_release[OF ok(1)] entries_update_leaving[OF ok(1)]
    offers_update_leaving[OF ok(1)]
  show ?thesis
  proof (cases "expired_hold now b")
    case True
    have cnt: "count_if ?P (bookings d) \<noteq> 0"
      by (rule count_if_pos[OF assms(4)]) (use True assms(5) in simp)
    obtain log s where run: "m (begin_tx d) = (Inr (Some (active_offer_on hid d)),
        reaped_db now hid log ((begin_tx d)\<lparr> sess := s \<rparr>))"
      using assms(1) cnt
      by (cases "active_offer_on hid d") (simp_all add: body reaped_db_def active_offer_on_def)
    have fk1: "fk_ok (reaped_db now hid log ((begin_tx d)\<lparr> sess := s \<rparr>))"
    proof (cases "active_offer_on hid d")
      case None
      then show ?thesis
        using fk_ok_bookings_updated[OF ok(2), of ?P "release_row now"]
        by (simp add: reaped_db_def active_offer_on_def fk_ok_def)
    next
      case (Some w)
      then show ?thesis
        using fk_ok_updated3[OF ok(2), of ?P "release_row now"]
        by (simp add: reaped_db_def active_offer_on_def fk_ok_def)
    qed
    have "(reaped_db now hid log ((begin_tx d)\<lparr> sess := s \<rparr>))\<lparr> in_tx := False, sess := None,
        queue := queue d, hooks := [] \<rparr> = reaped_db now hid log d"
      by (cases "active_offer_on hid d"; rule db.equality)
        (use assms(2) in \<open>simp_all add: reaped_db_def active_offer_on_def idle_def\<close>)
    then have "atomic env m d = (Inr (Some (active_offer_on hid d)), reaped_db now hid log d)"
      using atomic_run[of d env m, OF ok(3) healthyD[OF assms(1)] run fk1] by simp
    then show ?thesis using True m by auto
  next
    case False
    have "\<not> ?P c" if "c \<in> List.set (bookings d)" for c using uniq[OF that] False by auto
    then have cnt: "count_if ?P (bookings d) = 0" "updated ?P (release_row now) (bookings d) = bookings d"
      "filter ?P (bookings d) = []"
      by (rule count_if_zero, auto intro!: updated_none simp: list_all_iff filter_empty_conv)
    have same: "(begin_tx d)\<lparr> sess := s, bookings := bookings d, audit := audit d \<rparr>
        = (begin_tx d)\<lparr> sess := s \<rparr>" for s
      by (rule db.equality) simp_all
    obtain s where run: "m (begin_tx d) = (Inr None, (begin_tx d)\<lparr> sess := s \<rparr>)"
      using assms(1) cnt by (simp add: body same)
    have "((begin_tx d)\<lparr> sess := s \<rparr>)\<lparr> in_tx := False, sess := None, queue := queue d, hooks := [] \<rparr> = d"
      by (rule db.equality) (use assms(2) in \<open>simp_all add: idle_def\<close>)
    then have "atomic env m d = (Inr None, d)"
      using atomic_run[of d env m, OF ok(3) healthyD[OF assms(1)] run] ok by simp
    then show ?thesis using False m by simp
  qed
qed

section \<open>First come, first served\<close>

lemma mset_insert_by [simp]: "mset (insert_by le x xs) = add_mset x (mset xs)"
  by (induction xs) auto

lemma mset_order_by [simp]: "mset (order_by le xs) = mset xs"
  by (induction xs) (auto simp: order_by_def)

lemma entries_ordered: "sorted_wrt entry_before (find_eligible_entries res s e d)"
  unfolding find_eligible_entries_def
  by (rule sorted_order_by) (auto simp: entry_before_def)

lemma eligible_entries_iff:
  "w \<in> List.set (find_eligible_entries res s e d) \<longleftrightarrow> w \<in> List.set (entries d) \<and> eligible res s e w"
  by (simp add: find_eligible_entries_def)

section \<open>Statements outside a transaction\<close>

lemma autocommit_insert_offer:
  assumes "healthy env" "idle d" "check_offer w (offers d) = None"
    and "fk_ok (d\<lparr> offers := offers d @ [w] \<rparr>)"
  shows "autocommit env (insert_offer env w) d =
    (Inr w, d\<lparr> offers := offers d @ [w],
       audit := audit d @ [audit_row env None Audit_insert (EOffer w) None (Some (EOffer w))] \<rparr>)"
proof -
  let ?d1 = "(begin_tx d)\<lparr> offers := offers d @ [w],
      audit := audit d @ [audit_row env None Audit_insert (EOffer w) None (Some (EOffer w))] \<rparr>"
  have "insert_offer env w (begin_tx d) = (Inr w, ?d1)"
    using assms(1,3) by (simp add: insert_offer_def wot.insert_ok log_eqs)
  moreover have "fk_ok ?d1" using assms(4) by (simp add: fk_ok_def)
  moreover have "?d1\<lparr> in_tx := False, sess := None, queue := queue d, hooks := [] \<rparr>
      = d\<lparr> offers := offers d @ [w],
       audit := audit d @ [audit_row env None Audit_insert (EOffer w) None (Some (EOffer w))] \<rparr>"
    by (rule db.equality) (use assms(2) in \<open>simp_all add: idle_def\<close>)
  ultimately show ?thesis
    using atomic_run[of d env "insert_offer env w" w ?d1] assms(1,2)
    by (simp add: autocommit_def idle_def)
qed

text \<open>Marking an entry as offered is accepted when no other live entry claims the same slot for the
  same user, in particular when the entry is live itself.\<close>

definition may_be_offered :: "waitlist_entry \<Rightarrow> db \<Rightarrow> bool" where
  "may_be_offered w d = list_all (\<lambda>r. we_id r = we_id w \<or>
     \<not> (live_entry r \<and> we_user r = we_user w \<and> we_resource r = we_resource w \<and>
        we_range r = we_range w)) (entries d)"

lemma live_may_be_offered:
  "tables_ok d \<Longrightarrow> w \<in> List.set (entries d) \<Longrightarrow> live_entry w \<Longrightarrow> may_be_offered w d"
  using we.ok_pair[of "entries d" w]
  by (fastforce simp: may_be_offered_def list_all_iff tables_ok_def entry_pair_ok_def entries_clash_def)

lemma autocommit_mark_offered:
  assumes "healthy env" "idle d" "db_ok d" "w \<in> List.set (entries d)" "may_be_offered w d"
  shows "autocommit env (update_entries env (\<lambda>r. we_id r = we_id w) (\<lambda>r. r\<lparr> we_status := Offered \<rparr>)) d =
    (Inr 1, d\<lparr> entries := updated (\<lambda>r. we_id r = we_id w) (\<lambda>r. r\<lparr> we_status := Offered \<rparr>) (entries d),
       audit := audit d @ [audit_row env None Audit_update (EEntry (w\<lparr> we_status := Offered \<rparr>))
         (Some (EEntry w)) (Some (EEntry (w\<lparr> we_status := Offered \<rparr>)))] \<rparr>)"
proof -
  have ok: "tables_ok d" "fk_ok d" "\<not> in_tx d"
    using assms(2,3) by (auto simp: db_ok_def idle_def)
  let ?P = "\<lambda>r. we_id r = we_id w" and ?f = "\<lambda>r :: waitlist_entry. r\<lparr> we_status := Offered \<rparr>"
  have uniq: "r = w" if "r \<in> List.set (entries d)" "we_id r = we_id w" for r
    using we.ok_pair[of "entries d" r w] that assms(4) ok by (auto simp: tables_ok_def entry_pair_ok_def)
  obtain xs ys where split: "entries d = xs @ w # ys" "w \<notin> List.set xs"
    using assms(4) by (meson split_list_first)
  have "distinct (map we_id (entries d))"
    using ok(1) unfolding tables_ok_def table_ok_def distinct_conv_nth sorted_wrt_iff_nth_less
    by (auto simp: entry_pair_ok_def nth_map) (metis linorder_neqE_nat)
  then have "we_id w \<notin> we_id ` List.set xs" "we_id w \<notin> we_id ` List.set ys"
    using split by auto
  then have "filter ?P xs = []" "filter ?P ys = []"
    by (auto simp: filter_empty_conv image_iff)
  then have flt: "filter ?P (entries d) = [w]" using split by simp
  have none: "list_all (\<lambda>r. \<not> ?P r) xs" "list_all (\<lambda>r. \<not> ?P r) ys"
    using \<open>filter ?P xs = []\<close> \<open>filter ?P ys = []\<close> by (auto simp: filter_empty_conv list_all_iff)
  have "check_entry (?f w) (xs @ ys) = None"
    using assms(5) none we.ok_row[of "entries d" w] ok(1) split(1)
    by (auto simp: check_entry_def list_ex_iff list_all_iff may_be_offered_def entries_clash_def
        tables_ok_def entry_row_ok_def)
  then have upd: "upd_rows check_entry ?P ?f [] (entries d) = Inr (updated ?P ?f (entries d))"
    using upd_rows_one[OF none(1) _ none(2), of w check_entry ?f] split(1)
    by (simp add: updated_none[OF none(1)] updated_none[OF none(2)])
  let ?d1 = "(begin_tx d)\<lparr> entries := updated ?P ?f (entries d),
      audit := audit d @ [audit_row env None Audit_update (EEntry (?f w)) (Some (EEntry w)) (Some (EEntry (?f w)))] \<rparr>"
  have run: "update_entries env ?P ?f (begin_tx d) = (Inr 1, ?d1)"
    using assms(1) upd flt by (simp add: update_entries_def update_rows_def run_stmt_def log_eqs count_if_def)
  have fk1: "fk_ok ?d1"
    using ok(2) by (simp add: fk_ok_def list_all_updated image_updated)
  have "?d1\<lparr> in_tx := False, sess := None, queue := queue d, hooks := [] \<rparr>
      = d\<lparr> entries := updated ?P ?f (entries d), audit := audit d @
        [audit_row env None Audit_update (EEntry (?f w)) (Some (EEntry w)) (Some (EEntry (?f w)))] \<rparr>"
    by (rule db.equality) (use assms(2) in \<open>simp_all add: idle_def\<close>)
  then show ?thesis
    using atomic_run[of d env "update_entries env ?P ?f", OF ok(3) healthyD[OF assms(1)] run fk1]
    by (simp add: autocommit_def)
qed

lemma heartbeat_eq:
  assumes "healthy env" "idle d" "fk_ok d"
  shows "record_offer_cascade_heartbeat env b n d = (Inr (), d\<lparr> checks := checks d @
     [\<lparr> cr_check = Offer_cascade, cr_run_at = ev_db_now env, cr_status = Check_pass,
        cr_findings = JObj [(''offer_created'', JBool b), (''candidates_tried'', JNum (int n))] \<rparr>] \<rparr>)"
proof -
  let ?r = "\<lparr> cr_check = Offer_cascade, cr_run_at = ev_db_now env, cr_status = Check_pass,
        cr_findings = JObj [(''offer_created'', JBool b), (''candidates_tried'', JNum (int n))] \<rparr>"
  have run: "insert_check env ?r (begin_tx d) = (Inr (), (begin_tx d)\<lparr> checks := checks d @ [?r] \<rparr>)"
    using assms(1) by (simp add: insert_check_def run_stmt_def)
  have "((begin_tx d)\<lparr> checks := checks d @ [?r] \<rparr>)\<lparr> in_tx := False, sess := None, queue := queue d,
      hooks := [] \<rparr> = d\<lparr> checks := checks d @ [?r] \<rparr>"
    by (rule db.equality) (use assms(2) in \<open>simp_all add: idle_def\<close>)
  then show ?thesis
    using atomic_run[of d env "insert_check env ?r", OF _ _ run] assms
    by (simp add: record_offer_cascade_heartbeat_def autocommit_def idle_def)
qed

section \<open>The cascade\<close>

definition cascade_heartbeat :: "env \<Rightarrow> bool \<Rightarrow> nat \<Rightarrow> check_run" where
  "cascade_heartbeat env b n = \<lparr> cr_check = Offer_cascade, cr_run_at = ev_db_now env,
     cr_status = Check_pass,
     cr_findings = JObj [(''offer_created'', JBool b), (''candidates_tried'', JNum (int n))] \<rparr>"

definition offer_audit :: "env \<Rightarrow> uuid \<Rightarrow> waitlist_entry \<Rightarrow> booking \<Rightarrow> audit_log list" where
  "offer_audit env res w hold =
     [audit_row env None Audit_insert (EOffer (new_offer env res w hold)) None
        (Some (EOffer (new_offer env res w hold))),
      audit_row env None Audit_update (EEntry (w\<lparr> we_status := Offered \<rparr>)) (Some (EEntry w))
        (Some (EEntry (w\<lparr> we_status := Offered \<rparr>)))]"

definition offered_db ::
  "env \<Rightarrow> uuid \<Rightarrow> string \<Rightarrow> waitlist_entry \<Rightarrow> nat \<Rightarrow> booking \<Rightarrow> instant \<Rightarrow> db \<Rightarrow> db" where
  "offered_db env res rid w n hold x d =
     d\<lparr> offers := offers d @ [new_offer env res w hold],
        entries := updated (\<lambda>r. we_id r = we_id w) (\<lambda>r. r\<lparr> we_status := Offered \<rparr>) (entries d),
        audit := audit d @ offer_audit env res w hold,
        queue := queue d @ (if ev_broker_up env
          then [notify_offer_created (we_user w) (resource_name res d) (lo (we_range w))
                  (hi (we_range w)) x rid] else []),
        checks := checks d @ [cascade_heartbeat env True n] \<rparr>"

definition offerable :: "env \<Rightarrow> uuid \<Rightarrow> waitlist_entry \<Rightarrow> uuid \<Rightarrow> db \<Rightarrow> bool" where
  "offerable env res w hid d =
     (list_all (\<lambda>o'. wo_id o' \<noteq> ev_uuid2 env \<and> wo_hold o' \<noteq> hid \<and>
         \<not> (wo_status o' = Offer_active \<and> wo_entry o' = we_id w)) (offers d) \<and>
      res \<in> List.set (map rs_id (resources d)))"

lemma new_offer_simps [simp]:
  "wo_id (new_offer env res w hold) = ev_uuid2 env" "wo_entry (new_offer env res w hold) = we_id w"
  "wo_hold (new_offer env res w hold) = bk_id hold" "wo_status (new_offer env res w hold) = Offer_active"
  "wo_resource (new_offer env res w hold) = res" "wo_range (new_offer env res w hold) = we_range w"
  "bk_expires_at hold = Some x \<Longrightarrow> wo_expires_at (new_offer env res w hold) = x"
  by (simp_all add: new_offer_def)

lemma idle_frames [simp]:
  "idle (d\<lparr> offers := os \<rparr>) = idle d" "idle (d\<lparr> audit := a \<rparr>) = idle d"
  "idle (d\<lparr> entries := es \<rparr>) = idle d" "idle (d\<lparr> queue := q \<rparr>) = idle d"
  "idle (d\<lparr> checks := c \<rparr>) = idle d" "idle (d\<lparr> bookings := b \<rparr>) = idle d"
  by (simp_all add: idle_def)

lemma issue_offer_eq:
  assumes "healthy env" "idle d" "db_ok d" "hold \<in> List.set (bookings d)"
    and "bk_expires_at hold = Some x" "w \<in> List.set (entries d)" "may_be_offered w d"
    and "offerable env res w (bk_id hold) d"
  shows "issue_offer env res rid w n hold d
     = (Inr (Some (new_offer env res w hold)), offered_db env res rid w n hold x d)"
proof -
  let ?o = "new_offer env res w hold"
  let ?a1 = "[audit_row env None Audit_insert (EOffer ?o) None (Some (EOffer ?o))]"
  let ?d1 = "d\<lparr> offers := offers d @ [?o], audit := audit d @ ?a1 \<rparr>"
  have ok: "tables_ok d" "fk_ok d" using assms(2,3) by (auto simp: db_ok_def idle_def)
  have row: "\<not> range_isempty (we_range w)"
    using ok(1) assms(6) we.ok_row[of "entries d" w] by (auto simp: tables_ok_def entry_row_ok_def)
  have chk: "check_offer ?o (offers d) = None"
    using assms(8) row by (fastforce simp: check_offer_def offers_clash_def offerable_def list_all_iff list_ex_iff)
  have fk: "fk_ok (d\<lparr> offers := offers d @ [?o] \<rparr>)"
    using ok(2) assms(4,6,8) by (auto simp: fk_ok_def offerable_def)
  have s1: "autocommit env (insert_offer env ?o) d = (Inr ?o, ?d1)"
    by (rule autocommit_insert_offer[OF assms(1,2) chk fk])
  have ok1: "db_ok ?d1" "idle ?d1"
    using keepsE[OF safeD2[OF safe_autocommit[OF keeps_stmts(6)]] assms(3) s1] assms(2) by simp_all
  have may: "may_be_offered w ?d1" using assms(7) by (simp add: may_be_offered_def)
  note s2 = autocommit_mark_offered[OF assms(1) ok1(2,1) _ may, simplified, OF assms(6)]
  have ok2: "db_ok (snd (autocommit env (update_entries env (\<lambda>r. we_id r = we_id w)
      (\<lambda>r. r\<lparr> we_status := Offered \<rparr>)) ?d1))"
    by (rule keepsD[OF safeD2[OF safe_autocommit[OF keeps_stmts(5)]] ok1(1)])
  have fk2: "fk_ok (d\<lparr> offers := offers d @ [?o],
      entries := updated (\<lambda>r. we_id r = we_id w) (\<lambda>r. r\<lparr> we_status := Offered \<rparr>) (entries d),
      audit := audit d @ offer_audit env res w hold, queue := q \<rparr>)" for q
    using ok2 s2 assms(2) by (simp add: db_ok_def idle_def fk_ok_def offer_audit_def)
  show ?thesis
    using s1 s2 assms(1,2,5) fk2
    by (simp add: issue_offer_def bind_svc_def then_svc_def send_now_def dispatch_eq heartbeat_eq
        resource_name_def offered_db_def cascade_heartbeat_def offer_audit_def)
qed

lemma try_candidates_skip:
  assumes "\<And>i. i < length pre \<Longrightarrow>
      create_booking (envs (k + i)) (hold_request res rid (pre ! i)) d = (Inl SlotUnavailableError, d)"
  shows "try_candidates envs res rid k (pre @ ws) d = try_candidates envs res rid (k + length pre) ws d"
  using assms
proof (induction pre arbitrary: k)
  case (Cons w pre)
  have "create_booking (envs (Suc k + i)) (hold_request res rid (pre ! i)) d = (Inl SlotUnavailableError, d)"
    if "i < length pre" for i
    using Cons.prems[of "Suc i"] that by simp
  then have "try_candidates envs res rid (Suc k) (pre @ ws) d
      = try_candidates envs res rid (Suc k + length pre) ws d"
    by (rule Cons.IH)
  then show ?case using Cons.prems[of 0] by simp
qed simp

lemma hold_request_simps [simp]:
  "cq_resource (hold_request res rid w) = res" "cq_user (hold_request res rid w) = we_user w"
  "cq_start (hold_request res rid w) = lo (we_range w)" "cq_end (hold_request res rid w) = hi (we_range w)"
  "cq_status (hold_request res rid w) = Held" "cq_series (hold_request res rid w) = None"
  "cq_actor_type (hold_request res rid w) = Actor_system" "cq_request_id (hold_request res rid w) = rid"
  by (simp_all add: hold_request_def)

lemma entry_facts:
  assumes "db_ok d" "idle d" "w \<in> List.set (entries d)"
  shows "lo (we_range w) < hi (we_range w)" "we_user w \<in> List.set (map au_id (users d))"
proof -
  have ok: "tables_ok d" "fk_ok d" using assms(1,2) by (auto simp: db_ok_def idle_def)
  show "lo (we_range w) < hi (we_range w)"
    using ok(1) assms(3) we.ok_row[of "entries d" w]
    by (auto simp: tables_ok_def entry_row_ok_def isempty_proper proper_def)
  show "we_user w \<in> List.set (map au_id (users d))"
    using ok(2) assms(3) by (auto simp: fk_ok_def list_all_iff)
qed

text \<open>The database after the cascade granted \<open>w\<close> a hold and an offer, on turn \<open>n\<close>.\<close>

definition cascaded_db ::
  "env \<Rightarrow> uuid \<Rightarrow> string \<Rightarrow> waitlist_entry \<Rightarrow> nat \<Rightarrow> db \<Rightarrow> db" where
  "cascaded_db env res rid w n d =
     offered_db env res rid w n (created env (hold_request res rid w))
       (ev_py_now env + OFFER_WINDOW_MINUTES * minute) (after_create env (hold_request res rid w) d)"

definition cascade_turn_ok :: "env \<Rightarrow> uuid \<Rightarrow> string \<Rightarrow> waitlist_entry \<Rightarrow> db \<Rightarrow> bool" where
  "cascade_turn_ok env res rid w d =
     (\<not> blocked env (hold_request res rid w) d \<and> \<not> offer_on_reclaimed env (hold_request res rid w) d \<and>
      list_all (\<lambda>o'. wo_id o' \<noteq> ev_uuid2 env \<and>
         \<not> (wo_status o' = Offer_active \<and> wo_entry o' = we_id w)) (offers d))"

lemma cascade_eq:
  assumes "\<And>i. healthy (envs i)" "\<And>i. fresh_booking_id (envs i) d" "idle d" "db_ok d"
    and "res \<in> List.set (map rs_id (resources d))"
    and "find_eligible_entries res s e d = pre @ w # post"
    and "\<And>i. i < length pre \<Longrightarrow> blocked (envs i) (hold_request res rid (pre ! i)) d"
    and "cascade_turn_ok (envs (length pre)) res rid w d"
  shows "create_offer_for_freed_range envs res s e rid d =
    (Inr (Some (new_offer (envs (length pre)) res w (created (envs (length pre)) (hold_request res rid w)))),
     cascaded_db (envs (length pre)) res rid w (Suc (length pre)) d)"
proof -
  have ok: "tables_ok d" "fk_ok d" using assms(3,4) by (auto simp: db_ok_def idle_def)
  have cand: "v \<in> List.set (entries d) \<and> eligible res s e v" if "v \<in> List.set (pre @ w # post)" for v
    using that assms(6) eligible_entries_iff[of v res s e d] by simp
  have refs: "references_exist (hold_request res rid v) d" if "v \<in> List.set (entries d)" for v
    using entry_facts[OF assms(4,3) that] assms(5) by (simp add: references_exist_def)
  have skip: "create_booking (envs (0 + i)) (hold_request res rid (pre ! i)) d = (Inl SlotUnavailableError, d)"
    if "i < length pre" for i
  proof -
    have v: "pre ! i \<in> List.set (entries d)" using cand that by simp
    show ?thesis
      using create_booking_cases[OF assms(1)[of i] assms(3,4) _ assms(2)[of i] refs[OF v]]
        entry_facts[OF assms(4,3) v] assms(7)[OF that] by simp
  qed
  let ?env = "envs (length pre)" and ?req = "hold_request res rid w"
  have w: "w \<in> List.set (entries d)" "eligible res s e w" using cand by auto
  have c: "create_booking ?env ?req d = (Inr (created ?env ?req), after_create ?env ?req d)"
    using create_booking_cases[OF assms(1) assms(3,4) _ assms(2) refs[OF w(1)]]
      entry_facts[OF assms(4,3) w(1)] assms(8) by (simp add: cascade_turn_ok_def)
  let ?d1 = "after_create ?env ?req d"
  have ok1: "db_ok ?d1" by (rule db_ok_create[OF assms(4) c])
  have off: "offerable ?env res w (bk_id (created ?env ?req)) ?d1"
    using assms(2)[of "length pre"] assms(5,8) ok(2)
    by (auto simp: offerable_def after_create_def cascade_turn_ok_def list_all_iff fk_ok_def
        fresh_booking_id_def)
  have "issue_offer ?env res rid w (Suc (length pre)) (created ?env ?req) ?d1 =
      (Inr (Some (new_offer ?env res w (created ?env ?req))),
       offered_db ?env res rid w (Suc (length pre)) (created ?env ?req)
         (ev_py_now ?env + OFFER_WINDOW_MINUTES * minute) ?d1)"
    by (rule issue_offer_eq[OF assms(1) _ ok1 _ _ _ _ off])
      (use assms(3) w live_may_be_offered[of ?d1 w] ok1 in
        \<open>simp_all add: after_create_def live_entry_def eligible_def db_ok_def\<close>)
  then show ?thesis
    using try_candidates_skip[of pre envs 0 res rid d "w # post", OF skip] c assms(6)
    by (simp add: create_offer_for_freed_range_def cascaded_db_def)
qed

text \<open>With no candidate left the run still writes its heartbeat, and nothing else.\<close>

lemma cascade_none_eq:
  assumes "healthy (envs 0)" "idle d" "db_ok d" "find_eligible_entries res s e d = []"
  shows "create_offer_for_freed_range envs res s e rid d
     = (Inr None, d\<lparr> checks := checks d @ [cascade_heartbeat (envs 0) False 0] \<rparr>)"
  using assms heartbeat_eq[of "envs 0" d False 0]
  by (simp add: create_offer_for_freed_range_def db_ok_def idle_def cascade_heartbeat_def)

section \<open>Joining and leaving\<close>

definition fresh_entry_id :: "env \<Rightarrow> db \<Rightarrow> bool" where
  "fresh_entry_id env d = list_all (\<lambda>e. we_id e \<noteq> ev_uuid env) (entries d)"

definition joined :: "env \<Rightarrow> join_request \<Rightarrow> waitlist_entry" where
  "joined env req = new_entry env req (TR (jq_start req) (jq_end req))"

definition already_waiting :: "join_request \<Rightarrow> db \<Rightarrow> bool" where
  "already_waiting req d = list_ex (\<lambda>e. live_entry e \<and> we_user e = jq_user req \<and>
     we_resource e = jq_resource req \<and> we_range e = TR (jq_start req) (jq_end req)) (entries d)"

definition join_audit :: "env \<Rightarrow> join_request \<Rightarrow> audit_log" where
  "join_audit env req = audit_row env (Some \<lparr> ss_actor_id = Some (jq_user req),
     ss_actor_type = Actor_user, ss_reason = None, ss_request_id = nullif_empty (jq_request_id req) \<rparr>)
     Audit_insert (EEntry (joined env req)) None (Some (EEntry (joined env req)))"

lemma joined_simps [simp]:
  "we_id (joined env req) = ev_uuid env" "we_user (joined env req) = jq_user req"
  "we_resource (joined env req) = jq_resource req" "we_status (joined env req) = Waiting"
  "we_range (joined env req) = TR (jq_start req) (jq_end req)" "we_joined_at (joined env req) = ev_db_now env"
  by (simp_all add: joined_def new_entry_def)

lemma join_waitlist_cases:
  assumes "healthy env" "idle d" "db_ok d" "jq_start req < jq_end req" "fresh_entry_id env d"
    and "jq_resource req \<in> List.set (map rs_id (resources d))" "jq_user req \<in> List.set (map au_id (users d))"
  shows "join_waitlist env req d =
    (if already_waiting req d then (Inl AlreadyOnWaitlistError, d)
     else (Inr (joined env req), d\<lparr> entries := entries d @ [joined env req],
             audit := audit d @ [join_audit env req] \<rparr>))"
proof -
  have ok: "tables_ok d" "fk_ok d" "\<not> in_tx d"
    using assms(2,3) by (auto simp: db_ok_def idle_def)
  define m where "m = then_svc
       (apply_write_path_session_settings env (Some (jq_user req)) Actor_user (jq_request_id req) None)
       (bind_svc (sql_range (jq_start req) (jq_end req)) (\<lambda>r.
          insert_entry env (new_entry env req r)))"
  have m: "join_waitlist env req = catch_svc (atomic env m) (\<lambda>e. raise (join_error e))"
    by (simp add: join_waitlist_def m_def)
  have chk: "check_entry (joined env req) (entries d) = (if already_waiting req d then Some ''23505'' else None)"
    using assms(4,5) by (fastforce simp: check_entry_def already_waiting_def entries_clash_def
        live_entry_def isempty_proper proper_def list_ex_iff fresh_entry_id_def list_all_iff)
  have le: "jq_start req \<le> jq_end req" using assms(4) by simp
  note body = m_def bind_svc_def then_svc_def sql_range_def insert_entry_def log_eqs
  show ?thesis
  proof (cases "already_waiting req d")
    case True
    have "fst (m (begin_tx d)) = Inl (DatabaseError (Some ''23505''))"
      using True assms(1) chk le by (simp add: body wet.insert_refused joined_def)
    then have "atomic env m d = (Inl (DatabaseError (Some ''23505'')), d)"
      using ok(3) by (cases "m (begin_tx d)") (auto intro: atomic_fail)
    then show ?thesis using True m by (simp add: catch_svc_def)
  next
    case False
    obtain s where run: "m (begin_tx d) = (Inr (joined env req), (begin_tx d)
        \<lparr> sess := s, entries := entries d @ [joined env req], audit := audit d @ [join_audit env req] \<rparr>)"
      using False assms(1) chk le by (simp add: body wet.insert_ok joined_def join_audit_def)
    have fk1: "fk_ok ((begin_tx d)
        \<lparr> sess := s, entries := entries d @ [joined env req], audit := audit d @ [join_audit env req] \<rparr>)"
      using ok(2) assms(6,7) by (auto simp: fk_ok_def list_all_iff)
    have "((begin_tx d)\<lparr> sess := s, entries := entries d @ [joined env req],
          audit := audit d @ [join_audit env req] \<rparr>)\<lparr> in_tx := False, sess := None, queue := queue d, hooks := [] \<rparr>
        = d\<lparr> entries := entries d @ [joined env req], audit := audit d @ [join_audit env req] \<rparr>"
      by (rule db.equality) (use assms(2) in \<open>simp_all add: idle_def\<close>)
    then have "atomic env m d = (Inr (joined env req),
        d\<lparr> entries := entries d @ [joined env req], audit := audit d @ [join_audit env req] \<rparr>)"
      using atomic_run[of d env m, OF ok(3) healthyD[OF assms(1)] run fk1] by simp
    then show ?thesis using False m by simp
  qed
qed

lemma entry_ids_unique:
  "tables_ok d \<Longrightarrow> a \<in> List.set (entries d) \<Longrightarrow> b \<in> List.set (entries d) \<Longrightarrow> we_id a = we_id b \<Longrightarrow> a = b"
  using we.ok_pair[of "entries d" a b] by (auto simp: tables_ok_def entry_pair_ok_def)

definition withdrawn_db :: "env \<Rightarrow> entry_cancel_request \<Rightarrow> audit_log list \<Rightarrow> db \<Rightarrow> db" where
  "withdrawn_db env req log d =
     d\<lparr> entries := updated (\<lambda>w. we_id w = wq_entry req \<and> we_status w = Waiting)
          (\<lambda>w. w\<lparr> we_status := Entry_cancelled \<rparr>) (entries d), audit := audit d @ log \<rparr>"

lemma cancel_waitlist_entry_cases:
  assumes "healthy env" "idle d" "db_ok d" "w \<in> List.set (entries d)" "we_id w = wq_entry req"
  shows "if we_status w = Waiting
    then \<exists>log. cancel_waitlist_entry env req d
           = (Inr (w\<lparr> we_status := Entry_cancelled \<rparr>, False), withdrawn_db env req log d)
    else cancel_waitlist_entry env req d = (Inr (w, True), d)"
proof -
  have ok: "tables_ok d" "fk_ok d" "\<not> in_tx d"
    using assms(2,3) by (auto simp: db_ok_def idle_def)
  have uniq: "v = w" if "v \<in> List.set (entries d)" "we_id v = wq_entry req" for v
    using entry_ids_unique[OF ok(1) that(1) assms(4)] that(2) assms(5) by simp
  let ?P = "\<lambda>w. we_id w = wq_entry req \<and> we_status w = Waiting"
  let ?f = "\<lambda>w :: waitlist_entry. w\<lparr> we_status := Entry_cancelled \<rparr>"
  have found: "find (\<lambda>w. we_id w = wq_entry req) (entries d) = Some w"
    by (rule find_by_unique[OF assms(4)]) (use assms(5) uniq in auto)
  define m where "m = then_svc
       (apply_write_path_session_settings env (session_actor (wq_actor_type req) (wq_actor req))
          (wq_actor_type req) (wq_request_id req) None)
       (bind_svc (update_entries env ?P ?f) (\<lambda>n.
        bind_svc (get_row entries (\<lambda>w. we_id w = wq_entry req)) (\<lambda>w. ret (w, n = 0))))"
  have m: "cancel_waitlist_entry env req = atomic env m" by (simp add: cancel_waitlist_entry_def m_def)
  note body = m_def bind_svc_def then_svc_def update_entries_def update_rows_def run_stmt_def log_eqs
    entries_update_leaving[OF ok(1)] get_row_def
  show ?thesis
  proof (cases "we_status w = Waiting")
    case True
    have cnt: "count_if ?P (entries d) \<noteq> 0"
      by (rule count_if_pos[OF assms(4)]) (use True assms(5) in simp)
    obtain log s where run: "m (begin_tx d) = (Inr (?f w, False), withdrawn_db env req log ((begin_tx d)\<lparr> sess := s \<rparr>))"
      using assms(1,5) cnt found True by (simp add: body withdrawn_db_def find_updated)
    have fk1: "fk_ok (withdrawn_db env req log ((begin_tx d)\<lparr> sess := s \<rparr>))"
      using ok(2) by (simp add: withdrawn_db_def fk_ok_def list_all_updated image_updated)
    have "(withdrawn_db env req log ((begin_tx d)\<lparr> sess := s \<rparr>))\<lparr> in_tx := False, sess := None,
        queue := queue d, hooks := [] \<rparr> = withdrawn_db env req log d"
      by (rule db.equality) (use assms(2) in \<open>simp_all add: withdrawn_db_def idle_def\<close>)
    then have "atomic env m d = (Inr (?f w, False), withdrawn_db env req log d)"
      using atomic_run[of d env m, OF ok(3) healthyD[OF assms(1)] run fk1]
      by (simp add: withdrawn_db_def)
    then show ?thesis using True m by auto
  next
    case False
    have "\<not> ?P c" if "c \<in> List.set (entries d)" for c using uniq[OF that] False by auto
    then have cnt: "count_if ?P (entries d) = 0" "updated ?P ?f (entries d) = entries d"
      "filter ?P (entries d) = []"
      by (rule count_if_zero, auto intro!: updated_none simp: list_all_iff filter_empty_conv)
    have same: "(begin_tx d)\<lparr> sess := s, entries := entries d, audit := audit d \<rparr> = (begin_tx d)\<lparr> sess := s \<rparr>" for s
      by (rule db.equality) simp_all
    obtain s where run: "m (begin_tx d) = (Inr (w, True), (begin_tx d)\<lparr> sess := s \<rparr>)"
      using assms(1) cnt found by (simp add: body same)
    have "((begin_tx d)\<lparr> sess := s \<rparr>)\<lparr> in_tx := False, sess := None, queue := queue d, hooks := [] \<rparr> = d"
      by (rule db.equality) (use assms(2) in \<open>simp_all add: idle_def\<close>)
    then have "atomic env m d = (Inr (w, True), d)"
      using atomic_run[of d env m, OF ok(3) healthyD[OF assms(1)] run] ok by simp
    then show ?thesis using False m by simp
  qed
qed

section \<open>Properties\<close>

text \<open>C23: eligibility is containment, not overlap, and the order is first come, first served: the
  candidates are exactly the waiting entries of the resource whose whole range lies in the freed
  one, each once, by \<open>joined_at\<close> and then \<open>id\<close>.\<close>

theorem eligible_entries_fcfs:
  "mset (find_eligible_entries res s e d) =
     mset (filter (\<lambda>w. we_resource w = res \<and> we_status w = Waiting \<and>
       (instants (we_range w) \<subseteq> instants (TR s e))) (entries d)) \<and>
   sorted_wrt (\<lambda>a b. (we_joined_at a, we_id a) = (we_joined_at b, we_id b) \<or>
       we_joined_at a < we_joined_at b \<or> we_joined_at a = we_joined_at b \<and> we_id a < we_id b)
     (find_eligible_entries res s e d)"
proof
  have "contained_by r (TR s e) \<longleftrightarrow> instants r \<subseteq> instants (TR s e)" for r
  proof (cases "proper r")
    case True
    then show ?thesis by (rule contained_by_instants)
  next
    case False
    then show ?thesis
      by (auto simp: contained_by_def isempty_proper instants_def proper_def)
  qed
  then show "mset (find_eligible_entries res s e d) =
     mset (filter (\<lambda>w. we_resource w = res \<and> we_status w = Waiting \<and>
       (instants (we_range w) \<subseteq> instants (TR s e))) (entries d))"
    by (simp add: find_eligible_entries_def eligible_def)
  show "sorted_wrt (\<lambda>a b. (we_joined_at a, we_id a) = (we_joined_at b, we_id b) \<or>
       we_joined_at a < we_joined_at b \<or> we_joined_at a = we_joined_at b \<and> we_id a < we_id b)
     (find_eligible_entries res s e d)"
    by (rule sorted_wrt_mono_rel[OF _ entries_ordered]) (auto simp: entry_before_def)
qed

text \<open>C14: the cascade serves the first candidate of the queue whose range is free: candidates
  before it whose range is taken are passed over, it receives a hold that reserves its own range
  and an offer with the hold's expiry, its entry becomes \<open>offered\<close>, it is notified, and no other
  entry or offer changes.\<close>

theorem cascade_offers_first_bookable_candidate:
  assumes "\<And>i. healthy (envs i)" "\<And>i. fresh_booking_id (envs i) d" "idle d" "db_ok d"
    and "res \<in> List.set (map rs_id (resources d))"
    and "find_eligible_entries res s e d = pre @ w # post"
    and "\<And>i. i < length pre \<Longrightarrow> blocked (envs i) (hold_request res rid (pre ! i)) d"
    and "cascade_turn_ok (envs (length pre)) res rid w d"
  shows "\<exists>offer hold d'. create_offer_for_freed_range envs res s e rid d = (Inr (Some offer), d') \<and>
    hold \<in> List.set (bookings d') \<and> bk_status hold = Held \<and> bk_user hold = we_user w \<and>
    bk_resource hold = res \<and> bk_range hold = we_range w \<and>
    bk_expires_at hold = Some (ev_py_now (envs (length pre)) + 15 * minute) \<and>
    wo_status offer = Offer_active \<and> wo_entry offer = we_id w \<and> wo_hold offer = bk_id hold \<and>
    wo_range offer = we_range w \<and> bk_expires_at hold = Some (wo_expires_at offer) \<and>
    offers d' = offers d @ [offer] \<and>
    entries d' = map (\<lambda>r. if r = w then w\<lparr> we_status := Offered \<rparr> else r) (entries d) \<and>
    queue d' = queue d @ (if ev_broker_up (envs (length pre))
      then [notify_offer_created (we_user w) (resource_name res d) (lo (we_range w)) (hi (we_range w))
              (wo_expires_at offer) rid] else [])"
proof -
  have ok: "tables_ok d" using assms(3,4) by (simp add: db_ok_def)
  have w: "w \<in> List.set (entries d)"
    using assms(6) eligible_entries_iff[of w res s e d] by simp
  have uniq: "we_id r = we_id w \<longleftrightarrow> r = w" if "r \<in> List.set (entries d)" for r
    using entry_ids_unique[OF ok that w] by blast
  have rows: "updated (\<lambda>r. we_id r = we_id w) (\<lambda>r. r\<lparr> we_status := Offered \<rparr>) (entries d)
      = map (\<lambda>r. if r = w then w\<lparr> we_status := Offered \<rparr> else r) (entries d)"
    using uniq by (auto simp: updated_def)
  let ?env = "envs (length pre)"
  let ?h = "created ?env (hold_request res rid w)"
  have eq: "create_offer_for_freed_range envs res s e rid d =
    (Inr (Some (new_offer ?env res w ?h)), cascaded_db ?env res rid w (Suc (length pre)) d)"
    by (rule cascade_eq[OF assms(1-6)]) (use assms(7,8) in auto)
  show ?thesis
    unfolding eq
    by (intro exI[of _ "new_offer ?env res w ?h"] exI[of _ ?h]
          exI[of _ "cascaded_db ?env res rid w (Suc (length pre)) d"])
      (simp add: cascaded_db_def offered_db_def after_create_def rows OFFER_WINDOW_MINUTES_def
        resource_name_def)
qed

definition demo_queue :: db where
  "demo_queue = demo_db [demo_booking 5 3 (TR 100 150) Confirmed None]
     [demo_entry 21 2 (TR 100 200) Waiting 7, demo_entry 20 1 (TR 150 200) Waiting 9] []"

definition demo_envs :: "instant \<Rightarrow> nat \<Rightarrow> env" where
  "demo_envs t i = demo_env t (50 + i)"

theorem cascade_offers_first_bookable_candidate_witness:
  "\<exists>offer hold d'. create_offer_for_freed_range (demo_envs 0) 10 100 200 ''r'' demo_queue
      = (Inr (Some offer), d') \<and> hold \<in> List.set (bookings d') \<and> bk_user hold = 1 \<and>
    bk_range hold = TR 150 200 \<and> wo_entry offer = 20"
proof -
  have "find_eligible_entries 10 100 200 demo_queue
      = [demo_entry 21 2 (TR 100 200) Waiting 7] @ demo_entry 20 1 (TR 150 200) Waiting 9 # []"
    by code_simp
  moreover have "db_ok demo_queue" by code_simp
  moreover have "healthy (demo_envs 0 i)" for i by (simp add: demo_envs_def)
  moreover have "fresh_booking_id (demo_envs 0 i) demo_queue" for i
    by (simp add: demo_queue_def demo_envs_def demo_simps fresh_booking_id_def)
  ultimately show ?thesis
    using cascade_offers_first_bookable_candidate[of "demo_envs 0" demo_queue 10 100 200
        "[demo_entry 21 2 (TR 100 200) Waiting 7]" "demo_entry 20 1 (TR 150 200) Waiting 9" "[]" "''r''"]
    by (simp add: demo_queue_def demo_envs_def demo_simps blocked_def reclaimable_def
        cascade_turn_ok_def offer_on_reclaimed_def) blast
qed

text \<open>An entry that its user withdraws after the worker has read the queue and before it
  reaches that entry is offered all the same: the worker's update of the status carries no guard,
  and the withdrawn entry comes back as \<open>offered\<close> with a hold and an active offer.\<close>

theorem withdrawn_entry_is_offered_all_the_same:
  assumes "healthy env" "idle d" "db_ok d" "res \<in> List.set (map rs_id (resources d))"
    and "w \<in> List.set (entries d)" "eligible res s e w"
    and "healthy env'" "we_id w = wq_entry req"
    and "cancel_waitlist_entry env' req d = (r, d1)"
    and "fresh_booking_id env d1" "cascade_turn_ok env res rid w d1"
  shows "\<exists>offer d2. r = Inr (w\<lparr> we_status := Entry_cancelled \<rparr>, False) \<and>
    try_candidates (\<lambda>_. env) res rid 0 [w] d1 = (Inr (Some offer), d2) \<and>
    wo_entry offer = we_id w \<and> wo_status offer = Offer_active \<and>
    w\<lparr> we_status := Offered \<rparr> \<in> List.set (entries d2)"
proof -
  have ok: "tables_ok d" using assms(2,3) by (simp add: db_ok_def)
  have waiting: "we_status w = Waiting" using assms(6) by (simp add: eligible_def)
  obtain log where r: "r = Inr (w\<lparr> we_status := Entry_cancelled \<rparr>, False)" "d1 = withdrawn_db env' req log d"
    using cancel_waitlist_entry_cases[OF assms(7,2,3,5,8)] waiting assms(9) by auto
  let ?w = "w\<lparr> we_status := Entry_cancelled \<rparr>" and ?req = "hold_request res rid w"
  have w1: "?w \<in> List.set (entries d1)"
    using assms(5,8) waiting by (auto simp: r(2) withdrawn_db_def set_updated image_iff)
  have idle1: "idle d1" using assms(2) by (simp add: r(2) withdrawn_db_def)
  have ok1: "db_ok d1" by (rule keepsE[OF safeD2[OF safe_cancel_entry] assms(3,9)])
  have refs: "references_exist ?req d1"
    using entry_facts(2)[OF assms(3,2,5)] assms(4) by (simp add: references_exist_def r(2) withdrawn_db_def)
  have c: "create_booking env ?req d1 = (Inr (created env ?req), after_create env ?req d1)"
    using create_booking_cases[OF assms(1) idle1 ok1 _ assms(10) refs] entry_facts(1)[OF assms(3,2,5)]
      assms(11) by (simp add: cascade_turn_ok_def)
  let ?d2 = "after_create env ?req d1"
  have ok2: "db_ok ?d2" by (rule db_ok_create[OF ok1 c])
  have off: "offerable env res ?w (bk_id (created env ?req)) ?d2"
    using assms(4,10,11) ok1 idle1
    by (auto simp: offerable_def after_create_def cascade_turn_ok_def list_all_iff fk_ok_def db_ok_def
        fresh_booking_id_def idle_def r(2) withdrawn_db_def)
  have may: "may_be_offered ?w ?d2"
    using we.ok_pair[of "entries d" w] ok assms(5) waiting
    by (fastforce simp: may_be_offered_def list_all_iff after_create_def r(2) withdrawn_db_def set_updated
        live_entry_def tables_ok_def entry_pair_ok_def entries_clash_def)
  have same: "new_offer env res ?w h = new_offer env res w h"
    "issue_offer env res rid ?w 1 h = issue_offer env res rid w 1 h" for h
    by (simp_all add: new_offer_def issue_offer_def)
  have "issue_offer env res rid ?w 1 (created env ?req) ?d2 =
      (Inr (Some (new_offer env res ?w (created env ?req))),
       offered_db env res rid ?w 1 (created env ?req) (ev_py_now env + OFFER_WINDOW_MINUTES * minute) ?d2)"
    by (rule issue_offer_eq[OF assms(1) _ ok2 _ _ _ may off])
      (use idle1 w1 in \<open>simp_all add: after_create_def\<close>)
  then have "try_candidates (\<lambda>_. env) res rid 0 [w] d1 = (Inr (Some (new_offer env res w (created env ?req))),
       offered_db env res rid ?w 1 (created env ?req) (ev_py_now env + OFFER_WINDOW_MINUTES * minute) ?d2)"
    using c same by simp
  moreover have "w\<lparr> we_status := Offered \<rparr> \<in> List.set (entries (offered_db env res rid ?w 1 (created env ?req) x ?d2))" for x
    using w1 by (auto simp: offered_db_def after_create_def set_updated image_iff intro!: bexI[of _ ?w])
  ultimately show ?thesis using r(1) by auto
qed

definition demo_withdraw :: entry_cancel_request where
  "demo_withdraw = \<lparr> wq_entry = 20, wq_actor = 1, wq_request_id = ''r'', wq_actor_type = Actor_user \<rparr>"

theorem withdrawn_entry_is_offered_all_the_same_witness:
  "\<exists>offer d2. try_candidates (\<lambda>_. demo_env 0 50) 10 ''r'' 0 [demo_entry 20 1 (TR 150 200) Waiting 9]
     (snd (cancel_waitlist_entry (demo_env 0 7) demo_withdraw
        (demo_db [] [demo_entry 20 1 (TR 150 200) Waiting 9] []))) = (Inr (Some offer), d2) \<and>
   demo_entry 20 1 (TR 150 200) Offered 9 \<in> List.set (entries d2)"
proof -
  let ?d = "demo_db [] [demo_entry 20 1 (TR 150 200) Waiting 9] []"
  let ?w = "demo_entry 20 1 (TR 150 200) Waiting 9"
  have db: "db_ok ?d" by code_simp
  have w: "?w \<in> List.set (entries ?d)" "we_id ?w = wq_entry demo_withdraw" "we_status ?w = Waiting" "idle ?d"
    by (simp_all add: demo_simps demo_withdraw_def)
  obtain log where c: "cancel_waitlist_entry (demo_env 0 7) demo_withdraw ?d
      = (Inr (?w\<lparr> we_status := Entry_cancelled \<rparr>, False), withdrawn_db (demo_env 0 7) demo_withdraw log ?d)"
    using cancel_waitlist_entry_cases[OF healthy_demo w(4) db w(1,2)] w(3) by auto
  let ?d1 = "withdrawn_db (demo_env 0 7) demo_withdraw log ?d"
  have p: "10 \<in> List.set (map rs_id (resources ?d))" "eligible 10 100 200 ?w"
    "fresh_booking_id (demo_env 0 50) ?d1" "cascade_turn_ok (demo_env 0 50) 10 ''r'' ?w ?d1"
    "?w\<lparr> we_status := Offered \<rparr> = demo_entry 20 1 (TR 150 200) Offered 9"
    by (simp_all add: withdrawn_db_def demo_simps eligible_def contained_by_def fresh_booking_id_def
        cascade_turn_ok_def blocked_def offer_on_reclaimed_def)
  show ?thesis
    unfolding c snd_conv
    using withdrawn_entry_is_offered_all_the_same[OF healthy_demo w(4) db p(1) w(1) p(2)
        healthy_demo w(2) c p(3,4)] p(5) by auto
qed

text \<open>A user has at most one live entry for one slot: a join is told \<open>already_on_waitlist\<close>
  exactly when that user already waits for, or holds an offer of, the same range of the same
  resource; otherwise one waiting entry is added whose queue position is the time of the
  database, whatever the request says.\<close>

theorem join_waitlist_once_per_slot:
  assumes "healthy env" "idle d" "db_ok d" "jq_start req < jq_end req" "fresh_entry_id env d"
    and "jq_resource req \<in> List.set (map rs_id (resources d))"
    and "jq_user req \<in> List.set (map au_id (users d))"
  shows "if \<exists>e \<in> List.set (entries d). we_status e \<in> {Waiting, Offered} \<and> we_user e = jq_user req \<and>
            we_resource e = jq_resource req \<and> we_range e = TR (jq_start req) (jq_end req)
    then join_waitlist env req d = (Inl AlreadyOnWaitlistError, d)
    else \<exists>e d'. join_waitlist env req d = (Inr e, d') \<and> entries d' = entries d @ [e] \<and>
      we_status e = Waiting \<and> we_user e = jq_user req \<and> we_resource e = jq_resource req \<and>
      we_range e = TR (jq_start req) (jq_end req) \<and> we_joined_at e = ev_db_now env"
proof -
  have "already_waiting req d \<longleftrightarrow> (\<exists>e \<in> List.set (entries d). we_status e \<in> {Waiting, Offered} \<and>
      we_user e = jq_user req \<and> we_resource e = jq_resource req \<and>
      we_range e = TR (jq_start req) (jq_end req))"
    by (auto simp: already_waiting_def list_ex_iff live_entry_def)
  then show ?thesis using join_waitlist_cases[OF assms] by (auto split: if_splits)
qed

definition demo_join :: join_request where
  "demo_join = \<lparr> jq_resource = 10, jq_user = 1, jq_start = 150, jq_end = 200, jq_request_id = ''r'' \<rparr>"

theorem join_waitlist_once_per_slot_witness:
  "join_waitlist (demo_env 3 7) demo_join (demo_db [] [demo_entry 20 1 (TR 150 200) Waiting 9] [])
     = (Inl AlreadyOnWaitlistError, demo_db [] [demo_entry 20 1 (TR 150 200) Waiting 9] [])"
  using join_waitlist_once_per_slot[of "demo_env 3 7"
      "demo_db [] [demo_entry 20 1 (TR 150 200) Waiting 9] []" demo_join]
  by (simp add: demo_simps demo_join_def fresh_entry_id_def healthy_def)

end
