(* ===== verification/Waitlist_Race.thy ===== *)
theory Waitlist_Race
  imports Waitlist_Properties
begin

text \<open>
  Offers from their end: acceptance, decline and the reaper, each against the others in every
  order, and what a whole run of the reaper leaves behind.
\<close>

section \<open>Acceptance\<close>

lemma accept_never_slot_unavailable:
  "raises (\<lambda>e. e \<noteq> SlotUnavailableError) (accept_offer env req)"
  unfolding accept_offer_def by (intro raises_intros) simp_all

text \<open>C17: acceptance is one guarded update: it succeeds exactly for the beneficiary of a hold that
  has not expired, and then the very row of the hold becomes the confirmed booking, its offer is
  confirmed and its entry fulfilled; in every other case it is \<open>offer_expired\<close> and nothing changes.
  Whatever the database answers, acceptance never reports \<open>slot_unavailable\<close>.\<close>

theorem accept_offer_outcome:
  assumes "healthy env" "idle d" "db_ok d"
    and "b \<in> List.set (bookings d)" "bk_id b = wo_hold (fq_offer req)"
  shows "(if bk_status b = Held \<and> bk_user b = fq_user req \<and>
        (\<exists>x. bk_expires_at b = Some x \<and> ev_py_now env < x)
      then \<exists>d'. accept_offer env req d = (Inr (b\<lparr> bk_status := Confirmed, bk_expires_at := None \<rparr>), d') \<and>
        bookings d' = map (\<lambda>r. if r = b then b\<lparr> bk_status := Confirmed, bk_expires_at := None \<rparr> else r)
          (bookings d) \<and>
        offers d' = map (\<lambda>w. if wo_id w = wo_id (fq_offer req) \<and> wo_status w = Offer_active
          then w\<lparr> wo_status := Offer_confirmed \<rparr> else w) (offers d) \<and>
        entries d' = map (\<lambda>e. if we_id e = wo_entry (fq_offer req)
          then e\<lparr> we_status := Fulfilled \<rparr> else e) (entries d) \<and> queue d' = queue d
      else accept_offer env req d = (Inl OfferExpiredError, d)) \<and>
    (\<forall>env' d'. fst (accept_offer env' req d') \<noteq> Inl SlotUnavailableError)"
proof
  have acc: "acceptable env req b \<longleftrightarrow> bk_status b = Held \<and> bk_user b = fq_user req \<and>
      (\<exists>x. bk_expires_at b = Some x \<and> ev_py_now env < x)"
    using assms(5) by (auto simp: acceptable_def split: option.splits)
  have ok: "tables_ok d" using assms(2,3) by (simp add: db_ok_def)
  have map: "updated (acceptable env req) confirm_row (bookings d)
      = map (\<lambda>r. if r = b then b\<lparr> bk_status := Confirmed, bk_expires_at := None \<rparr> else r) (bookings d)"
    if "acceptable env req b"
    unfolding updated_def
  proof (rule map_cong[OF refl])
    fix r assume r: "r \<in> List.set (bookings d)"
    have "acceptable env req r \<longleftrightarrow> r = b"
      using that booking_ids_unique[OF ok r assms(4)] assms(5) by (auto simp: acceptable_def)
    then show "(if acceptable env req r then confirm_row r else r)
        = (if r = b then b\<lparr> bk_status := Confirmed, bk_expires_at := None \<rparr> else r)"
      by (simp add: confirm_row_def)
  qed
  show "if bk_status b = Held \<and> bk_user b = fq_user req \<and>
        (\<exists>x. bk_expires_at b = Some x \<and> ev_py_now env < x)
      then \<exists>d'. accept_offer env req d = (Inr (b\<lparr> bk_status := Confirmed, bk_expires_at := None \<rparr>), d') \<and>
        bookings d' = map (\<lambda>r. if r = b then b\<lparr> bk_status := Confirmed, bk_expires_at := None \<rparr> else r)
          (bookings d) \<and>
        offers d' = map (\<lambda>w. if wo_id w = wo_id (fq_offer req) \<and> wo_status w = Offer_active
          then w\<lparr> wo_status := Offer_confirmed \<rparr> else w) (offers d) \<and>
        entries d' = map (\<lambda>e. if we_id e = wo_entry (fq_offer req)
          then e\<lparr> we_status := Fulfilled \<rparr> else e) (entries d) \<and> queue d' = queue d
      else accept_offer env req d = (Inl OfferExpiredError, d)"
  proof (cases "acceptable env req b")
    case True
    then obtain log where run: "accept_offer env req d = (Inr (confirm_row b), accepted_db env req log d)"
      using accept_offer_cases[OF assms] by auto
    have "bookings (accepted_db env req log d) = map (\<lambda>r. if r = b then b\<lparr> bk_status := Confirmed, bk_expires_at := None \<rparr> else r) (bookings d)"
      using map[OF True] by (simp add: accepted_db_def)
    then show ?thesis
      using run True unfolding acc[symmetric]
      by (simp add: confirm_row_def accepted_db_def updated_def)
  next
    case False
    then show ?thesis using accept_offer_cases[OF assms] unfolding acc[symmetric] by simp
  qed
  show "\<forall>env' d'. fst (accept_offer env' req d') \<noteq> Inl SlotUnavailableError"
    using raisesD[OF accept_never_slot_unavailable] by (metis prod.collapse)
qed

definition demo_accept :: offer_request where
  "demo_accept = \<lparr> fq_offer = demo_offer 30 20 5 (TR 100 150) Offer_active 900, fq_user = 1,
     fq_request_id = ''r'', fq_actor_type = Actor_user \<rparr>"

definition demo_pledged :: db where
  "demo_pledged = demo_db [demo_booking 5 1 (TR 100 150) Held (Some 900)]
     [demo_entry 20 1 (TR 100 150) Offered 9] [demo_offer 30 20 5 (TR 100 150) Offer_active 900]"

lemma demo_pledged_ok:
  "db_ok demo_pledged" "idle demo_pledged"
  "demo_booking 5 1 (TR 100 150) Held (Some 900) \<in> List.set (bookings demo_pledged)"
  by (code_simp | simp add: demo_pledged_def demo_simps)+

theorem accept_offer_outcome_witness:
  "(\<exists>d'. accept_offer (demo_env 899 7) demo_accept demo_pledged
      = (Inr (demo_booking 5 1 (TR 100 150) Confirmed None), d')) \<and>
   accept_offer (demo_env 900 7) demo_accept demo_pledged = (Inl OfferExpiredError, demo_pledged)"
  using accept_offer_outcome[OF healthy_demo demo_pledged_ok(2,1,3), of demo_accept 899 7]
    accept_offer_outcome[OF healthy_demo demo_pledged_ok(2,1,3), of demo_accept 900 7]
  by (auto simp: demo_accept_def demo_simps)

text \<open>C15: acceptance and the reaper never both win, in either order: after an acceptance the reaper
  finds nothing to reap at any time, and after the reaper took the hold the acceptance is
  \<open>offer_expired\<close>; at one common time exactly one of the two can act on a hold of the beneficiary.\<close>

theorem accept_and_reap_exclude_each_other:
  assumes "healthy env" "healthy env'" "idle d" "db_ok d"
    and "b \<in> List.set (bookings d)" "bk_id b = wo_hold (fq_offer req)"
  shows "(\<forall>c d1. accept_offer env req d = (Inr c, d1) \<longrightarrow>
      reap_hold env' now rid (bk_id b) d1 = (Inr None, d1) \<and> bk_status c = Confirmed) \<and>
    (\<forall>v d1. reap_hold env' now rid (bk_id b) d = (Inr (Some v), d1) \<longrightarrow>
      accept_offer env req d1 = (Inl OfferExpiredError, d1)) \<and>
    (bk_status b = Held \<and> bk_user b = fq_user req \<and> now = ev_py_now env \<longrightarrow>
      (fst (accept_offer env req d) = Inr (confirm_row b)) \<noteq>
      (\<exists>v. fst (reap_hold env' now rid (bk_id b) d) = Inr (Some v)))"
proof (intro conjI)
  have ok: "tables_ok d" using assms(3,4) by (simp add: db_ok_def)
  note acc = accept_offer_cases[OF assms(1,3-6)]
  note reap = reap_hold_cases[OF assms(2-5) refl, of now rid]
  show "\<forall>c d1. accept_offer env req d = (Inr c, d1) \<longrightarrow>
      reap_hold env' now rid (bk_id b) d1 = (Inr None, d1) \<and> bk_status c = Confirmed"
  proof (intro allI impI)
    fix c d1 assume run: "accept_offer env req d = (Inr c, d1)"
    then obtain log where d1: "acceptable env req b" "c = confirm_row b" "d1 = accepted_db env req log d"
      using acc by (auto split: if_splits)
    have "idle d1" "db_ok d1"
      using keepsE[OF safeD2[OF safe_accept] assms(4) run] assms(3) d1(3)
      by (simp_all add: accepted_db_def idle_def)
    moreover have "confirm_row b \<in> List.set (bookings d1)"
      using d1 assms(5) by (auto simp: accepted_db_def set_updated image_iff)
    ultimately show "reap_hold env' now rid (bk_id b) d1 = (Inr None, d1) \<and> bk_status c = Confirmed"
      using reap_hold_cases[OF assms(2), of d1 "confirm_row b" "bk_id b" now rid] d1(2)
      by (simp add: expired_hold_def)
  qed
  show "\<forall>v d1. reap_hold env' now rid (bk_id b) d = (Inr (Some v), d1) \<longrightarrow>
      accept_offer env req d1 = (Inl OfferExpiredError, d1)"
  proof (intro allI impI)
    fix v d1 assume run: "reap_hold env' now rid (bk_id b) d = (Inr (Some v), d1)"
    then obtain log where d1: "expired_hold now b" "d1 = reaped_db now (bk_id b) log d"
      using reap by (auto split: if_splits)
    have "idle d1" "db_ok d1"
      using keepsE[OF safeD2[OF safe_reap_hold] assms(4) run] assms(3) d1(2) by simp_all
    moreover have "release_row now b \<in> List.set (bookings d1)"
      using d1 assms(5) by (auto simp: set_updated image_iff)
    ultimately show "accept_offer env req d1 = (Inl OfferExpiredError, d1)"
      using accept_offer_cases[OF assms(1), of d1 "release_row now b" req] assms(6)
      by (simp add: acceptable_def)
  qed
  show "bk_status b = Held \<and> bk_user b = fq_user req \<and> now = ev_py_now env \<longrightarrow>
      (fst (accept_offer env req d) = Inr (confirm_row b)) \<noteq>
      (\<exists>v. fst (reap_hold env' now rid (bk_id b) d) = Inr (Some v))"
  proof
    assume h: "bk_status b = Held \<and> bk_user b = fq_user req \<and> now = ev_py_now env"
    then obtain x where x: "bk_expires_at b = Some x"
      using bk.ok_row[of "bookings d" b] ok assms(5)
      by (auto simp: tables_ok_def booking_row_ok_def hold_has_expiry_def)
    then have "acceptable env req b \<longleftrightarrow> \<not> expired_hold now b"
      using h assms(6) by (auto simp: acceptable_def expired_hold_def expired_at_def)
    then show "(fst (accept_offer env req d) = Inr (confirm_row b)) \<noteq>
      (\<exists>v. fst (reap_hold env' now rid (bk_id b) d) = Inr (Some v))"
      using acc reap by (auto split: if_splits)
  qed
qed

theorem accept_and_reap_exclude_each_other_witness:
  "(\<exists>d1. accept_offer (demo_env 899 7) demo_accept demo_pledged
       = (Inr (demo_booking 5 1 (TR 100 150) Confirmed None), d1) \<and>
     reap_hold (demo_env 950 8) 950 ''j'' 5 d1 = (Inr None, d1)) \<and>
   (\<exists>v. fst (reap_hold (demo_env 950 8) 900 ''j'' 5 demo_pledged) = Inr (Some v))"
proof -
  have i: "bk_id (demo_booking 5 1 (TR 100 150) Held (Some 900)) = 5"
    "5 = wo_hold (fq_offer demo_accept)" "fq_user demo_accept = 1"
    "bk_status (demo_booking 5 1 (TR 100 150) Held (Some 900)) = Held"
    "bk_user (demo_booking 5 1 (TR 100 150) Held (Some 900)) = 1"
    by (simp_all add: demo_simps demo_accept_def)
  have acc: "acceptable (demo_env 899 7) demo_accept (demo_booking 5 1 (TR 100 150) Held (Some 900))"
    "\<not> acceptable (demo_env 900 7) demo_accept (demo_booking 5 1 (TR 100 150) Held (Some 900))"
    "confirm_row (demo_booking 5 1 (TR 100 150) Held (Some 900)) = demo_booking 5 1 (TR 100 150) Confirmed None"
    "ev_py_now (demo_env 900 7) = 900"
    by (simp_all add: acceptable_def demo_simps demo_accept_def confirm_row_def)
  note excl = accept_and_reap_exclude_each_other[OF healthy_demo healthy_demo demo_pledged_ok(2,1,3),
      of demo_accept, unfolded i(1), OF i(2)]
  have run: "\<exists>d1. accept_offer (demo_env 899 7) demo_accept demo_pledged
       = (Inr (demo_booking 5 1 (TR 100 150) Confirmed None), d1)"
    "accept_offer (demo_env 900 7) demo_accept demo_pledged = (Inl OfferExpiredError, demo_pledged)"
    using accept_offer_cases[OF healthy_demo demo_pledged_ok(2,1,3), of demo_accept 899 7]
      accept_offer_cases[OF healthy_demo demo_pledged_ok(2,1,3), of demo_accept 900 7] acc i
    by auto
  note first = excl[of 899 7 950 8 950 "''j''"] and second = excl[of 900 7 950 8 900 "''j''"]
  have "\<exists>v. fst (reap_hold (demo_env 950 8) 900 ''j'' 5 demo_pledged) = Inr (Some v)"
    using second run(2) acc(4) i(3-5) by auto
  moreover obtain d1 where d1: "accept_offer (demo_env 899 7) demo_accept demo_pledged
       = (Inr (demo_booking 5 1 (TR 100 150) Confirmed None), d1)"
    using run(1) by auto
  moreover have "reap_hold (demo_env 950 8) 950 ''j'' 5 d1 = (Inr None, d1)"
    using first d1 by blast
  ultimately show ?thesis by blast
qed


section \<open>Decline\<close>



section \<open>Attribution\<close>

text \<open>The rows a cascade writes are attributed in two ways: the hold to the actor \<open>system\<close>, the
  offer and the status of the entry, which are written outside any block and so without session
  settings, to the actor \<open>unknown\<close>.\<close>

theorem cascade_audit_attribution:
  assumes "\<And>i. healthy (envs i)" "\<And>i. fresh_booking_id (envs i) d" "idle d" "db_ok d"
    and "res \<in> List.set (map rs_id (resources d))"
    and "find_eligible_entries res s e d = w # post"
    and "cascade_turn_ok (envs 0) res rid w d"
  shows "\<exists>offer d' rows. create_offer_for_freed_range envs res s e rid d = (Inr (Some offer), d') \<and>
    audit d' = audit d @ rows \<and>
    map (\<lambda>r. (al_entity_type r, al_action r, al_actor_type r))
      (filter (\<lambda>r. al_action r \<noteq> Audit_delete) rows)
      = [(''booking'', Audit_insert, Actor_system), (''waitlist_offer'', Audit_insert, Actor_unknown),
         (''waitlist_entry'', Audit_update, Actor_unknown)]"
proof -
  have "create_offer_for_freed_range envs res s e rid d =
    (Inr (Some (new_offer (envs 0) res w (created (envs 0) (hold_request res rid w)))),
     cascaded_db (envs 0) res rid w (Suc 0) d)"
    using cascade_eq[of envs d res s e "[]" w post rid, OF assms(1-5)] assms(6,7) by simp
  then show ?thesis
    by (auto simp: cascaded_db_def offered_db_def after_create_def offer_audit_def create_audit_def
        create_session_def audit_row_def session_actor_def filter_map comp_def)
qed


theorem cascade_audit_attribution_witness:
  "\<exists>offer d' rows. create_offer_for_freed_range (demo_envs 0) 10 100 200 ''r''
      (demo_db [] [demo_entry 20 1 (TR 150 200) Waiting 9] []) = (Inr (Some offer), d') \<and>
    audit d' = rows \<and> map al_actor_type (filter (\<lambda>r. al_action r \<noteq> Audit_delete) rows)
      = [Actor_system, Actor_unknown, Actor_unknown]"
proof -
  let ?d = "demo_db [] [demo_entry 20 1 (TR 150 200) Waiting 9] []"
  have "find_eligible_entries 10 100 200 ?d = demo_entry 20 1 (TR 150 200) Waiting 9 # []" "db_ok ?d"
    by code_simp+
  moreover have "healthy (demo_envs 0 i)" for i by (simp add: demo_envs_def)
  moreover have "fresh_booking_id (demo_envs 0 i) ?d" for i
    by (simp add: demo_envs_def demo_simps fresh_booking_id_def)
  moreover have "cascade_turn_ok (demo_envs 0 0) 10 ''r'' (demo_entry 20 1 (TR 150 200) Waiting 9) ?d"
    by (simp add: demo_envs_def demo_simps cascade_turn_ok_def blocked_def offer_on_reclaimed_def)
  ultimately obtain offer d' rows where run:
    "create_offer_for_freed_range (demo_envs 0) 10 100 200 ''r'' ?d = (Inr (Some offer), d')"
    "audit d' = audit ?d @ rows"
    "map (\<lambda>r. (al_entity_type r, al_action r, al_actor_type r))
      (filter (\<lambda>r. al_action r \<noteq> Audit_delete) rows)
      = [(''booking'', Audit_insert, Actor_system), (''waitlist_offer'', Audit_insert, Actor_unknown),
         (''waitlist_entry'', Audit_update, Actor_unknown)]"
    using cascade_audit_attribution[of "demo_envs 0" ?d 10 100 200
        "demo_entry 20 1 (TR 150 200) Waiting 9" "[]" "''r''"]
    by (auto simp: demo_simps)
  have "map al_actor_type (filter (\<lambda>r. al_action r \<noteq> Audit_delete) rows)
      = map (\<lambda>(t, a, y). y) (map (\<lambda>r. (al_entity_type r, al_action r, al_actor_type r))
          (filter (\<lambda>r. al_action r \<noteq> Audit_delete) rows))"
    by simp
  then show ?thesis using run by (auto simp: demo_simps)
qed

section \<open>A run of the reaper\<close>

abbreviation expire_offer :: "waitlist_offer \<Rightarrow> waitlist_offer" where
  "expire_offer w \<equiv> w\<lparr> wo_status := Offer_expired \<rparr>"

lemma updated_twice:
  assumes "\<And>r. P r \<Longrightarrow> \<not> Q (f r)"
  shows "updated Q f (updated P f rs) = updated (\<lambda>r. P r \<or> Q r) f rs"
  using assms by (induction rs) auto

lemma updated_False [simp]: "updated (\<lambda>_. False) f rs = rs"
  by (rule updated_none) (simp add: list_all_iff)

lemma updated_cong:
  "(\<And>r. r \<in> List.set rs \<Longrightarrow> P r = Q r) \<Longrightarrow> updated P f rs = updated Q f rs"
  by (induction rs) auto

lemma reaped_offers:
  assumes "tables_ok d"
  shows "offers (reaped_db now hid log d)
    = updated (\<lambda>w. wo_hold w = hid \<and> wo_status w = Offer_active) expire_offer (offers d)"
proof (cases "active_offer_on hid d")
  case None
  then have "list_all (\<lambda>w. \<not> (wo_hold w = hid \<and> wo_status w = Offer_active)) (offers d)"
    by (auto simp: active_offer_on_def find_None_iff list_all_iff)
  from updated_none[OF this] show ?thesis using None by (simp add: reaped_db_def)
next
  case (Some w)
  then have w: "w \<in> List.set (offers d)" "wo_hold w = hid" "wo_status w = Offer_active"
    by (auto simp: active_offer_on_def find_Some_iff)
  have "wo_id r = wo_id w \<longleftrightarrow> wo_hold r = hid \<and> wo_status r = Offer_active"
    if "r \<in> List.set (offers d)" for r
  proof -
    have t: "table_ok offer_row_ok offer_pair_ok (offers d)" using assms by (simp add: tables_ok_def)
    have "r = w" if "wo_hold r = wo_hold w"
      using wo.ok_pair[OF t \<open>r \<in> List.set (offers d)\<close> w(1)] that
      by (auto simp: offer_pair_ok_def offers_clash_def)
    then show ?thesis using offer_ids_unique[OF assms that w(1)] w by auto
  qed
  then have "updated (\<lambda>r. wo_id r = wo_id w) expire_offer (offers d)
      = updated (\<lambda>w. wo_hold w = hid \<and> wo_status w = Offer_active) expire_offer (offers d)"
    by (rule updated_cong)
  then show ?thesis using Some by (simp add: reaped_db_def)
qed

definition none_waiting :: "db \<Rightarrow> bool" where
  "none_waiting d = list_all (\<lambda>e. we_status e \<noteq> Waiting) (entries d)"

lemma none_waiting_reaped: "none_waiting d \<Longrightarrow> none_waiting (reaped_db now hid log d)"
  by (auto simp: none_waiting_def reaped_db_def list_all_iff set_updated split: option.splits)

lemma none_waiting_cascade:
  assumes "healthy (envs 0)" "idle d" "db_ok d" "none_waiting d"
  shows "create_offer_for_freed_range envs res s e rid d
     = (Inr None, d\<lparr> checks := checks d @ [cascade_heartbeat (envs 0) False 0] \<rparr>)"
proof (rule cascade_none_eq[of envs, OF assms(1-3)])
  have "filter (eligible res s e) (entries d) = []"
    using assms(4) by (auto simp: none_waiting_def list_all_iff eligible_def filter_empty_conv)
  then show "find_eligible_entries res s e d = []" by (simp add: find_eligible_entries_def order_by_def)
qed

lemma reap_loop_none_waiting:
  assumes "\<And>k i. healthy (envs k i)" "idle d" "db_ok d" "none_waiting d"
    and "distinct (map bk_id hs)" "\<And>h. h \<in> List.set hs \<Longrightarrow> h \<in> List.set (bookings d) \<and> expired_hold now h"
  shows "\<exists>n d'. reap_loop envs now rid k hs acc d
      = (Inr \<lparr> rf_reclaimed = rf_reclaimed acc + length hs, rf_cascades = rf_cascades acc,
               rf_returned = rf_returned acc + n \<rparr>, d') \<and>
    bookings d' = updated (\<lambda>b. bk_id b \<in> bk_id ` List.set hs \<and> expired_hold now b) (release_row now) (bookings d) \<and>
    offers d' = updated (\<lambda>w. wo_hold w \<in> bk_id ` List.set hs \<and> wo_status w = Offer_active) expire_offer (offers d) \<and>
    queue d' = queue d \<and> idle d' \<and> db_ok d'"
  using assms(2-)
proof (induction hs arbitrary: d k acc)
  case Nil
  then show ?case by (intro exI[of _ 0] exI[of _ d]) simp
next
  case (Cons h hs)
  have ok: "tables_ok d" using Cons.prems(1,2) by (simp add: db_ok_def)
  obtain log where r: "reap_hold (envs k 0) now rid (bk_id h) d
      = (Inr (Some (active_offer_on (bk_id h) d)), reaped_db now (bk_id h) log d)"
    using reap_hold_cases[OF assms(1)[of k 0] Cons.prems(1,2) _ refl, of h now rid] Cons.prems(5)[of h] by auto
  let ?d1 = "reaped_db now (bk_id h) log d"
  have ok1: "idle ?d1" "db_ok ?d1" "none_waiting ?d1"
    using Cons.prems(1,3) keepsE[OF safeD2[OF safe_reap_hold] Cons.prems(2) r] none_waiting_reaped by auto
  define d2 where "d2 = (case active_offer_on (bk_id h) d of None \<Rightarrow> ?d1
      | Some w \<Rightarrow> ?d1\<lparr> checks := checks ?d1 @ [cascade_heartbeat (envs k (Suc 0)) False 0] \<rparr>)"
  define acc2 where "acc2 = (case active_offer_on (bk_id h) d of
      None \<Rightarrow> acc\<lparr> rf_reclaimed := rf_reclaimed acc + 1 \<rparr>
    | Some w \<Rightarrow> \<lparr> rf_reclaimed = rf_reclaimed acc + 1, rf_cascades = rf_cascades acc,
                  rf_returned = rf_returned acc + 1 \<rparr>)"
  have casc: "create_offer_for_freed_range (\<lambda>i. envs k (Suc i)) res s e rid ?d1
      = (Inr None, ?d1\<lparr> checks := checks ?d1 @ [cascade_heartbeat (envs k (Suc 0)) False 0] \<rparr>)" for res s e
    using none_waiting_cascade[of "\<lambda>i. envs k (Suc i)", OF assms(1) ok1] .
  have step: "reap_loop envs now rid k (h # hs) acc d = reap_loop envs now rid (Suc k) hs acc2 d2"
    using r casc by (auto simp: d2_def acc2_def split: option.splits)
  have d2: "idle d2" "db_ok d2" "none_waiting d2" "bookings d2 = bookings ?d1" "offers d2 = offers ?d1"
    "queue d2 = queue d"
    using ok1 by (auto simp: d2_def db_ok_def tables_ok_def fk_ok_def none_waiting_def idle_def tx_ok_def split: option.splits)
  have rest: "\<And>h'. h' \<in> List.set hs \<Longrightarrow> h' \<in> List.set (bookings d2) \<and> expired_hold now h'"
    using Cons.prems(4,5) d2(4) by (auto simp: set_updated image_iff)
  obtain n d' where IH: "reap_loop envs now rid (Suc k) hs acc2 d2
      = (Inr \<lparr> rf_reclaimed = rf_reclaimed acc2 + length hs, rf_cascades = rf_cascades acc2,
               rf_returned = rf_returned acc2 + n \<rparr>, d')"
    "bookings d' = updated (\<lambda>b. bk_id b \<in> bk_id ` List.set hs \<and> expired_hold now b) (release_row now) (bookings d2)"
    "offers d' = updated (\<lambda>w. wo_hold w \<in> bk_id ` List.set hs \<and> wo_status w = Offer_active) expire_offer (offers d2)"
    "queue d' = queue d2" "idle d'" "db_ok d'"
    using Cons.IH[OF d2(1-3) _ rest, of "Suc k" acc2] Cons.prems(4) by auto
  have "\<exists>m. rf_returned acc2 + n = rf_returned acc + m"
    by (cases "active_offer_on (bk_id h) d") (auto simp: acc2_def)
  then obtain m where m: "rf_returned acc2 + n = rf_returned acc + m" by blast
  have acc2: "rf_reclaimed acc2 = rf_reclaimed acc + 1" "rf_cascades acc2 = rf_cascades acc"
    by (auto simp: acc2_def split: option.splits)
  have bs: "bookings d' = updated (\<lambda>b. bk_id b \<in> bk_id ` List.set (h # hs) \<and> expired_hold now b)
      (release_row now) (bookings d)"
    unfolding IH(2) d2(4) by (simp, subst updated_twice) (auto simp: expired_hold_def intro: updated_cong)
  have os: "offers d' = updated (\<lambda>w. wo_hold w \<in> bk_id ` List.set (h # hs) \<and> wo_status w = Offer_active)
      expire_offer (offers d)"
    unfolding IH(3) d2(5) reaped_offers[OF ok] by (subst updated_twice) (auto intro: updated_cong)
  show ?case
    using step IH(1,4-6) bs os acc2 m d2(6) by (intro exI[of _ m] exI[of _ d']) simp
qed




end
