(* ===== verification/Recurrence.thy ===== *)
theory Recurrence
  imports Timezones Constants
begin

text \<open>
  \<open>bookings/recurrence.py\<close>: the expansion of a weekly series into occurrences, each computed in
  local wall-clock time first and converted to an instant with the rules in effect on its own
  date.  A start inside a spring-forward gap moves the whole occurrence forward by the gap; a
  start that occurs twice takes the first instance; both are disclosed.
\<close>

datatype tz_issue = Nonexistent_local_time | Ambiguous_local_time

record time_adjustment =
  ta_issue :: tz_issue
  ta_requested_local :: time_of_day
  ta_adjusted_local :: time_of_day

record occurrence =
  oc_date :: date
  oc_start :: instant
  oc_end :: instant
  oc_adjustment :: "time_adjustment option"

definition transition_gap :: "int \<Rightarrow> zone \<Rightarrow> duration" where
  "transition_gap naive z = to_utc z False naive - to_utc z True naive"

definition materialize_occurrence ::
  "date \<Rightarrow> time_of_day \<Rightarrow> time_of_day \<Rightarrow> zone \<Rightarrow> occurrence" where
  "materialize_occurrence d local_start local_end z =
     (let naive_start = combine d local_start;
          naive_end = combine d local_end;
          gap = (if is_nonexistent_local_time naive_start z
                 then transition_gap naive_start z else 0);
          adj = (if is_nonexistent_local_time naive_start z
                 then Some \<lparr> ta_issue = Nonexistent_local_time, ta_requested_local = local_start,
                             ta_adjusted_local = time_of (naive_start + gap) \<rparr>
                 else if is_ambiguous_local_time naive_start z
                 then Some \<lparr> ta_issue = Ambiguous_local_time, ta_requested_local = local_start,
                             ta_adjusted_local = local_start \<rparr>
                 else None);
          s = naive_start + gap;
          e = naive_end + gap
      in \<lparr> oc_date = d,
           oc_start = local_to_instant s z (date_of s),
           oc_end = local_to_instant e z (date_of e),
           oc_adjustment = adj \<rparr>)"

definition expand_occurrences ::
  "zone \<Rightarrow> time_of_day \<Rightarrow> time_of_day \<Rightarrow> date \<Rightarrow> int \<Rightarrow> exn + occurrence list" where
  "expand_occurrences z local_start local_end series_start n =
     (if 1 \<le> n \<and> n \<le> MAX_SERIES_OCCURRENCES
      then Inr (map (\<lambda>i. materialize_occurrence (series_start + 7 * int i) local_start local_end z)
                    [0..<nat n])
      else Inl (PolicyValidationError ''occurrence_count'' ''must be between 1 and 100''))"

section \<open>One occurrence\<close>

lemma materialize_fields [simp]:
  "oc_date (materialize_occurrence d s e z) = d"
  by (simp add: materialize_occurrence_def Let_def)

lemma materialize_plain:
  assumes "\<not> is_nonexistent_local_time (combine d s) z"
  shows "oc_start (materialize_occurrence d s e z) = to_utc z False (combine d s)"
    and "oc_end (materialize_occurrence d s e z) = to_utc z False (combine d e)"
  using assms by (simp_all add: materialize_occurrence_def Let_def)

lemma materialize_gap:
  assumes "is_nonexistent_local_time (combine d s) z"
  shows "oc_start (materialize_occurrence d s e z)
           = to_utc z False (combine d s + transition_gap (combine d s) z)"
    and "oc_end (materialize_occurrence d s e z)
           = to_utc z False (combine d e + transition_gap (combine d s) z)"
  using assms by (simp_all add: materialize_occurrence_def Let_def)

text \<open>A start moved out of a gap lands on an existing wall-clock time.\<close>

lemma gap_shift_from:
  assumes "zone_ok_from b ts" "in_gap_from b ts w"
  shows "\<not> in_gap_from b ts (w + (wall_offset True b ts w - wall_offset False b ts w))
     \<and> wall_offset False b ts (w + (wall_offset True b ts w - wall_offset False b ts w))
         = wall_offset True b ts w"
  using assms
proof (induction ts arbitrary: b)
  case (Cons p ts)
  obtain T off where p: "p = (T, off)" by (cases p)
  have ok: "zone_ok_from b ((T, off) # ts)" and ok': "zone_ok_from off ts"
    using Cons.prems p zone_ok_from_Cons by auto
  show ?case
  proof (cases "w < T + max b off")
    case True
    note before = offsets_before_first(2,3)[OF ok True]
    have gap: "T + b \<le> w" "w < T + off" using Cons.prems(2) p before by auto
    define w' where "w' = w + (off - b)"
    have w': "T + off \<le> w'" "w' < T + off + (off - b)" using gap by (auto simp: w'_def)
    have "wall_offset f off ts w' = off \<and> \<not> in_gap_from off ts w'" for f
    proof (cases ts)
      case (Cons q us)
      obtain T2 off2 where q: "q = (T2, off2)" by (cases q)
      have sep: "\<bar>off - b\<bar> + \<bar>off2 - off\<bar> \<le> T2 - T" using ok Cons q by simp
      have lt: "w' < T2 + min off off2" using sep w' by auto
      then have "w' < T2 + max off off2" by linarith
      then show ?thesis
        using Cons q lt offsets_before_first(3)[OF ok'[unfolded Cons q]] by auto
    qed simp
    then show ?thesis
      using p before gap w' unfolding w'_def by auto
  next
    case False
    have gap': "in_gap_from off ts w" using Cons.prems(2) p False by auto
    have "0 < wall_offset True off ts w - wall_offset False off ts w"
      using wall_offsets_from(1)[OF ok' gap'] by simp
    then show ?thesis
      using False p Cons.IH[OF ok' gap'] by auto
  qed
qed simp

lemma gap_shift:
  assumes "zone_ok z" "in_gap z w"
  shows "\<not> in_gap z (w + transition_gap w z)"
    and "to_utc z False (w + transition_gap w z) = to_utc z False w"
  using gap_shift_from[of "zn_before z" "zn_transitions z" w] assms
  by (simp_all add: zone_ok_def in_gap_def to_utc_def transition_gap_def)

lemma transition_gap_pos: "zone_ok z \<Longrightarrow> in_gap z w \<Longrightarrow> 0 < transition_gap w z"
  using gap_positive by (simp add: transition_gap_def)

lemma materialize_ordered:
  assumes "zone_ok z" "s < e"
  shows "oc_start (materialize_occurrence d s e z) < oc_end (materialize_occurrence d s e z)"
proof (cases "in_gap z (combine d s)")
  case True
  then show ?thesis
    using assms gap_shift(1)[OF assms(1) True]
    by (simp add: materialize_gap nonexistent_iff_gap to_utc_mono combine_def)
next
  case False
  then show ?thesis
    using assms by (simp add: materialize_plain nonexistent_iff_gap to_utc_mono combine_def)
qed

text \<open>The wall clock of the start: the requested one, or the requested one plus the gap.\<close>

lemma materialize_wall_start:
  assumes "zone_ok z"
  shows "from_utc z (oc_start (materialize_occurrence d s e z)) =
     (if is_nonexistent_local_time (combine d s) z
      then combine d s + transition_gap (combine d s) z else combine d s)"
proof (cases "in_gap z (combine d s)")
  case True
  then show ?thesis
    using assms by (simp add: materialize_gap nonexistent_iff_gap from_to_utc gap_shift(1))
next
  case False
  then show ?thesis
    using assms by (simp add: materialize_plain nonexistent_iff_gap from_to_utc)
qed

lemma expand_Inr_iff:
  "expand_occurrences z s e d n = Inr os \<longleftrightarrow> 1 \<le> n \<and> n \<le> 100 \<and>
     os = map (\<lambda>i. materialize_occurrence (d + 7 * int i) s e z) [0..<nat n]"
  by (auto simp: expand_occurrences_def MAX_SERIES_OCCURRENCES_def)

end
