(* ===== verification/Recurring_Series.thy ===== *)
theory Recurring_Series
  imports Recurrence Booking_Services
begin

text \<open>
  \<open>bookings/recurring_series.py\<close>: the preview of a weekly series, the signed token that carries it,
  and the confirm that creates the occurrences one by one.

  The token is made and checked by PyJWT: \<open>encode\<close> and \<open>decode\<close> are parameters of the definitions;
  \<open>jwt_contract\<close> states what its documentation promises (a token decodes to its claims until its
  expiry).  The claims are kept as values; their ISO text form is the standard library's.
\<close>

section \<open>The preview\<close>

record preview_request =
  pq_user :: uuid
  pq_resource :: uuid
  pq_timezone :: string
  pq_local_start :: time_of_day
  pq_local_end :: time_of_day
  pq_weekday :: int
  pq_start_date :: date
  pq_count :: int

definition occurrence_taken :: "uuid \<Rightarrow> booking list \<Rightarrow> occurrence \<Rightarrow> bool" where
  "occurrence_taken res bs oc = list_ex (\<lambda>b. bk_resource b = res \<and> active_status (bk_status b) \<and>
     overlaps (bk_range b) (TR (oc_start oc) (oc_end oc))) bs"

definition occurrence_conflicts :: "uuid \<Rightarrow> occurrence list \<Rightarrow> db \<Rightarrow> date list" where
  "occurrence_conflicts res os d = map oc_date (filter (occurrence_taken res (bookings d)) os)"

text \<open>The claims of the token; a set of dates travels as a sorted list.\<close>

record preview_claims =
  pc_user :: uuid
  pc_resource :: uuid
  pc_timezone :: string
  pc_local_start :: time_of_day
  pc_local_end :: time_of_day
  pc_weekday :: int
  pc_start_date :: date
  pc_count :: int
  pc_conflicts :: "date list"
  pc_adjustments :: "date list"
  pc_iat :: int              \<comment> \<open>seconds\<close>
  pc_exp :: int

definition date_set :: "date list \<Rightarrow> date list" where
  "date_set ds = sort (remdups ds)"

record preview_result =
  pr_token :: string
  pr_resource :: uuid
  pr_tzdata_version :: string
  pr_would_create :: "(date \<times> instant \<times> instant) list"
  pr_conflicts :: "(date \<times> instant \<times> instant) list"
  pr_adjustments :: "(date \<times> time_adjustment) list"

definition preview_claims_of ::
  "env \<Rightarrow> preview_request \<Rightarrow> date list \<Rightarrow> date list \<Rightarrow> preview_claims" where
  "preview_claims_of env req conflicts adjustments =
     (let now = ev_py_now env div second in
      \<lparr> pc_user = pq_user req, pc_resource = pq_resource req, pc_timezone = pq_timezone req,
        pc_local_start = pq_local_start req, pc_local_end = pq_local_end req,
        pc_weekday = pq_weekday req, pc_start_date = pq_start_date req, pc_count = pq_count req,
        pc_conflicts = date_set conflicts, pc_adjustments = date_set adjustments,
        pc_iat = now, pc_exp = now + PREVIEW_TOKEN_TTL_SECONDS \<rparr>)"

definition issue_preview_token ::
  "(preview_claims \<Rightarrow> string) \<Rightarrow> env \<Rightarrow> preview_request \<Rightarrow> date list \<Rightarrow> date list \<Rightarrow> string" where
  "issue_preview_token encode env req conflicts adjustments =
     encode (preview_claims_of env req conflicts adjustments)"

definition expand_in :: "env \<Rightarrow> string \<Rightarrow> time_of_day \<Rightarrow> time_of_day \<Rightarrow> date \<Rightarrow> int
    \<Rightarrow> occurrence list svc" where
  "expand_in env tz s e start n =
     (case ev_zone env tz of
        None \<Rightarrow> raise (ValueError ''unknown zone'')
      | Some z \<Rightarrow> (case expand_occurrences z s e start n of Inl x \<Rightarrow> raise x | Inr os \<Rightarrow> ret os))"

definition occurrence_item :: "occurrence \<Rightarrow> date \<times> instant \<times> instant" where
  "occurrence_item oc = (oc_date oc, oc_start oc, oc_end oc)"

definition preview_recurring_series ::
  "(preview_claims \<Rightarrow> string) \<Rightarrow> env \<Rightarrow> preview_request \<Rightarrow> preview_result svc" where
  "preview_recurring_series encode env req =
     bind_svc (expand_in env (pq_timezone req) (pq_local_start req) (pq_local_end req)
                 (pq_start_date req) (pq_count req)) (\<lambda>os.
       if ev_py_now env + MAX_ADVANCE_HORIZON_DAYS * day < oc_start (last os)
       then raise (PolicyValidationError ''occurrence_count''
              ''series extends beyond the 365-day advance horizon'')
       else bind_svc (query (occurrence_conflicts (pq_resource req) os)) (\<lambda>conflicts.
         let adjusted = map oc_date (filter (\<lambda>oc. oc_adjustment oc \<noteq> None) os) in
         ret \<lparr> pr_token = issue_preview_token encode env req conflicts adjusted,
               pr_resource = pq_resource req,
               pr_tzdata_version = ev_tzdata_version env,
               pr_would_create = map occurrence_item
                 (filter (\<lambda>oc. oc_date oc \<notin> List.set conflicts) os),
               pr_conflicts = map occurrence_item
                 (filter (\<lambda>oc. oc_date oc \<in> List.set conflicts) os),
               pr_adjustments = List.map_filter
                 (\<lambda>oc. map_option (Pair (oc_date oc)) (oc_adjustment oc)) os \<rparr>))"

section \<open>The token\<close>

text \<open>\<open>jwt.decode\<close> gives nothing for a token that is malformed, tampered with or expired.\<close>

definition decode_preview_token ::
  "(int \<Rightarrow> string \<Rightarrow> preview_claims option) \<Rightarrow> env \<Rightarrow> string \<Rightarrow> uuid \<Rightarrow> preview_claims svc" where
  "decode_preview_token decode env token user =
     (case decode (ev_py_now env div second) token of
        None \<Rightarrow> raise PreviewExpiredError
      | Some c \<Rightarrow> if pc_user c \<noteq> user then raise PreviewExpiredError else ret c)"

definition jwt_contract ::
  "(preview_claims \<Rightarrow> string) \<Rightarrow> (int \<Rightarrow> string \<Rightarrow> preview_claims option) \<Rightarrow> preview_claims \<Rightarrow> bool"
where
  "jwt_contract encode decode c =
     (\<forall>now. pc_iat c \<le> now \<longrightarrow> decode now (encode c) = (if now < pc_exp c then Some c else None))"

section \<open>The confirm\<close>

text \<open>The acknowledgment check of \<open>RecurringSeriesConfirmView.post\<close>.\<close>

definition check_acknowledged :: "preview_claims \<Rightarrow> date list \<Rightarrow> date list \<Rightarrow> unit svc" where
  "check_acknowledged c conflicts adjustments =
     (if list_ex (\<lambda>x. x \<notin> List.set conflicts) (pc_conflicts c) \<or>
         list_ex (\<lambda>x. x \<notin> List.set adjustments) (pc_adjustments c)
      then raise UnacknowledgedConflictsError else ret ())"

record confirm_outcome =
  co_series :: uuid
  co_created :: "(uuid \<times> date \<times> instant \<times> instant) list"
  co_conflicts :: "(date \<times> bool) list"       \<comment> \<open>acknowledged or not\<close>

definition new_series :: "env \<Rightarrow> preview_claims \<Rightarrow> uuid \<Rightarrow> date \<Rightarrow> recurring_series" where
  "new_series env c user through =
     \<lparr> se_id = ev_uuid env, se_resource = pc_resource c, se_created_by = user,
       se_timezone = pc_timezone c, se_local_start = pc_local_start c,
       se_local_end = pc_local_end c, se_weekday = pc_weekday c, se_start_date = pc_start_date c,
       se_count = pc_count c, se_tzdata_version = ev_tzdata_version env,
       se_materialized_through = through, se_status = Series_active \<rparr>"

definition occurrence_request ::
  "uuid \<Rightarrow> uuid \<Rightarrow> uuid \<Rightarrow> string \<Rightarrow> actor_type \<Rightarrow> occurrence \<Rightarrow> create_request" where
  "occurrence_request res user ser rid ty oc =
     \<lparr> cq_resource = res, cq_user = user, cq_start = oc_start oc, cq_end = oc_end oc,
       cq_request_id = rid, cq_series = Some ser, cq_actor_type = ty, cq_status = Confirmed \<rparr>"

text \<open>The loop over the occurrences; turn \<open>i\<close> runs in the environment \<open>envs i\<close>.\<close>

fun confirm_loop ::
  "(nat \<Rightarrow> env) \<Rightarrow> uuid \<Rightarrow> uuid \<Rightarrow> uuid \<Rightarrow> string \<Rightarrow> date list \<Rightarrow> nat \<Rightarrow> occurrence list
     \<Rightarrow> ((uuid \<times> date \<times> instant \<times> instant) list \<times> (date \<times> bool) list) svc" where
  "confirm_loop envs res user ser rid known i [] = ret ([], [])"
| "confirm_loop envs res user ser rid known i (oc # os) =
     (if oc_date oc \<in> List.set known
      then bind_svc (confirm_loop envs res user ser rid known (Suc i) os) (\<lambda>(cr, cf).
             ret (cr, (oc_date oc, True) # cf))
      else (\<lambda>d. case create_booking (envs i) (occurrence_request res user ser rid Actor_user oc) d of
          (Inl SlotUnavailableError, d') \<Rightarrow>
            bind_svc (confirm_loop envs res user ser rid known (Suc i) os) (\<lambda>(cr, cf).
              ret (cr, (oc_date oc, False) # cf)) d'
        | (Inl e, d') \<Rightarrow> (Inl e, d')
        | (Inr b, d') \<Rightarrow>
            bind_svc (confirm_loop envs res user ser rid known (Suc i) os) (\<lambda>(cr, cf).
              ret ((bk_id b, oc_date oc, oc_start oc, oc_end oc) # cr, cf)) d'))"

definition confirm_recurring_series ::
  "(nat \<Rightarrow> env) \<Rightarrow> uuid \<Rightarrow> preview_claims \<Rightarrow> string \<Rightarrow> confirm_outcome svc" where
  "confirm_recurring_series envs user c rid =
     then_svc (get_row resources (\<lambda>r. rs_id r = pc_resource c))
      (bind_svc (expand_in (envs 0) (pc_timezone c) (pc_local_start c) (pc_local_end c)
                  (pc_start_date c) (pc_count c)) (\<lambda>os.
       then_svc (autocommit (envs 0) (insert_series (envs 0)
                   (new_series (envs 0) c user (oc_date (last os)))))
        (bind_svc (confirm_loop envs (pc_resource c) user (ev_uuid (envs 0)) rid
                     (pc_conflicts c) 1 os) (\<lambda>(cr, cf).
          ret \<lparr> co_series = ev_uuid (envs 0), co_created = cr, co_conflicts = cf \<rparr>))))"

section \<open>Safety\<close>

lemma safe_expand_in [inv_intros]: "safe (expand_in env tz s e st n)"
  by (auto simp: safe_def keeps_def expand_in_def split: option.splits sum.splits)

lemma safe_confirm_loop [inv_intros]: "safe (confirm_loop envs res user ser rid known i os)"
proof (induction os arbitrary: i)
  case (Cons oc os)
  have rest: "safe (bind_svc (confirm_loop envs res user ser rid known (Suc i) os) (\<lambda>(cr, cf). ret (f cr cf)))"
    for f :: "_ \<Rightarrow> _ \<Rightarrow> ((uuid \<times> date \<times> instant \<times> instant) list \<times> (date \<times> bool) list)"
    by (rule safe_bind[OF Cons.IH]) (auto intro: safe_ret)
  have loop: "keeps I (confirm_loop envs res user ser rid known i (oc # os))"
    if "keeps I (create_booking (envs i) (occurrence_request res user ser rid Actor_user oc))"
      "\<And>f. keeps I (bind_svc (confirm_loop envs res user ser rid known (Suc i) os)
          (\<lambda>(cr, cf). ret (f cr cf :: (uuid \<times> date \<times> instant \<times> instant) list \<times> (date \<times> bool) list)))" for I
  proof
    fix d assume d: "I d"
    obtain r d' where c: "create_booking (envs i) (occurrence_request res user ser rid Actor_user oc) d = (r, d')"
      by (cases "create_booking (envs i) (occurrence_request res user ser rid Actor_user oc) d")
    have d': "I d'" using keepsE[OF that(1) d c] .
    show "I (snd (confirm_loop envs res user ser rid known i (oc # os) d))"
      using c d' d keepsD[OF that(2) d'] keepsD[OF that(2) d]
      by (auto split: sum.splits exn.splits)
  qed
  show ?case unfolding safe_def
    by (intro conjI loop; rule safeD1 safeD2 safeD3; intro safe_booking_services rest)
qed (simp add: safe_ret)

lemma safe_confirm [inv_intros]: "safe (confirm_recurring_series envs user c rid)"
  unfolding confirm_recurring_series_def
  by (intro inv_intros) (auto intro!: inv_intros split: prod.splits)

lemma safe_preview [inv_intros]: "safe (preview_recurring_series encode env req)"
  unfolding preview_recurring_series_def Let_def by (intro inv_intros)

end
