(* ===== verification/Calendar.thy ===== *)
theory Calendar
  imports Kairos_Prelude
begin

text \<open>
  The proleptic Gregorian calendar of the standard library, as far as the source prints it: the
  ISO text of a date and of an aware UTC datetime, and the decimal text of a number.  A date is
  the number of days since 1970-01-01, an instant the number of microseconds since its midnight.
\<close>

section \<open>Numbers\<close>

definition digit_char :: "nat \<Rightarrow> char" where
  "digit_char n = char_of (48 + n mod 10)"

fun padded :: "nat \<Rightarrow> nat \<Rightarrow> string" where
  "padded 0 n = []"
| "padded (Suc w) n = padded w (n div 10) @ [digit_char n]"

section \<open>Dates\<close>

text \<open>Year, month and day.  Years are counted from the first of March, in cycles of 400, 100 and 4
  years whose last year or century holds the leap day.\<close>

definition civil :: "date \<Rightarrow> int \<times> int \<times> int" where
  "civil days =
     (let z = days + 719468; era = z div 146097; doe = z mod 146097;
          c = min 3 (doe div 36524); r = doe - 36524 * c;
          q = min 24 (r div 1461); s = r - 1461 * q;
          y = min 3 (s div 365); doy = s - 365 * y;
          mp = (5 * doy + 2) div 153;
          m = (if mp < 10 then mp + 3 else mp - 9)
      in (400 * era + 100 * c + 4 * q + y + (if m \<le> 2 then 1 else 0), m,
          doy - (153 * mp + 2) div 5 + 1))"

definition days_of :: "int \<Rightarrow> int \<Rightarrow> int \<Rightarrow> date" where
  "days_of y m d =
     (let y' = (if m \<le> 2 then y - 1 else y); yoe = y' mod 400;
          mp = (if m \<le> 2 then m + 9 else m - 3)
      in 146097 * (y' div 400) + 365 * yoe + yoe div 4 - yoe div 100 +
         (153 * mp + 2) div 5 + d - 1 - 719468)"

lemma days_of_civil:
  assumes "civil days = (y, m, d)"
  shows "days_of y m d = days" "1 \<le> m \<and> m \<le> 12" "1 \<le> d \<and> d \<le> 31"
proof -
  define z era doe where "z = days + 719468" and "era = z div 146097" and "doe = z mod 146097"
  define c r where "c = min 3 (doe div 36524)" and "r = doe - 36524 * c"
  define q s where "q = min 24 (r div 1461)" and "s = r - 1461 * q"
  define yy doy where "yy = min 3 (s div 365)" and "doy = s - 365 * yy"
  define mp where "mp = (5 * doy + 2) div 153"
  have doe: "0 \<le> doe" "doe < 146097" by (simp_all add: doe_def)
  have c: "0 \<le> c" "c \<le> 3" using doe(1) by (auto simp: c_def)
  have r: "0 \<le> r" "r < 36525" using doe by (auto simp: r_def c_def min_def)
  have q: "0 \<le> q" "q \<le> 24" using r(1) by (auto simp: q_def)
  have s: "0 \<le> s" "s < 1461" using r by (auto simp: s_def q_def min_def)
  have yy: "0 \<le> yy" "yy \<le> 3" using s(1) by (auto simp: yy_def)
  have doy: "0 \<le> doy" "doy \<le> 365" using s by (auto simp: doy_def yy_def min_def)
  have mp: "0 \<le> mp" "mp \<le> 11" using doy by (auto simp: mp_def)
  have dd: "0 \<le> doy - (153 * mp + 2) div 5" "doy - (153 * mp + 2) div 5 \<le> 30"
    using doy by (auto simp: mp_def)
  let ?m = "if mp < 10 then mp + 3 else mp - 9"
  have civil: "y = 400 * era + 100 * c + 4 * q + yy + (if ?m \<le> 2 then 1 else 0)" "m = ?m"
    "d = doy - (153 * mp + 2) div 5 + 1"
    using assms unfolding civil_def Let_def z_def[symmetric] era_def[symmetric] doe_def[symmetric]
      c_def[symmetric] r_def[symmetric] q_def[symmetric] s_def[symmetric] yy_def[symmetric]
      doy_def[symmetric] mp_def[symmetric] by auto
  show "1 \<le> m \<and> m \<le> 12" "1 \<le> d \<and> d \<le> 31" using civil mp dd by auto
  have y': "(if m \<le> 2 then y - 1 else y) = 400 * era + (100 * c + 4 * q + yy)"
    and mp': "(if m \<le> 2 then m + 9 else m - 3) = mp" using civil mp by auto
  define yoe where "yoe = 100 * c + 4 * q + yy"
  have yoe: "0 \<le> yoe" "yoe < 400" "yoe div 4 = 25 * c + q" "yoe div 100 = c"
    using c q yy by (auto simp: yoe_def)
  have "(400 * era + yoe) div 400 = era" "(400 * era + yoe) mod 400 = yoe" using yoe by auto
  then have "days_of y m d = 146097 * era + 365 * yoe + (25 * c + q) - c + (153 * mp + 2) div 5 + d - 1 - 719468"
    unfolding days_of_def Let_def y' mp' yoe_def[symmetric] using yoe by simp
  also have "\<dots> = 146097 * era + doe - 719468"
    by (simp add: civil(3) yoe_def doy_def s_def r_def)
  also have "\<dots> = days" by (simp add: era_def doe_def z_def)
  finally show "days_of y m d = days" .
qed

definition iso_date :: "date \<Rightarrow> string" where
  "iso_date days = (case civil days of (y, m, d) \<Rightarrow>
     padded 4 (nat y) @ ''-'' @ padded 2 (nat m) @ ''-'' @ padded 2 (nat d))"

definition iso_time :: "time_of_day \<Rightarrow> string" where
  "iso_time t = padded 2 (nat (t div hour)) @ '':'' @ padded 2 (nat (t mod hour div minute)) @
     '':'' @ padded 2 (nat (t mod minute div second)) @
     (if t mod second = 0 then '''' else ''.'' @ padded 6 (nat (t mod second)))"

definition iso_instant :: "instant \<Rightarrow> string" where
  "iso_instant t = iso_date (t div day) @ ''T'' @ iso_time (t mod day) @ ''+00:00''"

lemma iso_examples:
  "iso_date 0 = ''1970-01-01''" "iso_date 19782 = ''2024-02-29''" "iso_date 20818 = ''2026-12-31''"
  "iso_instant (19782 * day + 9 * hour + 30 * minute + 5) = ''2024-02-29T09:30:00.000005+00:00''"
  by code_simp+

lemma length_padded [simp]: "length (padded w n) = w"
  by (induction w arbitrary: n) auto

lemma digit_char_eq: "digit_char m = digit_char n \<longleftrightarrow> m mod 10 = n mod 10"
proof
  assume "digit_char m = digit_char n"
  then have "(of_char (digit_char m) :: nat) = of_char (digit_char n)" by simp
  then show "m mod 10 = n mod 10" by (simp add: digit_char_def)
qed (simp add: digit_char_def)

text \<open>A number is recovered from its padded text.\<close>

lemma padded_inj: "padded w m = padded w n \<Longrightarrow> m mod 10 ^ w = n mod 10 ^ w"
proof (induction w arbitrary: m n)
  case (Suc w)
  then have "padded w (m div 10) = padded w (n div 10)" "m mod 10 = n mod 10"
    using Suc.prems by (simp_all only: padded.simps append1_eq_conv digit_char_eq)
  then have "m div 10 mod 10 ^ w = n div 10 mod 10 ^ w" "m mod 10 = n mod 10"
    using Suc.IH by blast+
  moreover have "k mod 10 ^ Suc w = 10 * (k div 10 mod 10 ^ w) + k mod 10" for k :: nat
    unfolding power_Suc by (rule mod_mult2_eq)
  ultimately show ?case by metis
qed simp

end
