(* ===== verification/Uuids.thy ===== *)
theory Uuids
  imports Calendar
begin

text \<open>
  The text of a UUID: \<open>str(uuid)\<close> and the constructor \<open>uuid.UUID(text)\<close> of the standard library, with
  which the views read the \<open>Idempotency-Key\<close> header and identifiers in queries.  The constructor
  drops \<open>urn:\<close> and \<open>uuid:\<close>, surrounding braces and all hyphens, wants 32 characters and reads them
  with \<open>int(text, 16)\<close>, which itself accepts surrounding white space, a sign, a \<open>0x\<close> prefix and
  underscores between digits.
\<close>

section \<open>Hexadecimal numbers\<close>

definition hex_char :: "nat \<Rightarrow> char" where
  "hex_char n = char_of (if n mod 16 < 10 then 48 + n mod 16 else 87 + n mod 16)"

fun hexed :: "nat \<Rightarrow> nat \<Rightarrow> string" where
  "hexed 0 n = []"
| "hexed (Suc w) n = hexed w (n div 16) @ [hex_char n]"

definition hex_value :: "char \<Rightarrow> nat option" where
  "hex_value c = (let k = of_char c in
     if 48 \<le> k \<and> k \<le> 57 then Some (k - 48)
     else if 97 \<le> k \<and> k \<le> 102 then Some (k - 87)
     else if 65 \<le> k \<and> k \<le> 70 then Some (k - 55)
     else None)"

text \<open>Digits with single underscores between them.\<close>

fun hex_digits :: "nat \<Rightarrow> string \<Rightarrow> nat option" where
  "hex_digits acc [] = None"
| "hex_digits acc (c # cs) = (case hex_value c of
      None \<Rightarrow> None
    | Some v \<Rightarrow> (case cs of
        [] \<Rightarrow> Some (16 * acc + v)
      | c' # cs' \<Rightarrow> if c' = CHR ''_'' then hex_digits (16 * acc + v) cs'
          else hex_digits (16 * acc + v) (c' # cs')))"

definition is_space :: "char \<Rightarrow> bool" where
  "is_space c = (let k = (of_char c :: nat) in
     9 \<le> k \<and> k \<le> 13 \<or> 28 \<le> k \<and> k \<le> 32 \<or> k = 133 \<or> k = 160)"

definition strip :: "(char \<Rightarrow> bool) \<Rightarrow> string \<Rightarrow> string" where
  "strip P s = rev (dropWhile P (rev (dropWhile P s)))"

definition unprefixed :: "string \<Rightarrow> string" where
  "unprefixed s = (case s of
      a # b # rest \<Rightarrow> if a = CHR ''0'' \<and> (b = CHR ''x'' \<or> b = CHR ''X'')
        then (case rest of c # cs \<Rightarrow> if c = CHR ''_'' then cs else rest | [] \<Rightarrow> [])
        else s
    | _ \<Rightarrow> s)"

definition int_base16 :: "string \<Rightarrow> int option" where
  "int_base16 text = (case strip is_space text of
      [] \<Rightarrow> None
    | c # cs \<Rightarrow>
        if c = CHR ''-'' then map_option (\<lambda>n. - int n) (hex_digits 0 (unprefixed cs))
        else if c = CHR ''+'' then map_option int (hex_digits 0 (unprefixed cs))
        else map_option int (hex_digits 0 (unprefixed (c # cs))))"

section \<open>UUIDs\<close>

definition uuid_text :: "uuid \<Rightarrow> string" where
  "uuid_text u = hexed 8 (u div 16 ^ 24) @ ''-'' @ hexed 4 (u div 16 ^ 20) @ ''-'' @
     hexed 4 (u div 16 ^ 16) @ ''-'' @ hexed 4 (u div 16 ^ 12) @ ''-'' @ hexed 12 u"

fun erase :: "string \<Rightarrow> nat \<Rightarrow> string \<Rightarrow> string" where
  "erase pat k [] = []"
| "erase pat (Suc k) (c # cs) = erase pat k cs"
| "erase pat 0 (c # cs) =
     (if take (length pat) (c # cs) = pat then erase pat (length pat - 1) cs else c # erase pat 0 cs)"

definition parse_uuid :: "string \<Rightarrow> uuid option" where
  "parse_uuid text =
     (let hex = filter (\<lambda>c. c \<noteq> CHR ''-'')
            (strip (\<lambda>c. c = CHR 0x7B \<or> c = CHR 0x7D) (erase ''uuid:'' 0 (erase ''urn:'' 0 text)))
      in if length hex \<noteq> 32 then None
         else case int_base16 hex of
            None \<Rightarrow> None
          | Some v \<Rightarrow> if 0 \<le> v \<and> v < 2 ^ 128 then Some (nat v) else None)"

lemma parse_uuid_examples:
  "parse_uuid ''{00000000-0000-0000-0000-00000000001F}'' = Some 31"
  "parse_uuid ''urn:uuid:00000000-0000-0000-0000-00000000001f'' = Some 31"
  "parse_uuid ''0x000000-0000-0000-0000-00000000_01f'' = Some 31"
  "parse_uuid ''0000001f'' = None" "parse_uuid [] = None"
  by code_simp+

section \<open>Round trip\<close>

lemma hex_value_char [simp]: "hex_value (hex_char n) = Some (n mod 16)"
proof -
  obtain m where m: "n mod 16 = m" "m < 16" by (metis mod_less_divisor zero_less_numeral)
  have "(48 + m) mod 256 = 48 + m" "(87 + m) mod 256 = 87 + m" using m(2) by simp_all
  then show ?thesis unfolding hex_value_def hex_char_def m(1) Let_def using m(2) by simp
qed

lemma hexed_hex: "c \<in> set (hexed w n) \<Longrightarrow> hex_value c \<noteq> None"
  by (induction w arbitrary: n) auto

lemma length_hexed [simp]: "length (hexed w n) = w"
  by (induction w arbitrary: n) auto

lemma hexed_add: "hexed (a + b) n = hexed a (n div 16 ^ b) @ hexed b n"
  by (induction b arbitrary: n) (auto simp: div_mult2_eq)

lemma not_hex:
  "hex_value CHR ''_'' = None" "hex_value CHR ''-'' = None" "hex_value CHR ''+'' = None"
  "hex_value CHR ''u'' = None" "hex_value CHR ''x'' = None" "hex_value CHR ''X'' = None"
  "hex_value CHR 0x7B = None" "hex_value CHR 0x7D = None" "is_space c \<Longrightarrow> hex_value c = None"
  by (auto simp: hex_value_def is_space_def Let_def)

lemma hex_digits_fold:
  assumes "s \<noteq> []" "\<And>c. c \<in> set s \<Longrightarrow> hex_value c \<noteq> None"
  shows "hex_digits acc s = Some (foldl (\<lambda>a c. 16 * a + the (hex_value c)) acc s)"
  using assms
proof (induction s arbitrary: acc)
  case (Cons c cs)
  obtain v where v: "hex_value c = Some v" using Cons.prems by auto
  show ?case
  proof (cases cs)
    case Nil
    then show ?thesis by (simp add: v)
  next
    case (Cons c' cs')
    then have "c' \<noteq> CHR ''_''" using Cons.prems(2)[of c'] not_hex(1) by auto
    then show ?thesis using Cons Cons.IH[of "16 * acc + v"] Cons.prems v by simp
  qed
qed simp

lemma foldl_hexed:
  "foldl (\<lambda>a c. 16 * a + the (hex_value c)) acc (hexed w n) = 16 ^ w * acc + n mod 16 ^ w"
proof (induction w arbitrary: n)
  case (Suc w)
  have "n mod 16 ^ Suc w = 16 * (n div 16 mod 16 ^ w) + n mod 16"
    unfolding power_Suc by (rule mod_mult2_eq)
  then show ?case by (simp only: hexed.simps foldl_append Suc.IH) (simp add: algebra_simps)
qed simp

lemma strip_none: "(\<And>c. c \<in> set s \<Longrightarrow> \<not> P c) \<Longrightarrow> strip P s = s"
proof -
  assume none: "\<And>c. c \<in> set s \<Longrightarrow> \<not> P c"
  then have "dropWhile P s = s" by (cases s) auto
  moreover have "dropWhile P (rev s) = rev s"
    using none by (cases "rev s") (auto dest: arg_cong[of _ _ set])
  ultimately show ?thesis by (simp add: strip_def)
qed

lemma erase_none: "pat \<noteq> [] \<Longrightarrow> hd pat \<notin> set s \<Longrightarrow> erase pat 0 s = s"
proof (induction s)
  case (Cons c cs)
  then have "take (length pat) (c # cs) \<noteq> pat" by (cases pat) auto
  then show ?case using Cons by simp
qed simp

lemma int_base16_hexed:
  assumes "0 < w"
  shows "int_base16 (hexed w n) = Some (int (n mod 16 ^ w))"
proof -
  have hex: "hex_value c \<noteq> None" if "c \<in> set (hexed w n)" for c using hexed_hex[OF that] .
  obtain c cs where s: "hexed w n = c # cs" using assms by (cases "hexed w n") (auto dest: arg_cong[of _ _ length])
  have un: "unprefixed (hexed w n) = hexed w n"
    using hex not_hex(5,6) by (fastforce simp: unprefixed_def split: list.splits)
  have st: "strip is_space (hexed w n) = hexed w n" using hex not_hex(9) by (intro strip_none) blast
  have c: "c \<noteq> CHR ''-''" "c \<noteq> CHR ''+''" using hex[of c] s not_hex by auto
  have "hex_digits 0 (hexed w n) = Some (n mod 16 ^ w)"
    using hex_digits_fold[of "hexed w n" 0] hex s foldl_hexed[of 0 w n] by simp
  then show ?thesis using un st s c by (simp add: int_base16_def)
qed

lemma parse_uuid_text:
  assumes "u < 2 ^ 128"
  shows "parse_uuid (uuid_text u) = Some u"
proof -
  have mem: "hex_value c \<noteq> None \<or> c = CHR ''-''" if "c \<in> set (uuid_text u)" for c
    using that hexed_hex by (auto simp: uuid_text_def)
  have erased: "erase ''urn:'' 0 (uuid_text u) = uuid_text u" "erase ''uuid:'' 0 (uuid_text u) = uuid_text u"
    using mem[of "CHR ''u''"] not_hex(4) by (auto intro!: erase_none)
  have stripped: "strip (\<lambda>c. c = CHR 0x7B \<or> c = CHR 0x7D) (uuid_text u) = uuid_text u"
    using mem not_hex(7,8) by (intro strip_none) fastforce
  have keep: "filter (\<lambda>c. c \<noteq> CHR ''-'') (hexed w n) = hexed w n" for w n
    using hexed_hex not_hex(2) by (intro filter_True) fastforce
  have "hexed 32 u = hexed 8 (u div 16 ^ 24) @ hexed 4 (u div 16 ^ 20) @ hexed 4 (u div 16 ^ 16) @
      hexed 4 (u div 16 ^ 12) @ hexed 12 u"
    using hexed_add[of 8 24 u] hexed_add[of 4 20 u] hexed_add[of 4 16 u] hexed_add[of 4 12 u] by simp
  then have "filter (\<lambda>c. c \<noteq> CHR ''-'') (uuid_text u) = hexed 32 u"
    by (simp add: uuid_text_def keep)
  moreover have "int_base16 (hexed 32 u) = Some (int u)"
    using int_base16_hexed[of 32 u] assms by simp
  ultimately show ?thesis
    unfolding parse_uuid_def erased stripped Let_def using assms by simp
qed

end
