(* ===== verification/Series_Tasks.thy ===== *)
theory Series_Tasks
  imports Recurring_Series Heartbeat Uuids
begin

text \<open>
  \<open>bookings/tasks.py\<close>: the two background jobs over active series.  Rolling materialization
  creates the occurrences that have come within the advance horizon; re-materialization recomputes
  the future occurrences of a series whose recorded tzdata version is not the installed one.
  Series \<open>k\<close> of a run and turn \<open>i\<close> of its loop run in the environment \<open>envs k i\<close>.
\<close>

section \<open>Rolling materialization\<close>

record roll_findings =
  rl_extended :: nat
  rl_created :: nat
  rl_conflicts :: "(uuid \<times> date) list"

definition theoretical_last_date :: "recurring_series \<Rightarrow> date" where
  "theoretical_last_date s = se_start_date s + 7 * (se_count s - 1)"

fun roll_occurrences ::
  "(nat \<Rightarrow> env) \<Rightarrow> recurring_series \<Rightarrow> string \<Rightarrow> nat \<Rightarrow> occurrence list \<Rightarrow> (nat \<times> date list) svc" where
  "roll_occurrences envs s rid i [] = ret (0, [])"
| "roll_occurrences envs s rid i (oc # os) = (\<lambda>d.
     (case create_booking (envs i) (occurrence_request (se_resource s) (se_created_by s) (se_id s)
              rid Actor_system oc) d of
        (Inl SlotUnavailableError, d') \<Rightarrow>
          bind_svc (roll_occurrences envs s rid (Suc i) os) (\<lambda>(n, cf). ret (n, oc_date oc # cf)) d'
      | (Inl e, d') \<Rightarrow> (Inl e, d')
      | (Inr b, d') \<Rightarrow>
          bind_svc (roll_occurrences envs s rid (Suc i) os) (\<lambda>(n, cf). ret (Suc n, cf)) d'))"

definition to_materialize :: "instant \<Rightarrow> recurring_series \<Rightarrow> occurrence list \<Rightarrow> occurrence list" where
  "to_materialize cutoff s os =
     filter (\<lambda>oc. se_materialized_through s < oc_date oc \<and> oc_start oc \<le> cutoff) os"

definition roll_series ::
  "(nat \<Rightarrow> env) \<Rightarrow> instant \<Rightarrow> string \<Rightarrow> recurring_series \<Rightarrow> (nat \<times> date list) option svc" where
  "roll_series envs cutoff rid s =
     (if theoretical_last_date s \<le> se_materialized_through s then ret None
      else bind_svc (expand_in (envs 0) (se_timezone s) (se_local_start s) (se_local_end s)
                       (se_start_date s) (se_count s)) (\<lambda>os.
        case to_materialize cutoff s os of
          [] \<Rightarrow> ret None
        | due \<Rightarrow> bind_svc (roll_occurrences envs s rid 0 due) (\<lambda>(n, cf).
            then_svc (autocommit (envs (length due)) (update_series (envs (length due))
                (\<lambda>r. se_id r = se_id s)
                (\<lambda>r. r\<lparr> se_materialized_through := oc_date (last due) \<rparr>)))
              (ret (Some (n, cf))))))"

fun roll_all ::
  "(nat \<Rightarrow> nat \<Rightarrow> env) \<Rightarrow> instant \<Rightarrow> string \<Rightarrow> nat \<Rightarrow> recurring_series list \<Rightarrow> roll_findings
     \<Rightarrow> roll_findings svc" where
  "roll_all envs cutoff rid k [] acc = ret acc"
| "roll_all envs cutoff rid k (s # ss) acc =
     bind_svc (roll_series (envs k) cutoff rid s) (\<lambda>v.
       roll_all envs cutoff rid (Suc k) ss (case v of
           None \<Rightarrow> acc
         | Some (n, cf) \<Rightarrow> \<lparr> rl_extended = rl_extended acc + 1, rl_created = rl_created acc + n,
             rl_conflicts = rl_conflicts acc @ map (Pair (se_id s)) cf \<rparr>))"

definition roll_findings_json :: "roll_findings \<Rightarrow> json" where
  "roll_findings_json f = JObj [(''series_extended'', JNum (int (rl_extended f))),
     (''occurrences_created'', JNum (int (rl_created f))),
     (''conflicts'', JArr (map (\<lambda>(s, dt). JObj [(''series_id'', JStr (uuid_text s)),
        (''occurrence_date'', JStr (iso_date dt)), (''reason'', JStr ''slot_unavailable'')])
        (rl_conflicts f)))]"

definition active_series :: "db \<Rightarrow> recurring_series list" where
  "active_series d = filter (\<lambda>s. se_status s = Series_active) (series d)"

definition rolling_materialize_series :: "(nat \<Rightarrow> nat \<Rightarrow> env) \<Rightarrow> roll_findings svc" where
  "rolling_materialize_series envs =
     (let now = ev_py_now (envs 0 0); cutoff = now + MAX_ADVANCE_HORIZON_DAYS * day in
      bind_svc (query active_series) (\<lambda>ss.
      bind_svc (roll_all envs cutoff (ev_request_id (envs 0 0)) 0 ss
                  \<lparr> rl_extended = 0, rl_created = 0, rl_conflicts = [] \<rparr>) (\<lambda>f.
      then_svc (autocommit (envs (length ss) 0) (insert_check (envs (length ss) 0)
          \<lparr> cr_check = Series_materialization, cr_run_at = ev_db_now (envs (length ss) 0),
            cr_status = (if rl_conflicts f = [] then Check_pass else Check_fail),
            cr_findings = roll_findings_json f \<rparr>))
        (ret f))))"

section \<open>Re-materialization\<close>

text \<open>\<open>min(occurrences, key=...)\<close>: the first of the nearest occurrences.\<close>

definition distance :: "instant \<Rightarrow> occurrence \<Rightarrow> int" where
  "distance t oc = \<bar>oc_start oc - t\<bar>"

fun closest :: "instant \<Rightarrow> occurrence \<Rightarrow> occurrence list \<Rightarrow> occurrence" where
  "closest t best [] = best"
| "closest t best (oc # os) =
     closest t (if distance t oc < distance t best then oc else best) os"

datatype remat_outcome = Unaffected | Moved | Remat_conflict date

definition remat_edit :: "env \<Rightarrow> string \<Rightarrow> booking \<Rightarrow> occurrence \<Rightarrow> booking svc" where
  "remat_edit env rid b oc = edit_booking env \<lparr> eq_booking = b, eq_start = oc_start oc,
     eq_end = oc_end oc, eq_request_id = rid, eq_actor_type = Actor_system \<rparr>"

text \<open>The owner and the administrators of the resource; the source iterates over a set, whose order
  is not specified.\<close>

definition conflict_recipients :: "recurring_series \<Rightarrow> db \<Rightarrow> uuid list" where
  "conflict_recipients s d = remdups (se_created_by s #
     map ra_user (filter (\<lambda>a. ra_resource a = se_resource s) (admins d)))"

fun send_all :: "env \<Rightarrow> task list \<Rightarrow> unit svc" where
  "send_all env [] = ret ()"
| "send_all env (t # ts) = then_svc (send_now env t) (send_all env ts)"

definition rematerialize_booking ::
  "env \<Rightarrow> string \<Rightarrow> recurring_series \<Rightarrow> occurrence list \<Rightarrow> booking \<Rightarrow> remat_outcome svc" where
  "rematerialize_booking env rid s os b =
     (let oc = closest (lo (bk_range b)) (hd os) (tl os) in
      if 2 * day < distance (lo (bk_range b)) oc then ret Unaffected
      else if oc_start oc = lo (bk_range b) \<and> oc_end oc = hi (bk_range b) then ret Unaffected
      else (\<lambda>d. case remat_edit env rid b oc d of
          (Inl SlotUnavailableError, d') \<Rightarrow>
            then_svc (send_all env (map (\<lambda>u. notify_rematerialization_conflict u
                (resource_name (se_resource s) d') (iso_date (oc_date oc)) rid)
                (conflict_recipients s d')))
              (ret (Remat_conflict (oc_date oc))) d'
        | (Inl e, d') \<Rightarrow> (Inl e, d')
        | (Inr _, d') \<Rightarrow>
            then_svc (send_now env (notify_rematerialization (bk_user b)
                (resource_name (se_resource s) d') (lo (bk_range b)) (hi (bk_range b))
                (oc_start oc) (oc_end oc) rid))
              (ret Moved) d'))"

fun rematerialize_bookings ::
  "(nat \<Rightarrow> env) \<Rightarrow> string \<Rightarrow> recurring_series \<Rightarrow> occurrence list \<Rightarrow> nat \<Rightarrow> booking list
     \<Rightarrow> (uuid \<times> remat_outcome) list svc" where
  "rematerialize_bookings envs rid s os i [] = ret []"
| "rematerialize_bookings envs rid s os i (b # bs) =
     bind_svc (rematerialize_booking (envs i) rid s os b) (\<lambda>o1.
       bind_svc (rematerialize_bookings envs rid s os (Suc i) bs) (\<lambda>rest.
         ret ((bk_id b, o1) # rest)))"

fun is_conflict :: "remat_outcome \<Rightarrow> bool" where
  "is_conflict (Remat_conflict dt) = True"
| "is_conflict _ = False"

definition future_occurrences :: "instant \<Rightarrow> recurring_series \<Rightarrow> db \<Rightarrow> booking list" where
  "future_occurrences now s d = filter (\<lambda>b. bk_series b = Some (se_id s) \<and>
     bk_status b = Confirmed \<and> now \<le> bk_starts_at b) (bookings d)"

definition rematerialize_series ::
  "(nat \<Rightarrow> env) \<Rightarrow> instant \<Rightarrow> string \<Rightarrow> recurring_series \<Rightarrow> (uuid \<times> remat_outcome) list svc" where
  "rematerialize_series envs now rid s =
     bind_svc (expand_in (envs 0) (se_timezone s) (se_local_start s) (se_local_end s)
                 (se_start_date s) (se_count s)) (\<lambda>os.
     bind_svc (query (future_occurrences now s)) (\<lambda>bs.
     bind_svc (rematerialize_bookings envs rid s os 0 bs) (\<lambda>out.
       if list_ex (is_conflict \<circ> snd) out then ret out
       else then_svc (autocommit (envs (length bs)) (update_series (envs (length bs))
                (\<lambda>r. se_id r = se_id s)
                (\<lambda>r. r\<lparr> se_tzdata_version := ev_tzdata_version (envs 0) \<rparr>)))
              (ret out))))"

fun rematerialize_all ::
  "(nat \<Rightarrow> nat \<Rightarrow> env) \<Rightarrow> instant \<Rightarrow> string \<Rightarrow> nat \<Rightarrow> recurring_series list
     \<Rightarrow> (uuid \<times> (uuid \<times> remat_outcome) list) list svc" where
  "rematerialize_all envs now rid k [] = ret []"
| "rematerialize_all envs now rid k (s # ss) =
     bind_svc (rematerialize_series (envs k) now rid s) (\<lambda>out.
       bind_svc (rematerialize_all envs now rid (Suc k) ss) (\<lambda>rest.
         ret ((se_id s, out) # rest)))"

definition stale_series :: "string \<Rightarrow> db \<Rightarrow> recurring_series list" where
  "stale_series version d =
     filter (\<lambda>s. se_tzdata_version s \<noteq> version) (active_series d)"

definition remat_findings_json ::
  "string \<Rightarrow> (uuid \<times> (uuid \<times> remat_outcome) list) list \<Rightarrow> json" where
  "remat_findings_json version out =
     JObj [(''current_tzdata_version'', JStr version), (''series_checked'', JNum (int (length out))),
       (''occurrences_updated'', JNum (int (count_if (\<lambda>(b, r). r = Moved) (concat (map snd out))))),
       (''conflicts'', JArr (concat (map (\<lambda>(s, rs). concat (map (\<lambda>(b, r). case r of
           Remat_conflict dt \<Rightarrow> [JObj [(''series_id'', JStr (uuid_text s)),
              (''booking_id'', JStr (uuid_text b)), (''occurrence_date'', JStr (iso_date dt))]]
         | _ \<Rightarrow> []) rs)) out)))]"

definition rematerialize_stale_series ::
  "(nat \<Rightarrow> nat \<Rightarrow> env) \<Rightarrow> (uuid \<times> (uuid \<times> remat_outcome) list) list svc" where
  "rematerialize_stale_series envs =
     (let now = ev_py_now (envs 0 0); version = ev_tzdata_version (envs 0 0) in
      bind_svc (query (stale_series version)) (\<lambda>ss.
      bind_svc (rematerialize_all envs now (ev_request_id (envs 0 0)) 0 ss) (\<lambda>out.
      then_svc (autocommit (envs (length ss) 0) (insert_check (envs (length ss) 0)
          \<lparr> cr_check = Tzdata_rematerialization, cr_run_at = ev_db_now (envs (length ss) 0),
            cr_status = (if list_ex (\<lambda>(s, rs). list_ex (is_conflict \<circ> snd) rs) out
              then Check_fail else Check_pass),
            cr_findings = remat_findings_json version out \<rparr>))
        (ret out))))"

section \<open>Staleness\<close>

definition series_materialization_heartbeat_is_stale :: "instant \<Rightarrow> db \<Rightarrow> bool" where
  "series_materialization_heartbeat_is_stale now d =
     heartbeat_is_stale Series_materialization SERIES_MATERIALIZATION_STALE_THRESHOLD_SECONDS now d"

definition tzdata_rematerialization_heartbeat_is_stale :: "instant \<Rightarrow> db \<Rightarrow> bool" where
  "tzdata_rematerialization_heartbeat_is_stale now d =
     heartbeat_is_stale Tzdata_rematerialization TZDATA_REMATERIALIZATION_STALE_THRESHOLD_SECONDS now d"

section \<open>Safety\<close>

lemma keeps_create_then:
  assumes "keeps I m" "\<And>x. keeps I (f x)" "keeps I k"
  shows "keeps I (\<lambda>d. case m d of
      (Inl SlotUnavailableError, d') \<Rightarrow> k d'
    | (Inl e, d') \<Rightarrow> (Inl e, d')
    | (Inr x, d') \<Rightarrow> f x d')"
proof
  fix d assume d: "I d"
  obtain r d' where m: "m d = (r, d')" by (cases "m d")
  have d': "I d'" using keepsE[OF assms(1) d m] .
  show "I (snd (case m d of
      (Inl SlotUnavailableError, d') \<Rightarrow> k d'
    | (Inl e, d') \<Rightarrow> (Inl e, d')
    | (Inr x, d') \<Rightarrow> f x d'))"
    using m d' keepsD[OF assms(2) d'] keepsD[OF assms(3) d']
    by (auto split: sum.splits exn.splits)
qed

lemma safe_roll_occurrences [inv_intros]: "safe (roll_occurrences envs s rid i os)"
proof (induction os arbitrary: i)
  case (Cons oc os)
  have rest: "safe (bind_svc (roll_occurrences envs s rid (Suc i) os) (\<lambda>(n, cf). ret (f n cf)))"
    for f :: "nat \<Rightarrow> date list \<Rightarrow> nat \<times> date list"
    by (rule safe_bind[OF Cons.IH]) (auto intro: safe_ret)
  show ?case unfolding safe_def roll_occurrences.simps
    by (intro conjI keeps_create_then; rule safeD1 safeD2 safeD3; intro safe_booking_services rest)
qed (simp add: safe_ret)

lemma safe_roll_series [inv_intros]: "safe (roll_series envs cutoff rid s)"
  unfolding roll_series_def
  by (intro inv_intros)
    (auto intro!: inv_intros simp del: roll_occurrences.simps split: list.splits prod.splits)

lemma safe_roll_all [inv_intros]: "safe (roll_all envs cutoff rid k ss acc)"
  by (induction ss arbitrary: k acc) (auto intro!: inv_intros)

lemma safe_rolling [inv_intros]: "safe (rolling_materialize_series envs)"
  unfolding rolling_materialize_series_def Let_def by (intro inv_intros)

lemma safe_send_all [inv_intros]: "safe (send_all env ts)"
  by (induction ts) (simp_all only: send_all.simps safe_ret safe_then safe_send_now)

lemma safe_from_state: "(\<And>x. safe (m x)) \<Longrightarrow> safe (\<lambda>d. m (f d) d)"
  by (auto simp: safe_def keeps_def)

lemma safe_remat_edit [inv_intros]: "safe (remat_edit env rid b oc)"
  unfolding remat_edit_def by (intro inv_intros)

lemma safe_rematerialize_booking [inv_intros]: "safe (rematerialize_booking env rid s os b)"
proof -
  have notify: "safe (\<lambda>d'. then_svc (send_all env (f d')) (ret x) d')"
    "safe (\<lambda>d'. then_svc (send_now env (g d')) (ret x) d')" for f g and x :: remat_outcome
    by (rule safe_from_state, rule safe_then, rule safe_send_all safe_send_now, rule safe_ret)+
  show ?thesis unfolding rematerialize_booking_def Let_def
    by (intro safe_if safe_ret) (unfold safe_def, intro conjI keeps_create_then;
      rule safeD1 safeD2 safeD3; intro safe_remat_edit notify)
qed

lemma safe_rematerialize_bookings [inv_intros]: "safe (rematerialize_bookings envs rid s os i bs)"
  by (induction bs arbitrary: i) (auto intro!: inv_intros)

lemma safe_rematerialize_series [inv_intros]: "safe (rematerialize_series envs now rid s)"
  unfolding rematerialize_series_def by (intro inv_intros)

lemma safe_rematerialize_all [inv_intros]: "safe (rematerialize_all envs now rid k ss)"
  by (induction ss arbitrary: k) (auto intro!: inv_intros)

lemma safe_remat [inv_intros]: "safe (rematerialize_stale_series envs)"
  unfolding rematerialize_stale_series_def Let_def by (intro inv_intros)

end
