(* ===== verification/Series_Properties.thy ===== *)
theory Series_Properties
  imports Series_Tasks Booking_Properties
begin

text \<open>
  What the recurring series guarantee: the wall clock of every occurrence, the agreement of preview
  and confirm, the life of the preview token, and what the two background jobs do to occurrences.
\<close>

section \<open>Expansion\<close>


text \<open>Berlin time around the spring change of 2026 (29 March, 01:00 UTC): weekly at 02:30.\<close>

definition demo_zone :: zone where
  "demo_zone = \<lparr> zn_before = hour, zn_transitions = [(20541 * day + hour, 2 * hour),
     (20751 * day + hour, hour)] \<rparr>"


text \<open>Only the start is examined: an occurrence whose end falls into a skipped hour is not
  disclosed, although its end is not at the requested local time.\<close>

theorem skipped_end_is_not_disclosed:
  assumes "\<not> is_nonexistent_local_time (combine d s) z" "\<not> is_ambiguous_local_time (combine d s) z"
    and "is_nonexistent_local_time (combine d e) z"
  shows "oc_adjustment (materialize_occurrence d s e z) = None \<and>
    from_utc z (oc_end (materialize_occurrence d s e z)) \<noteq> combine d e"
  using assms materialize_plain(2)[OF assms(1), of e]
  by (simp add: materialize_occurrence_def Let_def is_nonexistent_local_time_def)

theorem skipped_end_is_not_disclosed_witness:
  "oc_adjustment (materialize_occurrence 20541 hour (2 * hour + 30 * minute) demo_zone) = None \<and>
   from_utc demo_zone (oc_end (materialize_occurrence 20541 hour (2 * hour + 30 * minute) demo_zone))
     \<noteq> combine 20541 (2 * hour + 30 * minute)"
  by (rule skipped_end_is_not_disclosed; code_simp)

section \<open>Occurrences of one series are disjoint\<close>

definition moderate_gaps :: "zone \<Rightarrow> bool" where
  "moderate_gaps z = (\<forall>w. transition_gap w z \<le> 2 * day)"

lemma to_utc_far:
  assumes "zone_ok z" "moderate_gaps z" "w + 2 * day < w'"
  shows "to_utc z False w < to_utc z False w'"
proof (cases "in_gap z w")
  case True
  have "transition_gap w z \<le> 2 * day" using assms(2) by (simp add: moderate_gaps_def)
  then show ?thesis
    using to_utc_mono[OF assms(1) _ gap_shift(1)[OF assms(1) True], of w'] gap_shift(2)[OF assms(1) True] assms(3)
    by simp
next
  case False
  then show ?thesis using to_utc_mono[OF assms(1) _ False, of w'] assms(3) by simp
qed

lemma weekly_disjoint:
  assumes "zone_ok z" "moderate_gaps z" "0 \<le> s" "e < day" "i < j"
  shows "oc_end (materialize_occurrence (d + 7 * int i) s e z)
    < oc_start (materialize_occurrence (d + 7 * int j) s e z)"
proof -
  have "\<exists>g \<le> 2 * day. oc_end (materialize_occurrence (d + 7 * int i) s e z)
      = to_utc z False (combine (d + 7 * int i) e + g)"
    using assms(2) materialize_plain(2)[of "d + 7 * int i" s z e] materialize_gap(2)[of "d + 7 * int i" s z e]
    by (cases "is_nonexistent_local_time (combine (d + 7 * int i) s) z")
      (auto simp: moderate_gaps_def intro: exI[of _ 0])
  then obtain g where g: "g \<le> 2 * day" "oc_end (materialize_occurrence (d + 7 * int i) s e z)
      = to_utc z False (combine (d + 7 * int i) e + g)" by blast
  have "\<exists>h \<ge> 0. oc_start (materialize_occurrence (d + 7 * int j) s e z)
      = to_utc z False (combine (d + 7 * int j) s + h)"
    using materialize_plain(1)[of "d + 7 * int j" s z e] materialize_gap(1)[of "d + 7 * int j" s z e]
      transition_gap_pos[OF assms(1)] nonexistent_iff_gap[OF assms(1)]
    by (cases "is_nonexistent_local_time (combine (d + 7 * int j) s) z")
      (auto intro: exI[of _ 0] less_imp_le)
  then obtain h where h: "0 \<le> h" "oc_start (materialize_occurrence (d + 7 * int j) s e z)
      = to_utc z False (combine (d + 7 * int j) s + h)" by blast
  have "int i + 1 \<le> int j" using assms(5) by simp
  then have "combine (d + 7 * int i) e + g + 2 * day < combine (d + 7 * int j) s + h"
    using g(1) h(1) assms(3,4) by (simp add: combine_def algebra_simps)
  then show ?thesis using to_utc_far[OF assms(1,2)] g(2) h(2) by simp
qed

lemma expanded_disjoint:
  assumes "zone_ok z" "moderate_gaps z" "0 \<le> s" "s < e" "e < day" "expand_occurrences z s e d n = Inr os"
  shows "sorted_wrt (\<lambda>a b. oc_end a \<le> oc_start b) os" "\<And>oc. oc \<in> List.set os \<Longrightarrow> oc_start oc < oc_end oc"
proof -
  have os: "os = map (\<lambda>i. materialize_occurrence (d + 7 * int i) s e z) [0..<nat n]"
    using assms(6) by (simp add: expand_Inr_iff)
  show "sorted_wrt (\<lambda>a b. oc_end a \<le> oc_start b) os"
    unfolding os sorted_wrt_map
    by (rule sorted_wrt_mono_rel[OF _ sorted_wrt_upt[of 0 "nat n"]])
      (use weekly_disjoint[OF assms(1,2,3,5)] in \<open>auto intro: less_imp_le\<close>)
  show "oc_start oc < oc_end oc" if "oc \<in> List.set os" for oc
    using that materialize_ordered[OF assms(1,4)] by (auto simp: os)
qed


section \<open>The confirm loop\<close>

definition unheld :: "uuid \<Rightarrow> db \<Rightarrow> bool" where
  "unheld res d = list_all (\<lambda>b. bk_resource b = res \<longrightarrow> bk_status b \<noteq> Held) (bookings d)"

definition attempted :: "uuid \<Rightarrow> date list \<Rightarrow> db \<Rightarrow> occurrence \<Rightarrow> bool" where
  "attempted res known d oc = (oc_date oc \<notin> List.set known \<and> \<not> occurrence_taken res (bookings d) oc)"

definition row_of :: "uuid \<Rightarrow> uuid \<Rightarrow> uuid \<Rightarrow> booking \<Rightarrow> occurrence \<Rightarrow> bool" where
  "row_of res user ser b oc = (bk_resource b = res \<and> bk_user b = user \<and> bk_series b = Some ser \<and>
     bk_status b = Confirmed \<and> bk_range b = TR (oc_start oc) (oc_end oc))"

lemma occurrence_request_simps [simp]:
  "cq_resource (occurrence_request res user ser rid ty oc) = res"
  "cq_user (occurrence_request res user ser rid ty oc) = user"
  "cq_start (occurrence_request res user ser rid ty oc) = oc_start oc"
  "cq_end (occurrence_request res user ser rid ty oc) = oc_end oc"
  "cq_series (occurrence_request res user ser rid ty oc) = Some ser"
  "cq_actor_type (occurrence_request res user ser rid ty oc) = ty"
  "cq_status (occurrence_request res user ser rid ty oc) = Confirmed"
  by (simp_all add: occurrence_request_def)

text \<open>Where the resource has no holds, an occurrence is created exactly when it is free.\<close>

lemma create_occurrence:
  assumes "healthy env" "idle d" "db_ok d" "unheld res d" "oc_start oc < oc_end oc"
    and "fresh_booking_id env d" "res \<in> List.set (map rs_id (resources d))"
    and "user \<in> List.set (map au_id (users d))" "ser \<in> List.set (map se_id (series d))"
  shows "create_booking env (occurrence_request res user ser rid ty oc) d =
    (if occurrence_taken res (bookings d) oc then (Inl SlotUnavailableError, d)
     else (Inr (created env (occurrence_request res user ser rid ty oc)),
           after_create env (occurrence_request res user ser rid ty oc) d)) \<and>
    bookings (after_create env (occurrence_request res user ser rid ty oc) d)
      = bookings d @ [created env (occurrence_request res user ser rid ty oc)]"
proof -
  let ?req = "occurrence_request res user ser rid ty oc"
  have none: "\<not> reclaimable env res (TR (oc_start oc) (oc_end oc)) b" if "b \<in> List.set (bookings d)" for b
    using that assms(4) by (auto simp: unheld_def list_all_iff reclaimable_def)
  have "blocked env ?req d = occurrence_taken res (bookings d) oc"
    using none by (auto simp: blocked_def occurrence_taken_def list_ex_iff active_status_def
        overlaps_sym[of "TR (oc_start oc) (oc_end oc)"])
  moreover have "\<not> offer_on_reclaimed env ?req d"
    using none by (auto simp: offer_on_reclaimed_def list_ex_iff)
  moreover have "survivors env ?req d = bookings d"
    using none by (simp add: survivors_def del_rows_none list_all_iff)
  moreover have "references_exist ?req d" using assms(7-9) by (simp add: references_exist_def)
  ultimately show ?thesis
    using create_booking_cases[of env d ?req] assms(1,2,3,5,6) by (simp add: after_create_def)
qed

lemma after_create_frame [simp]:
  "resources (after_create env req d) = resources d" "users (after_create env req d) = users d"
  "series (after_create env req d) = series d" "idle (after_create env req d) = idle d"
  by (simp_all add: after_create_def idle_def)

lemma taken_append_disjoint:
  assumes "row_of res user ser b oc" "oc_end oc \<le> oc_start oc'"
  shows "occurrence_taken res (bs @ [b]) oc' = occurrence_taken res bs oc'"
  using assms by (auto simp: occurrence_taken_def row_of_def overlaps_def)

lemma confirm_loop_eq:
  assumes "\<And>j. healthy (envs j)" "idle d" "db_ok d" "unheld res d"
    and "sorted_wrt (\<lambda>a b. oc_end a \<le> oc_start b) os" "\<And>oc. oc \<in> List.set os \<Longrightarrow> oc_start oc < oc_end oc"
    and "\<And>j. i \<le> j \<Longrightarrow> fresh_booking_id (envs j) d" "\<And>j k. j \<noteq> k \<Longrightarrow> ev_uuid (envs j) \<noteq> ev_uuid (envs k)"
    and "res \<in> List.set (map rs_id (resources d))" "user \<in> List.set (map au_id (users d))"
    and "ser \<in> List.set (map se_id (series d))"
  shows "\<exists>cr cf d' new. confirm_loop envs res user ser rid known i os d = (Inr (cr, cf), d') \<and>
    map snd cr = map occurrence_item (filter (attempted res known d) os) \<and>
    cf = map (\<lambda>oc. (oc_date oc, oc_date oc \<in> List.set known)) (filter (\<lambda>oc. \<not> attempted res known d oc) os) \<and>
    bookings d' = bookings d @ new \<and> map bk_id new = map fst cr \<and>
    list_all2 (row_of res user ser) new (filter (attempted res known d) os) \<and> series d' = series d"
  using assms(2-)
proof (induction os arbitrary: d i)
  case Nil
  then show ?case by auto
next
  case (Cons oc os)
  have proper: "oc_start oc < oc_end oc" using Cons.prems(5) by simp
  show ?case
  proof (cases "attempted res known d oc")
    case False
    have "\<exists>cr cf d' new. confirm_loop envs res user ser rid known (Suc i) os d = (Inr (cr, cf), d') \<and>
      map snd cr = map occurrence_item (filter (attempted res known d) os) \<and>
      cf = map (\<lambda>oc. (oc_date oc, oc_date oc \<in> List.set known)) (filter (\<lambda>oc. \<not> attempted res known d oc) os) \<and>
      bookings d' = bookings d @ new \<and> map bk_id new = map fst cr \<and>
      list_all2 (row_of res user ser) new (filter (attempted res known d) os) \<and> series d' = series d"
      by (rule Cons.IH) (use Cons.prems in auto)
    then obtain cr cf d' new where IH: "confirm_loop envs res user ser rid known (Suc i) os d = (Inr (cr, cf), d')"
      "map snd cr = map occurrence_item (filter (attempted res known d) os)"
      "cf = map (\<lambda>oc. (oc_date oc, oc_date oc \<in> List.set known)) (filter (\<lambda>oc. \<not> attempted res known d oc) os)"
      "bookings d' = bookings d @ new" "map bk_id new = map fst cr"
      "list_all2 (row_of res user ser) new (filter (attempted res known d) os)" "series d' = series d"
      by blast
    have "confirm_loop envs res user ser rid known i (oc # os) d
        = (Inr (cr, (oc_date oc, oc_date oc \<in> List.set known) # cf), d')"
    proof (cases "oc_date oc \<in> List.set known")
      case True
      then show ?thesis using IH(1) by simp
    next
      case notknown: False
      then have "occurrence_taken res (bookings d) oc" using False by (simp add: attempted_def)
      then have "create_booking (envs i) (occurrence_request res user ser rid Actor_user oc) d = (Inl SlotUnavailableError, d)"
        using create_occurrence[OF assms(1) Cons.prems(1,2,3) proper Cons.prems(6)[OF order_refl] Cons.prems(8,9,10)]
        by simp
      then show ?thesis using IH(1) notknown by simp
    qed
    then show ?thesis
      using IH(2-7) False by (intro exI[of _ cr] exI[of _ "(oc_date oc, oc_date oc \<in> List.set known) # cf"]
          exI[of _ d'] exI[of _ new]) simp
  next
    case True
    let ?req = "occurrence_request res user ser rid Actor_user oc" and ?b = "created (envs i) (occurrence_request res user ser rid Actor_user oc)"
    let ?d1 = "after_create (envs i) ?req d"
    have c: "create_booking (envs i) ?req d = (Inr ?b, ?d1)" "bookings ?d1 = bookings d @ [?b]"
      using True create_occurrence[OF assms(1) Cons.prems(1,2,3) proper Cons.prems(6)[OF order_refl] Cons.prems(8,9,10),
          of rid Actor_user]
      by (auto simp: attempted_def)
    have row: "row_of res user ser ?b oc" by (simp add: row_of_def)
    have later: "attempted res known ?d1 oc' = attempted res known d oc'" if "oc' \<in> List.set os" for oc'
      using that Cons.prems(4) taken_append_disjoint[OF row] c(2) by (simp add: attempted_def)
    have p1: "idle ?d1" "db_ok ?d1" "unheld res ?d1"
      using Cons.prems(1) db_ok_create[OF Cons.prems(2) c(1)] Cons.prems(3) c(2) by (simp_all add: unheld_def)
    have p2: "fresh_booking_id (envs j) ?d1" if "Suc i \<le> j" for j
      using Cons.prems(6)[of j] Cons.prems(7)[of i j] that c(2) by (simp add: fresh_booking_id_def)
    have "\<exists>cr cf d' new. confirm_loop envs res user ser rid known (Suc i) os ?d1 = (Inr (cr, cf), d') \<and>
      map snd cr = map occurrence_item (filter (attempted res known ?d1) os) \<and>
      cf = map (\<lambda>oc. (oc_date oc, oc_date oc \<in> List.set known)) (filter (\<lambda>oc. \<not> attempted res known ?d1 oc) os) \<and>
      bookings d' = bookings ?d1 @ new \<and> map bk_id new = map fst cr \<and>
      list_all2 (row_of res user ser) new (filter (attempted res known ?d1) os) \<and> series d' = series ?d1"
      by (rule Cons.IH[OF p1 _ _ p2]) (use Cons.prems in auto)
    moreover have "filter (attempted res known ?d1) os = filter (attempted res known d) os"
      "filter (\<lambda>oc. \<not> attempted res known ?d1 oc) os = filter (\<lambda>oc. \<not> attempted res known d oc) os"
      using later by (auto intro: filter_cong)
    ultimately obtain cr cf d' new where IH:
      "confirm_loop envs res user ser rid known (Suc i) os ?d1 = (Inr (cr, cf), d')"
      "map snd cr = map occurrence_item (filter (attempted res known d) os)"
      "cf = map (\<lambda>oc. (oc_date oc, oc_date oc \<in> List.set known)) (filter (\<lambda>oc. \<not> attempted res known d oc) os)"
      "bookings d' = bookings ?d1 @ new" "map bk_id new = map fst cr"
      "list_all2 (row_of res user ser) new (filter (attempted res known d) os)" "series d' = series ?d1"
      by auto
    have "oc_date oc \<notin> List.set known" using True by (simp add: attempted_def)
    then have "confirm_loop envs res user ser rid known i (oc # os) d
        = (Inr ((bk_id ?b, oc_date oc, oc_start oc, oc_end oc) # cr, cf), d')"
      using c(1) IH(1) by simp
    then show ?thesis
      using IH(2-7) True c(2) row
      by (intro exI[of _ "(bk_id ?b, oc_date oc, oc_start oc, oc_end oc) # cr"] exI[of _ cf]
          exI[of _ d'] exI[of _ "?b # new"]) (simp add: occurrence_item_def)
  qed
qed


section \<open>Preview and confirm agree\<close>

lemma preview_Inr:
  assumes "preview_recurring_series encode env req d = (Inr p, d')" "ev_zone env (pq_timezone req) = Some z"
  obtains os where "d' = d" "expand_occurrences z (pq_local_start req) (pq_local_end req) (pq_start_date req) (pq_count req) = Inr os"
    "pr_would_create p = map occurrence_item (filter (\<lambda>oc. oc_date oc \<notin> List.set (occurrence_conflicts (pq_resource req) os d)) os)"
    "pr_conflicts p = map occurrence_item (filter (\<lambda>oc. oc_date oc \<in> List.set (occurrence_conflicts (pq_resource req) os d)) os)"
    "oc_start (last os) \<le> ev_py_now env + 365 * day"
    "pr_token p = issue_preview_token encode env req (occurrence_conflicts (pq_resource req) os d)
       (map oc_date (filter (\<lambda>oc. oc_adjustment oc \<noteq> None) os))"
  using assms
  by (auto simp: preview_recurring_series_def expand_in_def bind_svc_def Let_def MAX_ADVANCE_HORIZON_DAYS_def
      split: sum.splits if_splits)

lemma insert_series_eq:
  assumes "healthy env" "idle d" "db_ok d" "series_row_ok s"
    and "list_all (\<lambda>r. se_id r \<noteq> se_id s) (series d)"
    and "se_resource s \<in> List.set (map rs_id (resources d))" "se_created_by s \<in> List.set (map au_id (users d))"
  shows "autocommit env (insert_series env s) d = (Inr s, d\<lparr> series := series d @ [s] \<rparr>)"
    and "db_ok (d\<lparr> series := series d @ [s] \<rparr>)"
proof -
  have ok: "tables_ok d" "fk_ok d" "\<not> in_tx d" using assms(2,3) by (auto simp: db_ok_def idle_def)
  have "check_series s (series (begin_tx d)) = None"
    using assms(4,5) by (auto simp: check_series_def list_all_iff list_ex_iff)
  then have ins: "insert_series env s (begin_tx d) = (Inr s, (begin_tx d)\<lparr> series := series d @ [s] \<rparr>)"
    using assms(1) by (simp add: insert_series_def set.insert_ok log_eqs)
  have "fk_ok ((begin_tx d)\<lparr> series := series d @ [s] \<rparr>)"
    using ok(2) assms(6,7) by (auto simp: fk_ok_def list_all_iff elim!: opt_all.elims)
  then show run: "autocommit env (insert_series env s) d = (Inr s, d\<lparr> series := series d @ [s] \<rparr>)"
    using ins ok(3) assms(1,2) unfolding autocommit_def
    by (subst atomic_run) (auto intro!: db.equality simp: idle_def)
  have "keeps tx_ok (insert_series env s)" by (intro inv_intros)
  then show "db_ok (d\<lparr> series := series d @ [s] \<rparr>)"
    using keepsE[OF safeD2[OF safe_autocommit] assms(3) run] by blast
qed

text \<open>C25: a confirm on an unchanged database creates exactly what the preview promised: one
  confirmed booking, in the new series, for every occurrence the preview would create, none for
  the conflicts it reported, which come back as acknowledged, and no other row.\<close>

theorem confirm_creates_what_the_preview_promised:
  assumes "\<And>j. healthy (envs j)" "\<And>j k. j \<noteq> k \<Longrightarrow> ev_uuid (envs j) \<noteq> ev_uuid (envs k)"
    and "\<And>j. fresh_booking_id (envs j) d" "list_all (\<lambda>r. se_id r \<noteq> ev_uuid (envs 0)) (series d)"
    and "idle d" "db_ok d" "unheld (pq_resource req) d"
    and "pq_resource req \<in> List.set (map rs_id (resources d))" "pq_user req \<in> List.set (map au_id (users d))"
    and "ev_zone env (pq_timezone req) = Some z" "ev_zone (envs 0) (pq_timezone req) = Some z"
    and "zone_ok z" "moderate_gaps z"
    and "0 \<le> pq_local_start req" "pq_local_start req < pq_local_end req" "pq_local_end req < day"
    and "0 \<le> pq_weekday req" "pq_weekday req \<le> 6"
    and "preview_recurring_series encode env req d = (Inr p, d)"
    and "c = preview_claims_of env req (map fst (pr_conflicts p)) adj"
  shows "\<exists>out d' new. confirm_recurring_series envs (pq_user req) c rid d = (Inr out, d') \<and>
    map snd (co_created out) = pr_would_create p \<and>
    co_conflicts out = map (\<lambda>x. (fst x, True)) (pr_conflicts p) \<and>
    bookings d' = bookings d @ new \<and> map bk_id new = map fst (co_created out) \<and>
    list_all2 (\<lambda>b (dt, s, e). bk_range b = TR s e \<and> bk_status b = Confirmed \<and> bk_user b = pq_user req \<and>
      bk_resource b = pq_resource req \<and> bk_series b = Some (co_series out)) new (pr_would_create p)"
proof -
  obtain os where os: "expand_occurrences z (pq_local_start req) (pq_local_end req) (pq_start_date req) (pq_count req) = Inr os"
    "pr_would_create p = map occurrence_item (filter (\<lambda>oc. oc_date oc \<notin> List.set (occurrence_conflicts (pq_resource req) os d)) os)"
    "pr_conflicts p = map occurrence_item (filter (\<lambda>oc. oc_date oc \<in> List.set (occurrence_conflicts (pq_resource req) os d)) os)"
    using preview_Inr[OF assms(19,10)] by metis
  have cnt: "1 \<le> pq_count req" "pq_count req \<le> 100" using os(1) by (auto simp: expand_Inr_iff)
  have claims: "pc_resource c = pq_resource req" "pc_timezone c = pq_timezone req" "pc_local_start c = pq_local_start req"
    "pc_local_end c = pq_local_end req" "pc_weekday c = pq_weekday req" "pc_start_date c = pq_start_date req"
    "pc_count c = pq_count req" "pc_conflicts c = date_set (map fst (pr_conflicts p))"
    by (simp_all add: assms(20) preview_claims_of_def Let_def)
  have known: "x \<in> List.set (pc_conflicts c) \<longleftrightarrow> x \<in> List.set (occurrence_conflicts (pq_resource req) os d)" for x
    by (auto simp: claims date_set_def os(3) occurrence_item_def occurrence_conflicts_def image_iff)
  let ?s = "new_series (envs 0) c (pq_user req) (oc_date (last os))"
  let ?d1 = "d\<lparr> series := series d @ [?s] \<rparr>"
  have row: "series_row_ok ?s" using assms(14-18) cnt by (simp add: series_row_ok_def new_series_def claims)
  have ins: "autocommit (envs 0) (insert_series (envs 0) ?s) d = (Inr ?s, ?d1)" "db_ok ?d1"
    using insert_series_eq[OF assms(1)[of 0] assms(5,6) row] assms(4,8,9) by (simp_all add: new_series_def claims)
  note dis = expanded_disjoint[OF assms(12,13,14,15,16) os(1)]
  have "\<exists>cr cf d' new. confirm_loop envs (pq_resource req) (pq_user req) (ev_uuid (envs 0)) rid (pc_conflicts c) 1 os ?d1
        = (Inr (cr, cf), d') \<and>
      map snd cr = map occurrence_item (filter (attempted (pq_resource req) (pc_conflicts c) ?d1) os) \<and>
      cf = map (\<lambda>oc. (oc_date oc, oc_date oc \<in> List.set (pc_conflicts c)))
        (filter (\<lambda>oc. \<not> attempted (pq_resource req) (pc_conflicts c) ?d1 oc) os) \<and>
      bookings d' = bookings ?d1 @ new \<and> map bk_id new = map fst cr \<and>
      list_all2 (row_of (pq_resource req) (pq_user req) (ev_uuid (envs 0))) new
        (filter (attempted (pq_resource req) (pc_conflicts c) ?d1) os) \<and> series d' = series ?d1"
    by (rule confirm_loop_eq[OF assms(1) _ ins(2) _ dis])
      (use assms(2,3,5,7,8,9) in \<open>auto simp: idle_def unheld_def fresh_booking_id_def new_series_def\<close>)
  then obtain cr cf d' new where loop:
    "confirm_loop envs (pq_resource req) (pq_user req) (ev_uuid (envs 0)) rid (pc_conflicts c) 1 os ?d1 = (Inr (cr, cf), d')"
    "map snd cr = map occurrence_item (filter (attempted (pq_resource req) (pc_conflicts c) ?d1) os)"
    "cf = map (\<lambda>oc. (oc_date oc, oc_date oc \<in> List.set (pc_conflicts c)))
      (filter (\<lambda>oc. \<not> attempted (pq_resource req) (pc_conflicts c) ?d1 oc) os)"
    "bookings d' = bookings d @ new" "map bk_id new = map fst cr"
    "list_all2 (row_of (pq_resource req) (pq_user req) (ev_uuid (envs 0))) new
      (filter (attempted (pq_resource req) (pc_conflicts c) ?d1) os)"
    by auto
  have att: "attempted (pq_resource req) (pc_conflicts c) ?d1 oc
      \<longleftrightarrow> oc_date oc \<notin> List.set (occurrence_conflicts (pq_resource req) os d)" if "oc \<in> List.set os" for oc
    using that known by (auto simp: attempted_def occurrence_conflicts_def)
  have flt: "filter (attempted (pq_resource req) (pc_conflicts c) ?d1) os
      = filter (\<lambda>oc. oc_date oc \<notin> List.set (occurrence_conflicts (pq_resource req) os d)) os"
    "filter (\<lambda>oc. \<not> attempted (pq_resource req) (pc_conflicts c) ?d1 oc) os
      = filter (\<lambda>oc. oc_date oc \<in> List.set (occurrence_conflicts (pq_resource req) os d)) os"
    using att by (auto intro: filter_cong)
  obtain r where r: "find (\<lambda>r. rs_id r = pq_resource req) (resources d) = Some r"
    using assms(8) by (cases "find (\<lambda>r. rs_id r = pq_resource req) (resources d)") (auto simp: find_None_iff)
  have run: "confirm_recurring_series envs (pq_user req) c rid d
      = (Inr \<lparr> co_series = ev_uuid (envs 0), co_created = cr, co_conflicts = cf \<rparr>, d')"
    using r ins(1) loop(1) os(1) assms(11)
    by (simp add: confirm_recurring_series_def claims expand_in_def then_svc_Inr[OF get_row_Some])
  have cf: "cf = map (\<lambda>x. (fst x, True)) (pr_conflicts p)"
    unfolding loop(3) flt os(3) using known by (auto simp: occurrence_item_def)
  have rows: "list_all2 (\<lambda>b (dt, s, e). bk_range b = TR s e \<and> bk_status b = Confirmed \<and> bk_user b = pq_user req \<and>
      bk_resource b = pq_resource req \<and> bk_series b = Some (ev_uuid (envs 0))) new (pr_would_create p)"
    using loop(6) unfolding flt os(2) by (auto simp: list_all2_map2 row_of_def occurrence_item_def elim!: list_all2_mono)
  show ?thesis
    using run loop(2,4,5) cf rows flt os(2) by (intro exI conjI) (assumption | simp)+
qed


definition demo_preview :: preview_request where
  "demo_preview = \<lparr> pq_user = 1, pq_resource = 10, pq_timezone = ''UTC'', pq_local_start = 9 * hour,
     pq_local_end = 10 * hour, pq_weekday = 3, pq_start_date = 0, pq_count = 2 \<rparr>"

definition demo_taken :: db where
  "demo_taken = demo_db [demo_booking 5 2 (TR (7 * day + 9 * hour) (7 * day + 11 * hour)) Confirmed None] [] []"

definition demo_preview_result :: preview_result where
  "demo_preview_result = \<lparr> pr_token = ''token'', pr_resource = 10, pr_tzdata_version = ''2026.3'',
     pr_would_create = [(0, 9 * hour, 10 * hour)],
     pr_conflicts = [(7, 7 * day + 9 * hour, 7 * day + 10 * hour)], pr_adjustments = [] \<rparr>"

lemma demo_preview_run:
  "preview_recurring_series (\<lambda>_. ''token'') (demo_env 0 1) demo_preview demo_taken
     = (Inr demo_preview_result, demo_taken)"
proof -
  have "fst (preview_recurring_series (\<lambda>_. ''token'') (demo_env 0 1) demo_preview demo_taken)
      = Inr demo_preview_result"
    by code_simp
  then obtain d' where run: "preview_recurring_series (\<lambda>_. ''token'') (demo_env 0 1) demo_preview demo_taken
      = (Inr demo_preview_result, d')"
    by (metis prod.collapse)
  have "ev_zone (demo_env 0 1) (pq_timezone demo_preview) = Some \<lparr> zn_before = 0, zn_transitions = [] \<rparr>"
    by (simp add: demo_env_def)
  from preview_Inr[OF run this] have "d' = demo_taken" by blast
  then show ?thesis using run by simp
qed

theorem confirm_creates_what_the_preview_promised_witness:
  "\<exists>out d' new. confirm_recurring_series (\<lambda>j. demo_env 0 (50 + j)) 1
      (preview_claims_of (demo_env 0 1) demo_preview (map fst (pr_conflicts demo_preview_result)) []) ''r'' demo_taken
      = (Inr out, d') \<and>
    map snd (co_created out) = [(0, 9 * hour, 10 * hour)] \<and> co_conflicts out = [(7, True)] \<and>
    bookings d' = bookings demo_taken @ new \<and> length new = 1"
proof -
  let ?z = "\<lparr> zn_before = 0, zn_transitions = [] \<rparr>" and ?e = "\<lambda>j. demo_env 0 (50 + j)"
  have z: "zone_ok ?z" "moderate_gaps ?z"
    by (simp_all add: zone_ok_def moderate_gaps_def transition_gap_def to_utc_def)
  have p: "idle demo_taken" "db_ok demo_taken" "unheld (pq_resource demo_preview) demo_taken"
    "pq_resource demo_preview \<in> List.set (map rs_id (resources demo_taken))"
    "pq_user demo_preview \<in> List.set (map au_id (users demo_taken))"
    by (code_simp | simp add: demo_taken_def demo_preview_def demo_simps unheld_def)+
  have q: "fresh_booking_id (?e j) demo_taken" "ev_zone (?e j) (pq_timezone demo_preview) = Some ?z"
    "list_all (\<lambda>r. se_id r \<noteq> ev_uuid (?e 0)) (series demo_taken)" "j \<noteq> k \<Longrightarrow> ev_uuid (?e j) \<noteq> ev_uuid (?e k)" for j k
    by (simp_all add: demo_taken_def demo_preview_def demo_simps fresh_booking_id_def)
  have w: "0 \<le> pq_local_start demo_preview" "pq_local_start demo_preview < pq_local_end demo_preview"
    "pq_local_end demo_preview < day" "0 \<le> pq_weekday demo_preview" "pq_weekday demo_preview \<le> 6"
    "ev_zone (demo_env 0 1) (pq_timezone demo_preview) = Some ?z"
    by (simp_all add: demo_preview_def demo_env_def)
  from confirm_creates_what_the_preview_promised[where envs = ?e, OF healthy_demo q(4) q(1) q(3) p(1-5) w(6)
      q(2)[of 0] z w(1-5) demo_preview_run refl, of "[]" "''r''"]
  obtain out d' new where out: "confirm_recurring_series ?e (pq_user demo_preview)
      (preview_claims_of (demo_env 0 1) demo_preview (map fst (pr_conflicts demo_preview_result)) []) ''r'' demo_taken
      = (Inr out, d')" "map snd (co_created out) = pr_would_create demo_preview_result"
    "co_conflicts out = map (\<lambda>x. (fst x, True)) (pr_conflicts demo_preview_result)"
    "bookings d' = bookings demo_taken @ new" "map bk_id new = map fst (co_created out)"
    by blast
  have "length new = length (co_created out)" using arg_cong[OF out(5), of length] by simp
  also have "\<dots> = 1" using arg_cong[OF out(2), of length] by (simp add: demo_preview_result_def)
  finally show ?thesis
    using out by (auto simp: demo_preview_def demo_preview_result_def)
qed


section \<open>The token\<close>

text \<open>A preview token gives its user, and nobody else, back exactly the series that was
  previewed, with the same sets of conflicts and adjustments, for fifteen minutes; then, and for
  any other user, it is \<open>preview_expired\<close>.\<close>

theorem preview_token_roundtrip:
  assumes "c = preview_claims_of env req conflicts adjusted" "jwt_contract encode decode c"
    and "ev_py_now env \<le> ev_py_now env'"
  shows "decode_preview_token decode env' (issue_preview_token encode env req conflicts adjusted) user d =
    ((if user = pq_user req \<and> ev_py_now env' div second < ev_py_now env div second + 15 * 60
      then Inr c else Inl PreviewExpiredError), d) \<and>
    List.set (pc_conflicts c) = List.set conflicts \<and> List.set (pc_adjustments c) = List.set adjusted \<and>
    expand_in env'' (pc_timezone c) (pc_local_start c) (pc_local_end c) (pc_start_date c) (pc_count c)
      = expand_in env'' (pq_timezone req) (pq_local_start req) (pq_local_end req) (pq_start_date req) (pq_count req)"
proof -
  have "pc_iat c \<le> ev_py_now env' div second"
    using assms(3) by (simp add: assms(1) preview_claims_of_def Let_def zdiv_mono1)
  then show ?thesis
    using assms(2)
    by (simp add: jwt_contract_def decode_preview_token_def issue_preview_token_def assms(1)
        preview_claims_of_def Let_def date_set_def PREVIEW_TOKEN_TTL_SECONDS_def)
qed

theorem preview_token_roundtrip_witness:
  "\<exists>decode. fst (decode_preview_token decode (demo_env (10 * minute) 2)
       (issue_preview_token (\<lambda>_. ''token'') (demo_env 0 1) demo_preview [7] []) 1 demo_taken)
       = Inr (preview_claims_of (demo_env 0 1) demo_preview [7] []) \<and>
     fst (decode_preview_token decode (demo_env (15 * minute) 2)
       (issue_preview_token (\<lambda>_. ''token'') (demo_env 0 1) demo_preview [7] []) 1 demo_taken)
       = Inl PreviewExpiredError"
proof -
  let ?c = "preview_claims_of (demo_env 0 1) demo_preview [7] []"
  let ?dec = "\<lambda>now (t :: string). if now < pc_exp ?c then Some ?c else None"
  have "jwt_contract (\<lambda>_. ''token'') ?dec ?c" by (simp add: jwt_contract_def)
  note rt = preview_token_roundtrip[OF refl this]
  show ?thesis
    using rt[of "demo_env (10 * minute) 2" 1 demo_taken] rt[of "demo_env (15 * minute) 2" 1 demo_taken]
    by (intro exI[of _ ?dec]) (simp add: demo_env_def demo_preview_def)
qed

section \<open>Re-materialization\<close>

lemma send_now_eq: "send_now env t d = (Inr (), d\<lparr> queue := queue d @ (if ev_broker_up env then [t] else []) \<rparr>)"
  by (simp add: send_now_def dispatch_eq)

text \<open>Re-materialization moves every future occurrence of a stale series to the time its series
  defines, also one that its owner had moved by an ordinary edit and whose time no rule change
  affects: the edit is overwritten and the owner is told that the timezone rules changed.\<close>

theorem rematerialization_overwrites_manual_edits:
  assumes "healthy env" "idle d" "db_ok d" "b \<in> List.set (bookings d)"
    and "oc = closest (lo (bk_range b)) (hd os) (tl os)" "oc_start oc < oc_end oc"
    and "\<bar>oc_start oc - lo (bk_range b)\<bar> \<le> 2 * day" "bk_range b \<noteq> TR (oc_start oc) (oc_end oc)"
    and "\<And>c. c \<in> List.set (bookings d) \<Longrightarrow> c = b \<or> bk_resource c \<noteq> bk_resource b \<or>
        \<not> active_status (bk_status c) \<or> \<not> overlaps (TR (oc_start oc) (oc_end oc)) (bk_range c)"
  shows "\<exists>d'. rematerialize_booking env rid s os b d = (Inr Moved, d') \<and>
    bookings d' = map (\<lambda>r. if r = b then b\<lparr> bk_range := TR (oc_start oc) (oc_end oc) \<rparr> else r) (bookings d) \<and>
    queue d' = queue d @ (if ev_broker_up env then [notify_rematerialization (bk_user b)
      (resource_name (se_resource s) d) (lo (bk_range b)) (hi (bk_range b)) (oc_start oc) (oc_end oc) rid] else [])"
proof -
  let ?req = "\<lparr> eq_booking = b, eq_start = oc_start oc, eq_end = oc_end oc, eq_request_id = rid,
      eq_actor_type = Actor_system \<rparr>"
  have ok: "tables_ok d" using assms(2,3) by (simp add: db_ok_def)
  have free: "\<not> edit_blocked ?req b d"
    using assms(9) by (fastforce simp: edit_blocked_def list_ex_iff bookings_conflict_def edited_def)
  have e: "remat_edit env rid b oc d = (Inr (edited ?req b), after_edit env ?req b d)"
    using edit_booking_cases[OF assms(1-3) _ assms(4), of ?req] assms(6) free by (simp add: remat_edit_def)
  have bs: "bookings (after_edit env ?req b d)
      = map (\<lambda>r. if r = b then b\<lparr> bk_range := TR (oc_start oc) (oc_end oc) \<rparr> else r) (bookings d)"
  proof -
    have "bookings (after_edit env ?req b d) = updated (\<lambda>r. bk_id r = bk_id b) (edited ?req) (bookings d)"
      by (simp add: after_edit_def)
    then show ?thesis
      unfolding updated_def
      by (simp only:, intro map_cong refl) (use booking_ids_unique[OF ok _ assms(4)] in \<open>auto simp: edited_def\<close>)
  qed
  have "\<not> (oc_start oc = lo (bk_range b) \<and> oc_end oc = hi (bk_range b))"
    using assms(8) by (cases "bk_range b") auto
  moreover have "resource_name r (after_edit env ?req b d) = resource_name r d" for r
    by (simp add: resource_name_def after_edit_def)
  moreover have "queue (after_edit env ?req b d) = queue d" by (simp add: after_edit_def)
  ultimately show ?thesis
    using assms(7) e bs unfolding rematerialize_booking_def assms(5)[symmetric] Let_def
    by (simp add: distance_def send_now_eq then_svc_def bind_svc_def)
qed

definition demo_series :: recurring_series where
  "demo_series = \<lparr> se_id = 60, se_resource = 10, se_created_by = 1, se_timezone = ''UTC'',
     se_local_start = 9 * hour, se_local_end = 10 * hour, se_weekday = 3, se_start_date = 0, se_count = 1,
     se_tzdata_version = ''2025.1'', se_materialized_through = 0, se_status = Series_active \<rparr>"

text \<open>The owner moved the 09:00 occurrence to 14:00; the zone has no transitions at all.\<close>

theorem rematerialization_overwrites_manual_edits_witness:
  "\<exists>d'. rematerialize_booking (demo_env 0 7) ''r'' demo_series
       [\<lparr> oc_date = 0, oc_start = 9 * hour, oc_end = 10 * hour, oc_adjustment = None \<rparr>]
       (demo_booking 5 1 (TR (14 * hour) (15 * hour)) Confirmed None)
       (demo_db [demo_booking 5 1 (TR (14 * hour) (15 * hour)) Confirmed None] [] []) = (Inr Moved, d') \<and>
     bookings d' = [demo_booking 5 1 (TR (9 * hour) (10 * hour)) Confirmed None]"
proof -
  let ?oc = "\<lparr> oc_date = 0, oc_start = 9 * hour, oc_end = 10 * hour, oc_adjustment = None \<rparr>"
  let ?b = "demo_booking 5 1 (TR (14 * hour) (15 * hour)) Confirmed None"
  have d: "db_ok (demo_db [?b] [] [])" "idle (demo_db [?b] [] [])" by code_simp+
  have p: "?b \<in> List.set (bookings (demo_db [?b] [] []))" "?oc = closest (lo (bk_range ?b)) (hd [?oc]) (tl [?oc])"
    "oc_start ?oc < oc_end ?oc" "\<bar>oc_start ?oc - lo (bk_range ?b)\<bar> \<le> 2 * day"
    "bk_range ?b \<noteq> TR (oc_start ?oc) (oc_end ?oc)" "bookings (demo_db [?b] [] []) = [?b]"
    by (simp_all add: demo_defs)
  have none: "c = ?b \<or> bk_resource c \<noteq> bk_resource ?b \<or>
        \<not> active_status (bk_status c) \<or> \<not> overlaps (TR (oc_start ?oc) (oc_end ?oc)) (bk_range c)"
    if "c \<in> List.set (bookings (demo_db [?b] [] []))" for c
    using that unfolding p(6) by simp
  have row: "?b\<lparr> bk_range := TR (oc_start ?oc) (oc_end ?oc) \<rparr> = demo_booking 5 1 (TR (9 * hour) (10 * hour)) Confirmed None"
    by (simp add: demo_booking_def)
  have "\<exists>d'. rematerialize_booking (demo_env 0 7) ''r'' demo_series [?oc] ?b (demo_db [?b] [] []) = (Inr Moved, d') \<and>
    bookings d' = map (\<lambda>r. if r = ?b then ?b\<lparr> bk_range := TR (oc_start ?oc) (oc_end ?oc) \<rparr> else r)
      (bookings (demo_db [?b] [] []))"
    using rematerialization_overwrites_manual_edits[OF healthy_demo d(2,1) p(1-5) none, of 0 7 "''r''" demo_series] by blast
  then show ?thesis unfolding row p(6) list.map if_P[OF refl] .
qed

end
