(* ===== verification/Idempotency.thy ===== *)
theory Idempotency
  imports Statements
begin

text \<open>
  \<open>core/idempotency.py\<close>: the fingerprint of a request body, the claim of an idempotency key in the
  transaction of the write it protects, the replay of a recorded outcome, the recording of a
  conflict after its rollback, the three-transaction shape of the recurring confirm, and the
  cleanup of old keys.
\<close>

section \<open>The fingerprint\<close>

text \<open>\<open>json.dumps(body, sort_keys=True, separators=(",", ":"))\<close> with its ASCII escaping.\<close>

definition hex_digit :: "nat \<Rightarrow> char" where
  "hex_digit n = ''0123456789abcdef'' ! (n mod 16)"

definition escape_char :: "char \<Rightarrow> string" where
  "escape_char c =
     (let n = of_char c :: nat in
      if n = 34 then [CHR 0x5C, CHR 0x22]
      else if n = 92 then [CHR 0x5C, CHR 0x5C]
      else if n = 10 then CHR 0x5C # ''n''
      else if n = 13 then CHR 0x5C # ''r''
      else if n = 9 then CHR 0x5C # ''t''
      else if n = 8 then CHR 0x5C # ''b''
      else if n = 12 then CHR 0x5C # ''f''
      else if 32 \<le> n \<and> n \<le> 126 then [c]
      else CHR 0x5C # ''u00'' @ [hex_digit (n div 16), hex_digit n])"

definition quote :: "string \<Rightarrow> string" where
  "quote s = CHR 0x22 # concat (map escape_char s) @ [CHR 0x22]"

fun nat_digits :: "nat \<Rightarrow> string" where
  "nat_digits n = (if n < 10 then [hex_digit n] else nat_digits (n div 10) @ [hex_digit (n mod 10)])"

declare nat_digits.simps [simp del]

definition int_text :: "int \<Rightarrow> string" where
  "int_text i = (if i < 0 then CHR 0x2D # nat_digits (nat (- i)) else nat_digits (nat i))"

text \<open>Sorting by key: strings are compared by code point.\<close>

fun text_le :: "string \<Rightarrow> string \<Rightarrow> bool" where
  "text_le [] ys = True"
| "text_le (x # xs) [] = False"
| "text_le (x # xs) (y # ys) =
     ((of_char x :: nat) < of_char y \<or> (x = y \<and> text_le xs ys))"

fun insert_key_sorted :: "string \<times> 'v \<Rightarrow> (string \<times> 'v) list \<Rightarrow> (string \<times> 'v) list" where
  "insert_key_sorted p [] = [p]"
| "insert_key_sorted p (q # qs) =
     (if text_le (fst p) (fst q) then p # q # qs else q # insert_key_sorted p qs)"

definition sort_keys :: "(string \<times> 'v) list \<Rightarrow> (string \<times> 'v) list" where
  "sort_keys ps = foldr insert_key_sorted ps []"

fun dumps :: "json \<Rightarrow> string" where
  "dumps JNull = ''null''"
| "dumps (JBool b) = (if b then ''true'' else ''false'')"
| "dumps (JNum i) = int_text i"
| "dumps (JStr s) = quote s"
| "dumps (JArr vs) = CHR 0x5B # join_text '','' (map dumps vs) @ [CHR 0x5D]"
| "dumps (JObj ps) =
     CHR 0x7B # join_text '',''
       (map (\<lambda>(k, t). quote k @ CHR 0x3A # t) (sort_keys (map (\<lambda>(k, v). (k, dumps v)) ps)))
     @ [CHR 0x7D]"

definition compute_request_fingerprint :: "env \<Rightarrow> json \<Rightarrow> string" where
  "compute_request_fingerprint env body = ev_sha256 env (dumps body)"

section \<open>Requests and results\<close>

record write_request =
  iq_user :: uuid
  iq_key :: uuid
  iq_endpoint :: string
  iq_body :: json
  iq_request_id :: "string option"
  iq_actor_type :: actor_type
  iq_reason :: "string option"

record write_result =
  ir_status :: int
  ir_body :: json
  ir_is_replay :: bool

definition KEY_CLAIM_UNIQUE_VIOLATION :: sqlstate where
  "KEY_CLAIM_UNIQUE_VIOLATION = ''23505''"

definition KEY_CLAIM_CONTENDED_SQLSTATES :: "sqlstate list" where
  "KEY_CLAIM_CONTENDED_SQLSTATES = [''55P03'', ''40P01'', ''57014'']"

definition request_id_text :: "string option \<Rightarrow> string" where
  "request_id_text v = (case v of None \<Rightarrow> '''' | Some s \<Rightarrow> s)"

definition claimed_key :: "env \<Rightarrow> write_request \<Rightarrow> idempotency_key" where
  "claimed_key env req =
     \<lparr> ik_user = iq_user req, ik_key = iq_key req, ik_endpoint = iq_endpoint req,
       ik_body_hash = compute_request_fingerprint env (iq_body req), ik_status = In_progress,
       ik_response_status = None, ik_response_body = None, ik_created_at = ev_py_now env,
       ik_completed_at = None \<rparr>"

definition owns_key :: "write_request \<Rightarrow> idempotency_key \<Rightarrow> bool" where
  "owns_key req k = (ik_user k = iq_user req \<and> ik_key k = iq_key req)"

definition completed_with :: "env \<Rightarrow> int \<Rightarrow> json \<Rightarrow> idempotency_key \<Rightarrow> idempotency_key" where
  "completed_with env st b k =
     k\<lparr> ik_status := Completed, ik_response_status := Some st, ik_response_body := Some b,
        ik_completed_at := Some (ev_py_now env) \<rparr>"

definition claim_key :: "env \<Rightarrow> write_request \<Rightarrow> string option \<Rightarrow> unit svc" where
  "claim_key env req reason =
     then_svc (apply_write_path_session_settings env (Some (iq_user req)) (iq_actor_type req)
         (request_id_text (iq_request_id req)) reason)
       (then_svc (insert_key env (claimed_key env req)) (ret ()))"

definition complete_key :: "env \<Rightarrow> write_request \<Rightarrow> int \<Rightarrow> json \<Rightarrow> nat svc" where
  "complete_key env req st b = update_keys env (owns_key req) (completed_with env st b)"

section \<open>Replay and conflict\<close>

definition stored_result :: "idempotency_key \<Rightarrow> write_result svc" where
  "stored_result k =
     (case (ik_response_status k, ik_response_body k) of
        (Some st, Some b) \<Rightarrow> ret \<lparr> ir_status = st, ir_body = b, ir_is_replay = True \<rparr>
      | _ \<Rightarrow> raise AssertionError)"

definition replay_or_conflict :: "env \<Rightarrow> write_request \<Rightarrow> write_result svc" where
  "replay_or_conflict env req = bind_svc (get_row keys (owns_key req)) (\<lambda>k.
     if ik_body_hash k = compute_request_fingerprint env (iq_body req) then stored_result k
     else raise IdempotencyKeyConflictError)"

definition replay_or_conflict_allowing_in_progress ::
  "env \<Rightarrow> write_request \<Rightarrow> write_result svc" where
  "replay_or_conflict_allowing_in_progress env req = bind_svc (get_row keys (owns_key req)) (\<lambda>k.
     if ik_status k = In_progress then raise RequestInProgressError
     else if ik_body_hash k = compute_request_fingerprint env (iq_body req) then stored_result k
     else raise IdempotencyKeyConflictError)"

text \<open>The outcome of a refused write, in a transaction of its own after the rollback.\<close>

definition conflict_key :: "env \<Rightarrow> write_request \<Rightarrow> exn \<Rightarrow> idempotency_key" where
  "conflict_key env req e =
     \<lparr> ik_user = iq_user req, ik_key = iq_key req, ik_endpoint = iq_endpoint req,
       ik_body_hash = compute_request_fingerprint env (iq_body req), ik_status = Completed,
       ik_response_status = Some (recordable_http_status e),
       ik_response_body = Some (build_error_envelope (recordable_code e) (recordable_message e)
          None (iq_request_id req)),
       ik_created_at = ev_py_now env, ik_completed_at = Some (ev_py_now env) \<rparr>"

definition record_conflict_outcome :: "env \<Rightarrow> write_request \<Rightarrow> exn \<Rightarrow> unit svc" where
  "record_conflict_outcome env req e =
     atomic env (then_svc (insert_key env (conflict_key env req e)) (ret ()))"

section \<open>The protected write\<close>

definition protected_write ::
  "env \<Rightarrow> write_request \<Rightarrow> (int \<times> json) svc \<Rightarrow> (int \<times> json) svc" where
  "protected_write env req perform_write =
     then_svc (claim_key env req (iq_reason req)) (bind_svc perform_write (\<lambda>(st, b).
       then_svc (complete_key env req st b) (ret (st, b))))"

text \<open>The two except clauses.\<close>

definition claim_failed :: "env \<Rightarrow> write_request \<Rightarrow> (env \<Rightarrow> write_request \<Rightarrow> write_result svc)
    \<Rightarrow> sqlstate option \<Rightarrow> write_result svc" where
  "claim_failed env req replay s =
     (if s = Some KEY_CLAIM_UNIQUE_VIOLATION then replay env req
      else if (case s of None \<Rightarrow> False | Some c \<Rightarrow> c \<in> List.set KEY_CLAIM_CONTENDED_SQLSTATES)
        then raise RequestInProgressError
      else raise (DatabaseError s))"

definition run_idempotent_write ::
  "env \<Rightarrow> write_request \<Rightarrow> (int \<times> json) svc \<Rightarrow> write_result svc" where
  "run_idempotent_write env req perform_write =
     catch_svc
       (bind_svc (atomic env (protected_write env req perform_write)) (\<lambda>(st, b).
          ret \<lparr> ir_status = st, ir_body = b, ir_is_replay = False \<rparr>))
       (\<lambda>e. case e of
            DatabaseError s \<Rightarrow> claim_failed env req replay_or_conflict s
          | _ \<Rightarrow> if is_recordable e then then_svc (record_conflict_outcome env req e) (raise e)
                 else raise e)"

text \<open>The recurring confirm: the claim, the work and the outcome are three transactions; the
  environments are those of the claim and of the outcome.\<close>

definition run_idempotent_recurring_confirm ::
  "env \<Rightarrow> env \<Rightarrow> write_request \<Rightarrow> (int \<times> json) svc \<Rightarrow> write_result svc" where
  "run_idempotent_recurring_confirm env env' req perform_confirm = (\<lambda>d.
     (case atomic env (claim_key env req None) d of
        (Inl (DatabaseError s), d') \<Rightarrow> claim_failed env req replay_or_conflict_allowing_in_progress s d'
      | (Inl e, d') \<Rightarrow> (Inl e, d')
      | (Inr _, d') \<Rightarrow> bind_svc perform_confirm (\<lambda>(st, b).
          then_svc (atomic env'
             (then_svc (apply_write_path_session_settings env' (Some (iq_user req)) (iq_actor_type req)
                 (request_id_text (iq_request_id req)) None)
               (complete_key env' req st b)))
            (ret \<lparr> ir_status = st, ir_body = b, ir_is_replay = False \<rparr>)) d'))"

section \<open>Cleanup\<close>

definition update_or_create_heartbeat :: "env \<Rightarrow> string \<Rightarrow> json \<Rightarrow> unit svc" where
  "update_or_create_heartbeat env name findings d =
     (Inr (), d\<lparr> heartbeats :=
        filter (\<lambda>h. oh_name h \<noteq> name) (heartbeats d) @
        [\<lparr> oh_name = name, oh_last_run_at = ev_py_now env, oh_findings = findings \<rparr>] \<rparr>)"

definition cleanup_expired_idempotency_keys :: "env \<Rightarrow> nat svc" where
  "cleanup_expired_idempotency_keys env =
     bind_svc (autocommit env (delete_keys env (\<lambda>k.
        ik_created_at k < ev_py_now env - IDEMPOTENCY_RETENTION_HOURS * hour))) (\<lambda>n.
     then_svc (update_or_create_heartbeat env ''idempotency_cleanup''
        (JObj [(''deleted_count'', JNum (int n))])) (ret n))"


section \<open>Safety\<close>

lemma keeps_tx_claim [inv_intros]: "keeps tx_ok (claim_key env req rs)"
  unfolding claim_key_def by (intro inv_intros)

lemma keeps_tx_complete [inv_intros]: "keeps tx_ok (complete_key env req st b)"
  unfolding complete_key_def by (intro inv_intros)

lemma safe_stored [inv_intros]: "safe (stored_result k)"
  by (auto simp: safe_def keeps_def stored_result_def split: option.splits)

lemma safe_raise [inv_intros]: "safe (raise e)"
  by (simp add: safe_def keeps_raise)

lemma safe_replay [inv_intros]:
  "safe (replay_or_conflict env req)" "safe (replay_or_conflict_allowing_in_progress env req)"
  unfolding replay_or_conflict_def replay_or_conflict_allowing_in_progress_def
  by (intro inv_intros)+

lemma safe_claim_failed [inv_intros]:
  "safe (replay env req) \<Longrightarrow> safe (claim_failed env req replay s)"
  by (simp add: claim_failed_def safe_raise)

lemma safe_record_conflict [inv_intros]: "safe (record_conflict_outcome env req e)"
  unfolding record_conflict_outcome_def by (intro inv_intros)

lemma keeps_tx_protected [inv_intros]:
  assumes "keeps tx_ok w"
  shows "keeps tx_ok (protected_write env req w)"
  unfolding protected_write_def
  by (intro inv_intros assms) (auto intro!: inv_intros split: prod.splits)

lemma safe_run_idempotent_write [inv_intros]:
  assumes "keeps tx_ok w"
  shows "safe (run_idempotent_write env req w)"
  unfolding run_idempotent_write_def
  by (intro inv_intros assms) (auto intro!: inv_intros split: prod.splits exn.splits)

end
