(* ===== verification/Idempotency_Properties.thy ===== *)
theory Idempotency_Properties
  imports Idempotency Booking_Properties "HOL-Library.Multiset"
begin

text \<open>
  What the idempotency mechanism guarantees: a repeated request returns the recorded outcome and
  runs nothing, an undecided failure leaves no trace, a key stands for one body, and the limits of
  each of these.
\<close>

section \<open>Blocks\<close>

lemma atomic_idle:
  assumes "idle d" "atomic env m d = (r, d')"
  shows "idle d'"
  using assms(2)
  by (cases rule: atomic_cases) (use assms(1) in \<open>auto simp: idle_def run_hooks_eq\<close>)

lemma begin_tx_ok: "db_ok d \<Longrightarrow> tx_ok (begin_tx d)"
  by (simp add: tx_ok_def db_ok_def)

lemma keys_log [simp]:
  "keys (log_insert env ent r d) = keys d" "keys (log_update env ent f rs d) = keys d"
  "keys (log_delete env ent rs d) = keys d"
  by (simp_all add: log_eqs)

section \<open>Frames: the writes do not touch the keys\<close>

definition keeps_keys :: "'a svc \<Rightarrow> bool" where
  "keeps_keys m \<longleftrightarrow> (\<forall>d. keys (snd (m d)) = keys d)"

lemma keeps_keysD: "keeps_keys m \<Longrightarrow> m d = (r, d') \<Longrightarrow> keys d' = keys d"
  by (metis keeps_keys_def snd_conv)

lemma keeps_keys_keeps: "(\<And>ks. keeps (\<lambda>d :: db. keys d = ks) m) \<Longrightarrow> keeps_keys m"
  by (auto simp: keeps_keys_def keeps_def)

lemma keeps_keys_I: "keeps_keys m \<Longrightarrow> keeps (\<lambda>d :: db. keys d = ks) m"
  by (auto simp: keeps_keys_def keeps_def)

lemma keys_atomic: "keeps (\<lambda>d :: db. keys d = ks) m \<Longrightarrow> keeps (\<lambda>d :: db. keys d = ks) (atomic env m)"
proof
  fix d :: db assume m: "keeps (\<lambda>d :: db. keys d = ks) m" and d: "keys d = ks"
  obtain r d' where run: "atomic env m d = (r, d')" by (cases "atomic env m d")
  then have "keys d' = ks"
  proof (cases rule: atomic_cases)
    case (savepoint x)
    then show ?thesis using keepsE[OF m d savepoint(2)] by simp
  next
    case (commit x d1)
    then show ?thesis using keepsE[OF m _ commit(2)] d by (simp add: run_hooks_eq)
  qed (use d in simp)
  then show "keys (snd (atomic env m d)) = ks" using run by simp
qed

lemma keys_stmts:
  "keeps (\<lambda>d :: db. keys d = ks) (insert_booking env b)"
  "keeps (\<lambda>d :: db. keys d = ks) (update_bookings env P f)"
  "keeps (\<lambda>d :: db. keys d = ks) (delete_bookings env P)"
  "keeps (\<lambda>d :: db. keys d = ks) (apply_write_path_session_settings env a t rid rs)"
  "keeps (\<lambda>d :: db. keys d = ks) (get_row get Q)"
  "keeps (\<lambda>d :: db. keys d = ks) (on_commit env tk)"
  "keeps (\<lambda>d :: db. keys d = ks) (sql_range s e)"
  by (auto simp: keeps_def stmt_defs insert_row_def update_rows_def delete_rows_def run_stmt_def
      apply_write_path_session_settings_def get_row_def on_commit_def dispatch_def sql_range_def
      split: option.splits sum.splits)

lemma keeps_keys_create_booking: "keeps_keys (create_booking env req)"
  and keeps_keys_edit_booking: "keeps_keys (edit_booking env ereq)"
  and keeps_keys_cancel_booking: "keeps_keys (cancel_booking env xreq)"
  unfolding create_booking_def create_booking_tx_def edit_booking_def cancel_booking_def
    register_cancel_hooks_def translating_def
  by (intro keeps_keys_keeps inv_intros keys_atomic keys_stmts)+

section \<open>The steps of a protected write\<close>

lemma fingerprint_cong: "ev_sha256 env' = ev_sha256 env \<Longrightarrow>
    compute_request_fingerprint env' b = compute_request_fingerprint env b"
  by (simp add: compute_request_fingerprint_def)

lemma claim_key_Inr:
  assumes "claim_key env req rs d = (Inr u, d')"
  shows "keys d' = keys d @ [claimed_key env req]" "in_tx d' = in_tx d"
    "list_all (\<lambda>k. \<not> owns_key req k) (keys d)"
  using assms
  by (auto simp: claim_key_def then_svc_def bind_svc_def insert_key_def insert_row_def run_stmt_def
      ins_row_def log_eqs apply_write_path_session_settings_def check_key_def key_pair_ok_def
      owns_key_def claimed_key_def list_all_iff list_ex_iff
      split: option.splits sum.splits prod.splits if_splits)

lemma claim_key_taken:
  assumes "healthy env" "k \<in> List.set (keys d)" "owns_key req k"
  shows "fst (claim_key env req rs d) = Inl (DatabaseError (Some KEY_CLAIM_UNIQUE_VIOLATION))"
  using assms
  by (auto simp: claim_key_def then_svc_def bind_svc_def insert_key_def insert_row_def run_stmt_def
      ins_row_def check_key_def key_row_ok_def key_pair_ok_def owns_key_def claimed_key_def list_ex_iff
      KEY_CLAIM_UNIQUE_VIOLATION_def intro!: bexI[of _ k] split: option.splits sum.splits prod.splits if_splits)

lemma find_owned_append:
  "list_all (\<lambda>k. \<not> owns_key req k) ks \<Longrightarrow> owns_key req k \<Longrightarrow> find (owns_key req) (ks @ [k]) = Some k"
  by (induction ks) auto

lemma owns_claimed [simp]:
  "owns_key req (claimed_key env req)" "owns_key req (conflict_key env req e)"
  "owns_key req (completed_with env st b k) = owns_key req k"
  by (simp_all add: owns_key_def claimed_key_def conflict_key_def completed_with_def)

lemma protected_write_Inr:
  assumes "protected_write env req w d = (Inr (st, b), d')" "keeps_keys w"
  shows "\<exists>d1 d2. claim_key env req (iq_reason req) d = (Inr (), d1) \<and> w d1 = (Inr (st, b), d2) \<and>
    keys d' = keys d @ [completed_with env st b (claimed_key env req)]"
proof -
  from assms(1)[unfolded protected_write_def] obtain d1 d2 where
    c: "claim_key env req (iq_reason req) d = (Inr (), d1)" and
    w: "w d1 = (Inr (st, b), d2)" and
    u: "then_svc (complete_key env req st b) (ret (st, b)) d2 = (Inr (st, b), d')"
    by (elim then_svc_cases bind_svc_cases) (auto elim!: then_svc_cases)
  from u obtain n where u': "complete_key env req st b d2 = (Inr n, d')"
    by (auto elim!: then_svc_cases)
  have "keys d' = updated (owns_key req) (completed_with env st b) (keys d2)"
    using ikt.update_Inr(2)[OF u'[unfolded complete_key_def update_keys_def]] by simp
  also have "keys d2 = keys d @ [claimed_key env req]"
    using claim_key_Inr(1)[OF c] keeps_keysD[OF assms(2) w] by simp
  finally show ?thesis
    using c w claim_key_Inr(3)[OF c] by (simp add: updated_none)
qed


section \<open>Outcomes of a protected call\<close>

lemma run_cases:
  assumes "run_idempotent_write env req w d = (r, d1)" "idle d"
  obtains
    (fresh) st b where "atomic env (protected_write env req w) d = (Inr (st, b), d1)"
      "r = Inr \<lparr> ir_status = st, ir_body = b, ir_is_replay = False \<rparr>"
  | (db) s where "atomic env (protected_write env req w) d = (Inl (DatabaseError s), d)"
      "claim_failed env req replay_or_conflict s d = (r, d1)"
  | (recorded) e where "atomic env (protected_write env req w) d = (Inl e, d)" "is_recordable e"
      "then_svc (record_conflict_outcome env req e) (raise e) d = (r, d1)"
  | (other) e where "atomic env (protected_write env req w) d = (Inl e, d)" "\<not> is_recordable e"
      "\<And>s. e \<noteq> DatabaseError s" "r = Inl e" "d1 = d"
proof -
  obtain q d' where a: "atomic env (protected_write env req w) d = (q, d')"
    by (cases "atomic env (protected_write env req w) d")
  show thesis
  proof (cases q)
    case (Inr x)
    obtain st b where x: "x = (st, b)" by (cases x)
    then have "bind_svc (atomic env (protected_write env req w)) (\<lambda>(st, b).
          ret \<lparr> ir_status = st, ir_body = b, ir_is_replay = False \<rparr>) d
        = (Inr \<lparr> ir_status = st, ir_body = b, ir_is_replay = False \<rparr>, d')"
      using a Inr by simp
    then show thesis using fresh[of st b] a Inr x assms(1)
      unfolding run_idempotent_write_def by simp
  next
    case (Inl e)
    then have d': "d' = d" using a atomic_error_rolls_back by blast
    have h: "(case e of DatabaseError s \<Rightarrow> claim_failed env req replay_or_conflict s
        | _ \<Rightarrow> if is_recordable e then then_svc (record_conflict_outcome env req e) (raise e)
               else raise e) d = (r, d1)"
      using assms(1) a Inl d' unfolding run_idempotent_write_def by simp
    show thesis
    proof (cases "\<exists>s. e = DatabaseError s")
      case True
      then obtain s where s: "e = DatabaseError s" by blast
      show thesis by (rule db[of s]) (use h a Inl d' s in simp_all)
    next
      case False
      then have h': "(if is_recordable e then then_svc (record_conflict_outcome env req e) (raise e)
          else raise e) d = (r, d1)"
        using h by (cases e) simp_all
      have run: "atomic env (protected_write env req w) d = (Inl e, d)" using a Inl d' by simp
      show thesis
      proof (cases "is_recordable e")
        case True
        show thesis by (rule recorded[OF run True]) (use h' True in simp)
      next
        case nonrec: False
        show thesis by (rule other[OF run nonrec]) (use h' nonrec False in simp_all)
      qed
    qed
  qed
qed

lemma replay_Inr:
  assumes "replay_or_conflict env req d = (Inr res, d')"
  shows "d' = d \<and> (\<exists>k. find (owns_key req) (keys d) = Some k \<and>
     ik_body_hash k = compute_request_fingerprint env (iq_body req) \<and>
     ik_response_status k = Some (ir_status res) \<and> ik_response_body k = Some (ir_body res))"
  using assms
  by (auto simp: replay_or_conflict_def bind_svc_def get_row_def stored_result_def
      split: option.splits if_splits)

lemma replay_Inl:
  assumes "replay_or_conflict env req d = (Inl e, d')"
  shows "d' = d \<and> \<not> is_recordable e"
  using assms
  by (auto simp: replay_or_conflict_def bind_svc_def get_row_def stored_result_def
      split: option.splits if_splits)

lemma claim_failed_Inr:
  "claim_failed env req replay s d = (Inr res, d') \<Longrightarrow> replay env req d = (Inr res, d')"
  by (auto simp: claim_failed_def split: if_splits)

lemma claim_failed_Inl:
  "claim_failed env req replay_or_conflict s d = (Inl e, d') \<Longrightarrow> d' = d \<and> \<not> is_recordable e"
  using replay_Inl by (auto simp: claim_failed_def split: if_splits)

lemma run_Inr_stored:
  assumes "run_idempotent_write env req w d = (Inr res, d1)" "idle d" "keeps_keys w"
  shows "\<exists>k. find (owns_key req) (keys d1) = Some k \<and>
     ik_body_hash k = compute_request_fingerprint env (iq_body req) \<and>
     ik_response_status k = Some (ir_status res) \<and> ik_response_body k = Some (ir_body res)"
  using assms(1,2)
proof (cases rule: run_cases)
  case (fresh st b)
  from fresh(1) show ?thesis
  proof (cases rule: atomic_cases)
    case (commit x d2)
    have "protected_write env req w (begin_tx d) = (Inr (st, b), d2)"
      using commit by (simp add: begin_tx_def)
    from protected_write_Inr[OF this assms(3)] obtain d3 where
      "claim_key env req (iq_reason req) (begin_tx d) = (Inr (), d3)"
      "keys d2 = keys d @ [completed_with env st b (claimed_key env req)]"
      by auto
    moreover from this have "find (owns_key req) (keys d2)
        = Some (completed_with env st b (claimed_key env req))"
      using claim_key_Inr(3)[of env req _ "begin_tx d"] by (simp add: find_owned_append)
    ultimately show ?thesis
      using commit(6) fresh(2)
      by (simp add: run_hooks_eq) (simp add: completed_with_def claimed_key_def)
  qed (use assms(2) in \<open>auto simp: idle_def\<close>)
next
  case (db s)
  then show ?thesis using claim_failed_Inr replay_Inr by metis
next
  case (recorded e)
  then show ?thesis by (auto elim!: then_svc_cases)
qed auto

lemma claim_blocks_write:
  assumes "healthy env" "find (owns_key req) (keys d) = Some k" "idle d"
  shows "run_idempotent_write env req w d = replay_or_conflict env req d"
proof -
  have k: "k \<in> List.set (keys (begin_tx d))" "owns_key req k"
    using assms(2) by (auto simp: find_Some_iff)
  obtain d2 where "claim_key env req (iq_reason req) (begin_tx d)
      = (Inl (DatabaseError (Some KEY_CLAIM_UNIQUE_VIOLATION)), d2)"
    using claim_key_taken[OF assms(1) k] by (metis prod.collapse)
  then have "protected_write env req w (begin_tx d)
      = (Inl (DatabaseError (Some KEY_CLAIM_UNIQUE_VIOLATION)), d2)"
    by (simp add: protected_write_def)
  then have "atomic env (protected_write env req w) d
      = (Inl (DatabaseError (Some KEY_CLAIM_UNIQUE_VIOLATION)), d)"
    using assms(3) by (intro atomic_fail) (auto simp: idle_def)
  then show ?thesis by (simp add: run_idempotent_write_def claim_failed_def)
qed

lemma replay_stored:
  assumes "find (owns_key req) (keys d) = Some k"
    and "ik_body_hash k = compute_request_fingerprint env (iq_body req)"
    and "ik_response_status k = Some st" "ik_response_body k = Some b"
  shows "replay_or_conflict env req d = (Inr \<lparr> ir_status = st, ir_body = b, ir_is_replay = True \<rparr>, d)"
  using assms by (simp add: replay_or_conflict_def stored_result_def)

lemma same_owner: "iq_user req' = iq_user req \<Longrightarrow> iq_key req' = iq_key req \<Longrightarrow> owns_key req' = owns_key req"
  by (simp add: fun_eq_iff owns_key_def)



definition demo_ireq :: "uuid \<Rightarrow> string \<Rightarrow> json \<Rightarrow> write_request" where
  "demo_ireq key endpoint body = \<lparr> iq_user = 1, iq_key = key, iq_endpoint = endpoint, iq_body = body,
     iq_request_id = Some ''r1'', iq_actor_type = Actor_user, iq_reason = None \<rparr>"

definition demo_post :: "env \<Rightarrow> (int \<times> json) svc" where
  "demo_post env = bind_svc (create_booking env \<lparr> cq_resource = 10, cq_user = 1, cq_start = 100,
      cq_end = 200, cq_request_id = ''r1'', cq_series = None, cq_actor_type = Actor_user,
      cq_status = Confirmed \<rparr>) (\<lambda>b. ret (201, JObj [(''id'', JNum (int (bk_id b)))]))"

lemma keeps_keys_bind_ret: "keeps_keys m \<Longrightarrow> keeps_keys (bind_svc m (\<lambda>x. ret (f x)))"
  by (auto simp: keeps_keys_def bind_svc_def split: prod.splits sum.splits) (metis snd_conv)+

lemma demo_post_frame: "keeps_keys (demo_post env)"
  unfolding demo_post_def by (intro keeps_keys_bind_ret keeps_keys_create_booking)

lemma demo_post_run:
  "\<exists>d1. run_idempotent_write (demo_env 5 7) (demo_ireq 40 ''POST /api/v1/bookings'' (JObj [])) (demo_post (demo_env 5 7))
     (demo_db [] [] []) = (Inr \<lparr> ir_status = 201, ir_body = JObj [(''id'', JNum 7)], ir_is_replay = False \<rparr>, d1)"
proof -
  have "fst (run_idempotent_write (demo_env 5 7) (demo_ireq 40 ''POST /api/v1/bookings'' (JObj []))
      (demo_post (demo_env 5 7)) (demo_db [] [] []))
    = Inr \<lparr> ir_status = 201, ir_body = JObj [(''id'', JNum 7)], ir_is_replay = False \<rparr>"
    by code_simp
  then show ?thesis by (metis prod.collapse)
qed



section \<open>What a failure leaves\<close>

lemma record_conflict_Inr:
  assumes "record_conflict_outcome env req e d = (Inr u, d')" "idle d"
  shows "d' = d\<lparr> keys := keys d @ [conflict_key env req e] \<rparr>"
  using assms(1)[unfolded record_conflict_outcome_def]
proof (cases rule: atomic_cases)
  case (commit x d1)
  then have "d1 = (d\<lparr> in_tx := True, sess := None, hooks := [] \<rparr>)\<lparr> keys := keys d @ [conflict_key env req e] \<rparr>"
    by (auto simp: insert_key_def log_eqs dest!: ikt.insert_Inr elim!: then_svc_cases)
  then show ?thesis
    using commit(6) assms(2) by (intro db.equality) (simp_all add: run_hooks_eq idle_def)
qed (use assms(2) in \<open>auto simp: idle_def\<close>)

lemma record_conflict_Inl:
  assumes "record_conflict_outcome env req e d = (Inl x, d')"
  shows "d' = d \<and> \<not> is_recordable x"
proof
  show "d' = d" using assms unfolding record_conflict_outcome_def by (rule atomic_error_rolls_back)
  have "raises (\<lambda>x. \<not> is_recordable x) (record_conflict_outcome env req e)"
    unfolding record_conflict_outcome_def by (intro raises_intros) simp_all
  then show "\<not> is_recordable x" using assms by (rule raisesD)
qed

text \<open>C19: a failed call leaves exactly one trace: a conflict that decides the request (409) leaves
  its recorded outcome under the key and nothing else; after any other failure (503, a server
  fault, a validation error) the database, key included, is as it was, so a retry starts afresh.\<close>

theorem failed_write_leaves_only_a_recorded_conflict:
  assumes "run_idempotent_write env req w d = (Inl e, d1)" "idle d"
  shows "d1 = (if e \<in> {SlotUnavailableError, AlreadyOnWaitlistError, OfferExpiredError, OfferAlreadyResolvedError}
      then d\<lparr> keys := keys d @ [\<lparr> ik_user = iq_user req, ik_key = iq_key req,
         ik_endpoint = iq_endpoint req,
         ik_body_hash = compute_request_fingerprint env (iq_body req), ik_status = Completed,
         ik_response_status = Some 409,
         ik_response_body = Some (build_error_envelope (recordable_code e) (recordable_message e)
            None (iq_request_id req)),
         ik_created_at = ev_py_now env, ik_completed_at = Some (ev_py_now env) \<rparr>] \<rparr>
      else d)"
proof -
  have "d1 = (if is_recordable e then d\<lparr> keys := keys d @ [conflict_key env req e] \<rparr> else d)"
    using assms
  proof (cases rule: run_cases)
    case (db s)
    then show ?thesis using claim_failed_Inl by auto
  next
    case (recorded e')
    from recorded(3) show ?thesis
    proof (cases rule: then_svc_cases)
      case (err x)
      then show ?thesis using record_conflict_Inl by auto
    next
      case (val u d2)
      then show ?thesis using record_conflict_Inr[OF _ assms(2)] recorded(2) by auto
    qed
  qed auto
  then show ?thesis by (simp add: is_recordable_def conflict_key_def recordable_http_status_def)
qed

theorem failed_write_leaves_only_a_recorded_conflict_witness:
  "\<exists>d1. run_idempotent_write (demo_env 5 7) (demo_ireq 40 ''POST /api/v1/bookings'' (JObj []))
       (demo_post (demo_env 5 7)) (demo_db [demo_booking 3 2 (TR 150 250) Confirmed None] [] [])
     = (Inl SlotUnavailableError, d1) \<and> map ik_response_status (keys d1) = [Some 409] \<and>
     bookings d1 = [demo_booking 3 2 (TR 150 250) Confirmed None]"
proof -
  let ?d = "demo_db [demo_booking 3 2 (TR 150 250) Confirmed None] [] []"
  have "fst (run_idempotent_write (demo_env 5 7) (demo_ireq 40 ''POST /api/v1/bookings'' (JObj []))
       (demo_post (demo_env 5 7)) ?d) = Inl SlotUnavailableError"
    by code_simp
  then obtain d1 where run: "run_idempotent_write (demo_env 5 7) (demo_ireq 40 ''POST /api/v1/bookings'' (JObj []))
       (demo_post (demo_env 5 7)) ?d = (Inl SlotUnavailableError, d1)"
    by (metis prod.collapse)
  have "idle ?d" by (simp add: demo_simps)
  from failed_write_leaves_only_a_recorded_conflict[OF run this] run show ?thesis
    by (auto simp: demo_db_def empty_db_def)
qed

text \<open>A recorded conflict is final: the repetition gets the same 409 with the request id of the
  first attempt, although the slot may be free by then, and no write is run.\<close>

theorem recorded_conflict_is_replayed:
  assumes "run_idempotent_write env req w d = (Inl e, d1)" "idle d" "is_recordable e"
    and "list_all (\<lambda>k. \<not> (ik_user k = iq_user req \<and> ik_key k = iq_key req)) (keys d)"
    and "healthy env'" "ev_sha256 env' = ev_sha256 env"
    and "iq_user req' = iq_user req" "iq_key req' = iq_key req" "iq_body req' = iq_body req"
  shows "run_idempotent_write env' req' w' d1 =
    (Inr \<lparr> ir_status = 409,
       ir_body = build_error_envelope (recordable_code e) (recordable_message e) None (iq_request_id req),
       ir_is_replay = True \<rparr>, d1)"
proof -
  have d1: "d1 = d\<lparr> keys := keys d @ [conflict_key env req e] \<rparr>"
    using failed_write_leaves_only_a_recorded_conflict[OF assms(1,2)] assms(3)
    by (simp add: is_recordable_def conflict_key_def recordable_http_status_def)
  have f: "find (owns_key req') (keys d1) = Some (conflict_key env req e)"
  proof -
    have "list_all (\<lambda>k. \<not> owns_key req k) (keys d)" using assms(4) by (simp add: owns_key_def)
    then show ?thesis
      using find_owned_append[of req "keys d" "conflict_key env req e"] same_owner[OF assms(7,8)]
      by (simp add: d1)
  qed
  have "idle d1" using assms(2) by (simp add: d1 idle_def)
  then show ?thesis
    using claim_blocks_write[OF assms(5) f] replay_stored[OF f] fingerprint_cong[OF assms(6)] assms(9)
    by (simp add: conflict_key_def recordable_http_status_def)
qed


theorem recorded_conflict_is_replayed_witness:
  "\<exists>d1. run_idempotent_write (demo_env 5 7) (demo_ireq 40 ''POST /api/v1/bookings'' (JObj []))
       (demo_post (demo_env 5 7)) (demo_db [demo_booking 3 2 (TR 150 250) Confirmed None] [] [])
     = (Inl SlotUnavailableError, d1) \<and>
   run_idempotent_write (demo_env 60 8) (demo_ireq 40 ''POST /api/v1/bookings'' (JObj []))
       (demo_post (demo_env 60 8)) d1
     = (Inr \<lparr> ir_status = 409, ir_body = build_error_envelope ''slot_unavailable''
          ''This time slot is no longer available.'' None (Some ''r1''), ir_is_replay = True \<rparr>, d1)"
proof -
  let ?d = "demo_db [demo_booking 3 2 (TR 150 250) Confirmed None] [] []"
  have "fst (run_idempotent_write (demo_env 5 7) (demo_ireq 40 ''POST /api/v1/bookings'' (JObj []))
       (demo_post (demo_env 5 7)) ?d) = Inl SlotUnavailableError"
    by code_simp
  then obtain d1 where run: "run_idempotent_write (demo_env 5 7) (demo_ireq 40 ''POST /api/v1/bookings'' (JObj []))
       (demo_post (demo_env 5 7)) ?d = (Inl SlotUnavailableError, d1)"
    by (metis prod.collapse)
  have p: "idle ?d" "list_all (\<lambda>k. \<not> (ik_user k = iq_user (demo_ireq 40 ''POST /api/v1/bookings'' (JObj []))
      \<and> ik_key k = iq_key (demo_ireq 40 ''POST /api/v1/bookings'' (JObj [])))) (keys ?d)"
    "ev_sha256 (demo_env 60 8) = ev_sha256 (demo_env 5 7)"
    by (simp_all add: demo_simps)
  from recorded_conflict_is_replayed[OF run p(1) _ p(2) healthy_demo p(3) refl refl refl] run
  show ?thesis by (auto simp: demo_ireq_def)
qed

text \<open>One key stands for one body: a repetition of the key whose body has another fingerprint
  is \<open>idempotency_key_conflict\<close>, and changes nothing.\<close>

theorem key_reuse_with_other_body_is_refused:
  assumes "run_idempotent_write env req w d = (Inr res, d1)" "idle d" "keeps_keys w"
    and "healthy env'" "iq_user req' = iq_user req" "iq_key req' = iq_key req"
    and "compute_request_fingerprint env' (iq_body req') \<noteq> compute_request_fingerprint env (iq_body req)"
  shows "run_idempotent_write env' req' w' d1 = (Inl IdempotencyKeyConflictError, d1)"
proof -
  obtain k where k: "find (owns_key req') (keys d1) = Some k"
    "ik_body_hash k = compute_request_fingerprint env (iq_body req)"
    using run_Inr_stored[OF assms(1-3)] same_owner[OF assms(5,6)] by metis
  have "idle d1"
  proof (cases rule: run_cases[OF assms(1,2)])
    case (1 st b)
    then show ?thesis using atomic_idle[OF assms(2)] by blast
  next
    case (2 s)
    then show ?thesis using claim_failed_Inr replay_Inr assms(2) by metis
  next
    case (3 e)
    then show ?thesis by (auto elim!: then_svc_cases)
  qed auto
  then show ?thesis
    using claim_blocks_write[OF assms(4) k(1)] k assms(7)
    by (simp add: replay_or_conflict_def bind_svc_Inr[OF get_row_Some])
qed

theorem key_reuse_with_other_body_is_refused_witness:
  "\<exists>d1. run_idempotent_write (demo_env 60 8) (demo_ireq 40 ''POST /api/v1/bookings'' (JObj [(''start'', JNum 1)]))
       (demo_post (demo_env 60 8)) d1 = (Inl IdempotencyKeyConflictError, d1)"
proof -
  obtain d1 where run: "run_idempotent_write (demo_env 5 7) (demo_ireq 40 ''POST /api/v1/bookings'' (JObj []))
        (demo_post (demo_env 5 7)) (demo_db [] [] [])
      = (Inr \<lparr> ir_status = 201, ir_body = JObj [(''id'', JNum 7)], ir_is_replay = False \<rparr>, d1)"
    using demo_post_run by blast
  have p: "idle (demo_db [] [] [])" by (simp add: demo_simps)
  have "compute_request_fingerprint (demo_env 60 8) (JObj [(''start'', JNum 1)])
      \<noteq> compute_request_fingerprint (demo_env 5 7) (JObj [])"
    by code_simp
  then show ?thesis
    using key_reuse_with_other_body_is_refused[OF run p demo_post_frame healthy_demo,
        of "demo_ireq 40 ''POST /api/v1/bookings'' (JObj [(''start'', JNum 1)])" 60 8]
    by (auto simp: demo_ireq_def)
qed


section \<open>Database errors under a key\<close>

lemma claim_key_fresh:
  assumes "ev_fault env OnSettings = None" "ev_fault env OnKey = None"
    and "list_all (\<lambda>k. \<not> owns_key req k) (keys d)"
  shows "\<exists>s. claim_key env req rs d = (Inr (), d\<lparr> sess := s, keys := keys d @ [claimed_key env req] \<rparr>)"
proof -
  have "check_key (claimed_key env req) (keys d) = None"
    using assms(3) by (auto simp: check_key_def key_row_ok_def key_pair_ok_def list_all_iff list_ex_iff
        owns_key_def claimed_key_def)
  then show ?thesis
    using assms(1,2) unfolding claim_key_def
    by (simp add: insert_key_def insert_row_def run_stmt_def ins_row_def log_eqs
        apply_write_path_session_settings_def then_svc_def bind_svc_def) blast
qed

text \<open>A database error that the protected write does not translate is read as an error of the key
  claim: a lock timeout, deadlock or cancelled statement of the write becomes
  \<open>request_in_progress\<close>, a unique violation of the write a lookup of a key that is not there, and
  any other error surfaces raw; nothing is changed.\<close>

theorem untranslated_write_error_is_read_as_claim_error:
  assumes "idle d" "ev_fault env OnSettings = None" "ev_fault env OnKey = None"
    and "list_all (\<lambda>k. \<not> (ik_user k = iq_user req \<and> ik_key k = iq_key req)) (keys d)"
    and "\<And>d'. in_tx d' \<Longrightarrow> fst (w d') = Inl (DatabaseError s)"
  shows "run_idempotent_write env req w d =
    (if s = Some ''23505'' then (Inl DoesNotExist, d)
     else if s \<in> {Some ''55P03'', Some ''40P01'', Some ''57014''} then (Inl RequestInProgressError, d)
     else (Inl (DatabaseError s), d))"
proof -
  have none: "list_all (\<lambda>k. \<not> owns_key req k) (keys d)" using assms(4) by (simp add: owns_key_def)
  then obtain z where "claim_key env req (iq_reason req) (begin_tx d)
      = (Inr (), (begin_tx d)\<lparr> sess := z, keys := keys d @ [claimed_key env req] \<rparr>)"
    using claim_key_fresh[OF assms(2,3), of req "begin_tx d"] by auto
  moreover obtain d2 where "w ((begin_tx d)\<lparr> sess := z, keys := keys d @ [claimed_key env req] \<rparr>)
      = (Inl (DatabaseError s), d2)"
    using assms(5) by (metis begin_tx_simps(17) db.select_convs(16) db.surjective db.update_convs(17) db.update_convs(9) prod.collapse)
  ultimately have "protected_write env req w (begin_tx d) = (Inl (DatabaseError s), d2)"
    by (simp add: protected_write_def)
  then have a: "atomic env (protected_write env req w) d = (Inl (DatabaseError s), d)"
    using assms(1) by (intro atomic_fail) (auto simp: idle_def)
  have "find (owns_key req) (keys d) = None" using none by (auto simp: find_None_iff list_all_iff)
  then have "replay_or_conflict env req d = (Inl DoesNotExist, d)"
    by (simp add: replay_or_conflict_def)
  then show ?thesis
    using a by (cases s) (simp_all add: run_idempotent_write_def claim_failed_def
        KEY_CLAIM_UNIQUE_VIOLATION_def KEY_CLAIM_CONTENDED_SQLSTATES_def)
qed


text \<open>An environment in which the server cancels every statement on the bookings with a SQLSTATE.\<close>

definition failing_on :: "site \<Rightarrow> sqlstate option \<Rightarrow> env \<Rightarrow> env" where
  "failing_on st s env = env\<lparr> ev_fault := (\<lambda>x. if x = st then Some s else None) \<rparr>"

definition demo_transfer :: "env \<Rightarrow> (int \<times> json) svc" where
  "demo_transfer env = bind_svc (transfer_booking_ownership env (demo_booking 3 2 (TR 150 250) Confirmed None) 1 ''r'')
     (\<lambda>b. ret (200, JNull))"

theorem untranslated_write_error_is_read_as_claim_error_witness:
  "run_idempotent_write (failing_on OnBooking (Some ''55P03'') (demo_env 5 7)) (demo_ireq 40 ''x'' (JObj []))
     (demo_transfer (failing_on OnBooking (Some ''55P03'') (demo_env 5 7))) (demo_db [] [] [])
   = (Inl RequestInProgressError, demo_db [] [] [])"
proof -
  have w: "fst (demo_transfer (failing_on OnBooking (Some ''55P03'') (demo_env 5 7)) d') = Inl (DatabaseError (Some ''55P03''))"
    if "in_tx d'" for d'
    using that by (simp add: demo_transfer_def transfer_booking_ownership_def bind_svc_def then_svc_def
        atomic_def update_bookings_def update_rows_def run_stmt_def failing_on_def demo_env_def
        apply_write_path_session_settings_def)
  show ?thesis
    by (subst untranslated_write_error_is_read_as_claim_error[where s = "Some ''55P03''"])
      (use w in \<open>simp_all add: demo_simps failing_on_def\<close>)
qed

text \<open>A fault of the server at the key claim itself: contention (lock timeout, deadlock,
  cancelled statement) is \<open>request_in_progress\<close>, but a failover (57P01, 57P02, 57P03 or a lost
  connection) surfaces as a bare 500, where the write path of bookings answers 503.\<close>

theorem claim_fault_outcome:
  assumes "idle d" "ev_fault env OnSettings = None" "ev_fault env OnKey = Some s" "s \<noteq> Some ''23505''"
  shows "\<exists>e. run_idempotent_write env req w d = (Inl e, d) \<and>
    (s \<in> {Some ''55P03'', Some ''40P01'', Some ''57014''} \<longrightarrow> e = RequestInProgressError) \<and>
    (s \<in> {None, Some ''57P01'', Some ''57P02'', Some ''57P03''} \<longrightarrow> e = DatabaseError s \<and>
       response_status e = 500 \<and> response_status (handle_write_database_error e) = 503)"
proof -
  have "fst (protected_write env req w (begin_tx d)) = Inl (DatabaseError s)"
    using assms(2,3) by (simp add: protected_write_def claim_key_def then_svc_def bind_svc_def
        insert_key_def ikt.insert_fault apply_write_path_session_settings_def)
  then obtain d2 where "protected_write env req w (begin_tx d) = (Inl (DatabaseError s), d2)"
    by (metis prod.collapse)
  then have "atomic env (protected_write env req w) d = (Inl (DatabaseError s), d)"
    using assms(1) by (intro atomic_fail) (auto simp: idle_def)
  then show ?thesis
    using assms(4) by (cases s)
      (auto simp: run_idempotent_write_def claim_failed_def KEY_CLAIM_UNIQUE_VIOLATION_def
        KEY_CLAIM_CONTENDED_SQLSTATES_def retryable_def failover_shaped_def FAILOVER_SQLSTATES_def
        RETRYABLE_SQLSTATES_def)
qed

theorem claim_fault_outcome_witness:
  "\<exists>e. run_idempotent_write (failing_on OnKey (Some ''57P01'') (demo_env 5 7)) (demo_ireq 40 ''x'' (JObj []))
      (demo_post (demo_env 5 7)) (demo_db [] [] []) = (Inl e, demo_db [] [] []) \<and> response_status e = 500"
  using claim_fault_outcome[of "demo_db [] [] []" "failing_on OnKey (Some ''57P01'') (demo_env 5 7)" "Some ''57P01''"
      "demo_ireq 40 ''x'' (JObj [])" "demo_post (demo_env 5 7)"]
  by (auto simp: demo_simps failing_on_def)

text \<open>Recording a conflict twice fails: when two attempts of one key are both refused and both
  rolled back, the second to record its outcome meets the row of the first and ends as a bare 500
  instead of the 409 it was about to report.\<close>

theorem second_conflict_record_fails:
  assumes "record_conflict_outcome env req e d = (Inr u, d1)" "idle d" "healthy env'"
    and "iq_user req' = iq_user req" "iq_key req' = iq_key req"
  shows "\<exists>x. record_conflict_outcome env' req' e' d1 = (Inl x, d1) \<and> response_status x = 500"
proof -
  have d1: "d1 = d\<lparr> keys := keys d @ [conflict_key env req e] \<rparr>"
    by (rule record_conflict_Inr[OF assms(1,2)])
  have "check_key (conflict_key env' req' e') (keys (begin_tx d1)) = Some ''23505''"
    using assms(4,5) by (simp add: d1 check_key_def key_row_ok_def key_pair_ok_def conflict_key_def)
  then have "then_svc (insert_key env' (conflict_key env' req' e')) (ret ()) (begin_tx d1)
      = (Inl (DatabaseError (Some ''23505'')), begin_tx d1)"
    using assms(3) by (simp add: insert_key_def ikt.insert_refused)
  moreover have "\<not> in_tx d1" using assms(2) by (simp add: d1 idle_def)
  ultimately show ?thesis unfolding record_conflict_outcome_def
    by (intro exI[of _ "DatabaseError (Some ''23505'')"]) (auto intro: atomic_fail)
qed

theorem second_conflict_record_fails_witness:
  "\<exists>d1 x. record_conflict_outcome (demo_env 6 8) (demo_ireq 40 ''x'' (JObj [])) SlotUnavailableError d1
     = (Inl x, d1) \<and> response_status x = 500"
proof -
  have "fst (record_conflict_outcome (demo_env 5 7) (demo_ireq 40 ''x'' (JObj [])) SlotUnavailableError
      (demo_db [] [] [])) = Inr ()"
    by code_simp
  then obtain d1 where run: "record_conflict_outcome (demo_env 5 7) (demo_ireq 40 ''x'' (JObj []))
      SlotUnavailableError (demo_db [] [] []) = (Inr (), d1)"
    by (metis prod.collapse)
  have "idle (demo_db [] [] [])" by (simp add: demo_simps)
  from second_conflict_record_fails[OF run this healthy_demo refl refl, of 6 8 SlotUnavailableError]
  show ?thesis by blast
qed


section \<open>Cleanup and the recurring confirm\<close>

lemma cleanup_eq:
  assumes "healthy env" "idle d" "db_ok d"
  shows "\<exists>d'. cleanup_expired_idempotency_keys env d
      = (Inr (count_if (\<lambda>k. 24 * hour < ev_py_now env - ik_created_at k) (keys d)), d') \<and>
    keys d' = filter (\<lambda>k. ev_py_now env - ik_created_at k \<le> 24 * hour) (keys d) \<and>
    bookings d' = bookings d \<and> entries d' = entries d \<and> offers d' = offers d \<and>
    audit d' = audit d \<and> queue d' = queue d \<and> db_ok d' \<and> idle d' \<and>
    list_ex (\<lambda>h. oh_name h = ''idempotency_cleanup'') (heartbeats d')"
proof -
  let ?P = "\<lambda>k. ik_created_at k < ev_py_now env - IDEMPOTENCY_RETENTION_HOURS * hour"
  have ok: "tables_ok d" "fk_ok d" "\<not> in_tx d" using assms(2,3) by (auto simp: db_ok_def idle_def)
  have P: "?P = (\<lambda>k. 24 * hour < ev_py_now env - ik_created_at k)"
    by (auto simp: fun_eq_iff IDEMPOTENCY_RETENTION_HOURS_def)
  let ?d1 = "(begin_tx d)\<lparr> keys := del_rows ?P (keys d) \<rparr>"
  have "delete_keys env ?P (begin_tx d) = (Inr (count_if ?P (keys d)), ?d1)"
    using assms(1) by (simp add: delete_keys_def ikt.delete_ok log_eqs)
  moreover have "fk_ok ?d1" using ok(2) by (auto simp: fk_ok_def list_all_iff)
  ultimately have del: "autocommit env (delete_keys env ?P) d
      = (Inr (count_if ?P (keys d)), d\<lparr> keys := del_rows ?P (keys d) \<rparr>)"
    using ok(3) assms(1,2) unfolding autocommit_def
    by (subst atomic_run) (auto intro!: db.equality simp: idle_def)
  have db: "db_ok (d\<lparr> keys := del_rows ?P (keys d) \<rparr>)"
    
  proof -
    have "keeps tx_ok (delete_keys env ?P)" by (intro inv_intros)
    then show ?thesis using keepsE[OF safeD2[OF safe_autocommit] assms(3) del] by blast
  qed
  show ?thesis
    using del db assms(2) unfolding cleanup_expired_idempotency_keys_def P
    by (simp add: update_or_create_heartbeat_def del_rows_def idle_def not_less)
qed

text \<open>The cleanup removes exactly the keys created more than 24 hours ago, counts them, and
  touches nothing else but its heartbeat; so a key protects its write for at least a day.\<close>

theorem cleanup_removes_exactly_the_old_keys:
  assumes "healthy env" "idle d" "db_ok d"
  shows "\<exists>d'. cleanup_expired_idempotency_keys env d
      = (Inr (count_if (\<lambda>k. 24 * hour < ev_py_now env - ik_created_at k) (keys d)), d') \<and>
    keys d' = filter (\<lambda>k. ev_py_now env - ik_created_at k \<le> 24 * hour) (keys d) \<and>
    bookings d' = bookings d \<and> entries d' = entries d \<and> offers d' = offers d \<and>
    audit d' = audit d \<and> queue d' = queue d \<and> db_ok d' \<and> idle d' \<and>
    list_ex (\<lambda>h. oh_name h = ''idempotency_cleanup'') (heartbeats d')"
  by (rule cleanup_eq[OF assms])

theorem cleanup_removes_exactly_the_old_keys_witness:
  "\<exists>d'. cleanup_expired_idempotency_keys (demo_env (25 * hour) 7)
      ((demo_db [] [] [])\<lparr> keys := [completed_with (demo_env 0 7) 201 JNull (claimed_key (demo_env 0 7) (demo_ireq 40 ''x'' JNull)),
         completed_with (demo_env 0 7) 201 JNull (claimed_key (demo_env (2 * hour) 7) (demo_ireq 41 ''x'' JNull))] \<rparr>) = (Inr 1, d') \<and>
    map ik_key (keys d') = [41]"
proof -
  let ?d = "(demo_db [] [] [])\<lparr> keys := [completed_with (demo_env 0 7) 201 JNull (claimed_key (demo_env 0 7) (demo_ireq 40 ''x'' JNull)),
         completed_with (demo_env 0 7) 201 JNull (claimed_key (demo_env (2 * hour) 7) (demo_ireq 41 ''x'' JNull))] \<rparr>"
  have "db_ok ?d" "idle ?d" by code_simp+
  from cleanup_removes_exactly_the_old_keys[OF healthy_demo this(2,1), of "25 * hour" 7]
  show ?thesis by (auto simp: demo_env_def completed_with_def claimed_key_def demo_ireq_def)
qed

text \<open>The recurring confirm claims its key in a transaction of its own: when the work that
  follows fails, the key stays in progress, every repetition is told \<open>request_in_progress\<close>
  whatever its body, and only the cleanup, a day later, releases the key.\<close>

theorem failed_confirm_blocks_its_key:
  assumes "healthy env" "idle d" "db_ok d" "iq_user req \<in> List.set (map au_id (users d))"
    and "list_all (\<lambda>k. \<not> (ik_user k = iq_user req \<and> ik_key k = iq_key req)) (keys d)"
    and "\<And>d'. idle d' \<Longrightarrow> db_ok d' \<Longrightarrow> \<exists>d2. w d' = (Inl e, d2) \<and> idle d2 \<and> db_ok d2 \<and> keys d2 = keys d'"
  shows "\<exists>d1. run_idempotent_recurring_confirm env env2 req w d = (Inl e, d1) \<and>
    (\<forall>env' env2' req' w'. healthy env' \<and> iq_user req' = iq_user req \<and> iq_key req' = iq_key req \<longrightarrow>
       run_idempotent_recurring_confirm env' env2' req' w' d1 = (Inl RequestInProgressError, d1)) \<and>
    (\<forall>env'. healthy env' \<and> ev_py_now env + 24 * hour < ev_py_now env' \<longrightarrow>
       list_all (\<lambda>k. \<not> (ik_user k = iq_user req \<and> ik_key k = iq_key req))
         (keys (snd (cleanup_expired_idempotency_keys env' d1))))"
proof -
  have ok: "tables_ok d" "fk_ok d" "\<not> in_tx d" using assms(2,3) by (auto simp: db_ok_def idle_def)
  have none: "list_all (\<lambda>k. \<not> owns_key req k) (keys d)" using assms(5) by (simp add: owns_key_def)
  obtain z where c: "claim_key env req None (begin_tx d)
      = (Inr (), (begin_tx d)\<lparr> sess := z, keys := keys d @ [claimed_key env req] \<rparr>)" (is "_ = (_, ?d1)")
    using claim_key_fresh[of env req "begin_tx d"] none assms(1) by auto
  let ?d0 = "d\<lparr> keys := keys d @ [claimed_key env req] \<rparr>"
  have "fk_ok ?d1" using ok(2) assms(4) by (simp add: fk_ok_def claimed_key_def)
  then have a: "atomic env (claim_key env req None) d = (Inr (), ?d0)"
    using ok(3) assms(1,2) c by (subst atomic_run) (auto intro!: db.equality simp: idle_def)
  have idle0: "idle ?d0" using assms(2) by (simp add: idle_def)
  have ok0: "db_ok ?d0"
  proof -
    have "keeps tx_ok (claim_key env req None)" unfolding claim_key_def by (intro inv_intros)
    then show ?thesis using keepsE[OF safeD2[OF safe_atomic] assms(3) a] by blast
  qed
  obtain d1 where w: "w ?d0 = (Inl e, d1)" "idle d1" "db_ok d1" "keys d1 = keys ?d0"
    using assms(6)[OF idle0 ok0] by auto
  have run: "run_idempotent_recurring_confirm env env2 req w d = (Inl e, d1)"
    using a w(1) by (simp add: run_idempotent_recurring_confirm_def)
  have blocked: "run_idempotent_recurring_confirm env' env2' req' w' d1 = (Inl RequestInProgressError, d1)"
    if "healthy env'" "iq_user req' = iq_user req" "iq_key req' = iq_key req" for env' env2' req' w'
  proof -
    have f: "find (owns_key req') (keys d1) = Some (claimed_key env req)"
      using find_owned_append[OF none] same_owner[OF that(2,3)] w(4) by simp
    have "fst (claim_key env' req' None (begin_tx d1)) = Inl (DatabaseError (Some KEY_CLAIM_UNIQUE_VIOLATION))"
      using claim_key_taken[OF that(1), of "claimed_key env req" "begin_tx d1" req'] w(4)
        same_owner[OF that(2,3)] by simp
    then obtain x where "claim_key env' req' None (begin_tx d1) = (Inl (DatabaseError (Some KEY_CLAIM_UNIQUE_VIOLATION)), x)"
      by (metis prod.collapse)
    then have "atomic env' (claim_key env' req' None) d1 = (Inl (DatabaseError (Some KEY_CLAIM_UNIQUE_VIOLATION)), d1)"
      using w(2) by (intro atomic_fail) (auto simp: idle_def)
    then show ?thesis
      using f by (simp add: run_idempotent_recurring_confirm_def claim_failed_def claimed_key_def
          replay_or_conflict_allowing_in_progress_def bind_svc_Inr[OF get_row_Some])
  qed
  have clean: "list_all (\<lambda>k. \<not> (ik_user k = iq_user req \<and> ik_key k = iq_key req))
      (keys (snd (cleanup_expired_idempotency_keys env' d1)))"
    if "healthy env'" "ev_py_now env + 24 * hour < ev_py_now env'" for env'
  proof -
    note h = that
    obtain d2 n where "cleanup_expired_idempotency_keys env' d1 = (Inr n, d2)"
      "keys d2 = filter (\<lambda>k. ev_py_now env' - ik_created_at k \<le> 24 * hour) (keys d1)"
      using cleanup_eq[OF h(1) w(2,3)] by blast
    then show ?thesis using assms(5) h(2) w(4) by (auto simp: list_all_iff claimed_key_def)
  qed
  show ?thesis using run blocked clean by blast
qed


theorem failed_confirm_blocks_its_key_witness:
  "\<exists>d1. run_idempotent_recurring_confirm (demo_env 0 7) (demo_env 0 7) (demo_ireq 40 ''x'' JNull)
       (raise (ServiceUnavailableError 5 ''failover'')) (demo_db [] [] [])
     = (Inl (ServiceUnavailableError 5 ''failover''), d1) \<and>
   run_idempotent_recurring_confirm (demo_env 9 8) (demo_env 9 8) (demo_ireq 40 ''x'' JNull)
       (demo_post (demo_env 9 8)) d1 = (Inl RequestInProgressError, d1) \<and>
   list_all (\<lambda>k. \<not> (ik_user k = 1 \<and> ik_key k = 40))
     (keys (snd (cleanup_expired_idempotency_keys (demo_env (25 * hour) 9) d1)))"
proof -
  let ?e = "ServiceUnavailableError 5 ''failover''" and ?d = "demo_db [] [] []"
  have p: "idle ?d" "db_ok ?d" "iq_user (demo_ireq 40 ''x'' JNull) \<in> List.set (map au_id (users ?d))"
    "list_all (\<lambda>k. \<not> (ik_user k = iq_user (demo_ireq 40 ''x'' JNull) \<and> ik_key k = iq_key (demo_ireq 40 ''x'' JNull))) (keys ?d)"
    by (simp_all add: demo_simps demo_ireq_def)
  have w: "\<exists>d2. raise ?e d' = (Inl ?e, d2) \<and> idle d2 \<and> db_ok d2 \<and> keys d2 = keys d'"
    if "idle d'" "db_ok d'" for d' using that by simp
  obtain d1 where d1: "run_idempotent_recurring_confirm (demo_env 0 7) (demo_env 0 7) (demo_ireq 40 ''x'' JNull)
       (raise ?e) ?d = (Inl ?e, d1)"
    "\<And>env' env2' req' w'. healthy env' \<and> iq_user req' = iq_user (demo_ireq 40 ''x'' JNull) \<and>
        iq_key req' = iq_key (demo_ireq 40 ''x'' JNull) \<Longrightarrow>
       run_idempotent_recurring_confirm env' env2' req' w' d1 = (Inl RequestInProgressError, d1)"
    "\<And>env'. healthy env' \<and> ev_py_now (demo_env 0 7) + 24 * hour < ev_py_now env' \<Longrightarrow>
       list_all (\<lambda>k. \<not> (ik_user k = iq_user (demo_ireq 40 ''x'' JNull) \<and> ik_key k = iq_key (demo_ireq 40 ''x'' JNull)))
         (keys (snd (cleanup_expired_idempotency_keys env' d1)))"
    using failed_confirm_blocks_its_key[OF healthy_demo p(1,2,3,4) w, of 0 7 "demo_env 0 7"] by blast
  show ?thesis
    using d1(1) d1(2)[of "demo_env 9 8" "demo_ireq 40 ''x'' JNull"] d1(3)[of "demo_env (25 * hour) 9"]
    by (intro exI[of _ d1]) (simp add: demo_ireq_def, simp add: demo_env_def)
qed

section \<open>The fingerprint does not see the order of keys\<close>

lemma text_le_total: "text_le xs ys \<or> text_le ys xs"
proof (induction xs ys rule: text_le.induct)
  case (3 x xs y ys)
  then show ?case by (cases "of_char x :: nat" "of_char y :: nat" rule: linorder_cases) auto
qed auto

lemma text_le_antisym: "text_le xs ys \<Longrightarrow> text_le ys xs \<Longrightarrow> xs = ys"
proof (induction xs ys rule: text_le.induct)
  case (1 ys)
  then show ?case by (cases ys) auto
qed auto

lemma text_le_trans: "text_le xs ys \<Longrightarrow> text_le ys zs \<Longrightarrow> text_le xs zs"
proof (induction xs ys arbitrary: zs rule: text_le.induct)
  case (3 x xs y ys)
  then show ?case by (cases zs) auto
qed auto

lemma mset_insert_key [simp]: "mset (insert_key_sorted p ps) = add_mset p (mset ps)"
  by (induction ps) auto

lemma mset_sort_keys [simp]: "mset (sort_keys ps) = mset ps"
  by (induction ps) (auto simp: sort_keys_def)

lemma set_insert_key [simp]: "List.set (insert_key_sorted p ps) = insert p (List.set ps)"
  by (metis mset_insert_key set_mset_add_mset_insert set_mset_mset)

abbreviation key_le :: "string \<times> 'v \<Rightarrow> string \<times> 'v \<Rightarrow> bool" where
  "key_le p q \<equiv> text_le (fst p) (fst q)"

lemma sorted_insert_key:
  "sorted_wrt key_le ps \<Longrightarrow> sorted_wrt key_le (insert_key_sorted p ps)"
proof (induction ps)
  case (Cons q qs)
  show ?case
  proof (cases "text_le (fst p) (fst q)")
    case True
    then show ?thesis using Cons.prems text_le_trans by auto
  next
    case False
    then have "text_le (fst q) (fst p)" using text_le_total by blast
    then show ?thesis using Cons False by auto
  qed
qed simp

lemma sorted_sort_keys: "sorted_wrt key_le (sort_keys ps)"
  by (induction ps) (auto simp: sort_keys_def sorted_insert_key)

text \<open>A sorted list with distinct keys is determined by its elements.\<close>

lemma sorted_keys_unique:
  fixes ps qs :: "(string \<times> 'v) list"
  assumes "sorted_wrt key_le ps" "sorted_wrt key_le qs" "mset ps = mset qs" "distinct (map fst ps)"
  shows "ps = qs"
  using assms
proof (induction ps arbitrary: qs)
  case (Cons p ps)
  obtain q qs' where qs: "qs = q # qs'" using Cons.prems(3) by (cases qs) auto
  have sets: "insert p (List.set ps) = insert q (List.set qs')"
    using mset_eq_setD[OF Cons.prems(3)] qs by simp
  have "p = q"
  proof (rule ccontr)
    assume "p \<noteq> q"
    then have "q \<in> List.set ps" "p \<in> List.set qs'" using sets by auto
    then have "text_le (fst p) (fst q)" "text_le (fst q) (fst p)" using Cons.prems(1,2) qs by auto
    then have "fst p = fst q" by (rule text_le_antisym)
    then show False using Cons.prems(4) \<open>q \<in> List.set ps\<close> by (metis distinct.simps(2) image_eqI list.simps(9) list.set_map)
  qed
  then show ?case using Cons qs by simp
qed simp

text \<open>Two JSON values with the same meaning: objects are compared up to the order of their keys.\<close>

inductive same_json :: "json \<Rightarrow> json \<Rightarrow> bool" where
  same_atom: "same_json v v"
| same_arr: "list_all2 same_json vs ws \<Longrightarrow> same_json (JArr vs) (JArr ws)"
| same_obj: "distinct (map fst ps) \<Longrightarrow> mset ps = mset ps' \<Longrightarrow>
     list_all2 (\<lambda>p q. fst p = fst q \<and> same_json (snd p) (snd q)) ps' qs \<Longrightarrow>
     same_json (JObj ps) (JObj qs)"

inductive_cases same_objE: "same_json (JObj ps) w"

lemma same_json_dumps: "same_json v w \<Longrightarrow> dumps v = dumps w"
proof (induction rule: same_json.induct)
  case (same_arr vs ws)
  then have "map dumps vs = map dumps ws" by (induction rule: list_all2_induct) auto
  then show ?case by simp
next
  case (same_obj ps ps' qs)
  let ?f = "map (\<lambda>(k, v). (k, dumps v))"
  have "?f ps' = ?f qs"
    using same_obj(3) by (induction rule: list_all2_induct) auto
  then have m: "mset (?f ps) = mset (?f qs)"
    using same_obj(2) by (metis mset_map)
  have "map fst (?f ps) = map fst ps" by (induction ps) auto
  then have "distinct (map fst (sort_keys (?f ps)))"
    using same_obj(1) by (metis mset_sort_keys mset_eq_imp_distinct_iff mset_map)
  then have "sort_keys (?f ps) = sort_keys (?f qs)"
    by (intro sorted_keys_unique sorted_sort_keys) (use m in simp_all)
  then show ?case by simp
qed simp

text \<open>Two bodies that differ only in the order of the keys of their objects, at any depth, have
  the same fingerprint.\<close>

theorem fingerprint_ignores_key_order:
  assumes "same_json v w"
  shows "compute_request_fingerprint env v = compute_request_fingerprint env w"
  using same_json_dumps[OF assms] by (simp add: compute_request_fingerprint_def)

theorem fingerprint_ignores_key_order_witness:
  "compute_request_fingerprint (demo_env 0 1) (JObj [(''start'', JNum 1), (''end'', JNum 2)])
     = compute_request_fingerprint (demo_env 0 1) (JObj [(''end'', JNum 2), (''start'', JNum 1)])"
  by (rule fingerprint_ignores_key_order, rule same_obj[where ps' = "[(''end'', JNum 2), (''start'', JNum 1)]"])
    (auto intro: same_atom)

end
