(* ===== verification/Offboarding.thy ===== *)
theory Offboarding
  imports Waitlist_Services Idempotency Uuids
begin

text \<open>
  \<open>identity/services.py\<close>: the deactivation of a user.  The status is changed first; only the call
  that changes it goes through the user's future one-off bookings (by the policy of each resource),
  outstanding offers, waiting entries and active series.  The function runs inside the transaction
  of the idempotent write; every step opens a savepoint of its own.
\<close>

section \<open>Definitions\<close>

definition grant_before :: "resource_admin \<Rightarrow> resource_admin \<Rightarrow> bool" where
  "grant_before a b =
     (ra_granted_at a < ra_granted_at b \<or> (ra_granted_at a = ra_granted_at b \<and> ra_id a \<le> ra_id b))"

definition resource_admin_for :: "uuid \<Rightarrow> db \<Rightarrow> uuid option" where
  "resource_admin_for res d =
     (case order_by grant_before (filter (\<lambda>a. ra_resource a = res) (admins d)) of
        [] \<Rightarrow> None | a # _ \<Rightarrow> Some (ra_user a))"

record deactivate_request =
  dq_target :: uuid
  dq_actor :: uuid
  dq_reason :: string
  dq_request_id :: string

record deactivate_result =
  dr_user :: uuid
  dr_status :: user_status
  dr_transferred :: nat
  dr_cancelled :: nat
  dr_retained :: nat
  dr_entries_cancelled :: nat
  dr_offers_released :: nat
  dr_series_flagged :: "(uuid \<times> uuid \<times> nat) list"

text \<open>The guarded status change.\<close>

definition flip_status :: "env \<Rightarrow> deactivate_request \<Rightarrow> (nat \<times> app_user) svc" where
  "flip_status env req = atomic env
     (then_svc
       (apply_write_path_session_settings env (Some (dq_actor req)) Actor_admin (dq_request_id req)
          (Some (dq_reason req)))
       (bind_svc (update_users env (\<lambda>u. au_id u = dq_target req \<and> au_status u = User_active)
            (\<lambda>u. u\<lparr> au_status := User_deactivated, au_deactivated_at := Some (ev_py_now env) \<rparr>)) (\<lambda>n.
        bind_svc (get_row users (\<lambda>u. au_id u = dq_target req)) (\<lambda>u. ret (n, u)))))"

datatype disposal = Transferred | Cancelled_off | Retained

definition dispose_booking :: "env \<Rightarrow> deactivate_request \<Rightarrow> booking \<Rightarrow> disposal svc" where
  "dispose_booking env req b =
     bind_svc (get_row resources (\<lambda>r. rs_id r = bk_resource b)) (\<lambda>r. case rs_policy r of
         Transfer \<Rightarrow> bind_svc (query (resource_admin_for (bk_resource b))) (\<lambda>a. case a of
             None \<Rightarrow> ret Retained
           | Some u \<Rightarrow> then_svc (transfer_booking_ownership env b u (dq_request_id req))
                         (ret Transferred))
       | Cancel_and_notify \<Rightarrow>
           then_svc (cancel_booking env \<lparr> xq_booking = b, xq_actor = dq_actor req,
               xq_actor_type = Actor_system, xq_reason = Some (dq_reason req),
               xq_request_id = dq_request_id req \<rparr>)
           (then_svc (on_commit env (notify_admin_cancellation (dq_target req) (rs_name r)
               (lo (bk_range b)) (hi (bk_range b)) (dq_reason req) (dq_request_id req)))
             (ret Cancelled_off))
       | Retain \<Rightarrow> ret Retained)"

fun dispose_bookings :: "env \<Rightarrow> deactivate_request \<Rightarrow> booking list \<Rightarrow> disposal list svc" where
  "dispose_bookings env req [] = ret []"
| "dispose_bookings env req (b # bs) =
     bind_svc (dispose_booking env req b) (\<lambda>x.
     bind_svc (dispose_bookings env req bs) (\<lambda>xs. ret (x # xs)))"

definition one_off :: "env \<Rightarrow> uuid \<Rightarrow> booking \<Rightarrow> bool" where
  "one_off env u b = (bk_user b = u \<and> bk_status b = Confirmed \<and> bk_series b = None \<and>
     ev_py_now env \<le> bk_starts_at b)"

definition active_offers_of :: "uuid \<Rightarrow> db \<Rightarrow> waitlist_offer list" where
  "active_offers_of u d = filter (\<lambda>w. wo_status w = Offer_active \<and>
     list_ex (\<lambda>e. we_id e = wo_entry w \<and> we_user e = u) (entries d)) (offers d)"

fun release_offers :: "env \<Rightarrow> deactivate_request \<Rightarrow> waitlist_offer list \<Rightarrow> unit svc" where
  "release_offers env req [] = ret ()"
| "release_offers env req (w # ws) =
     then_svc (decline_offer env \<lparr> fq_offer = w, fq_user = dq_target req,
         fq_request_id = dq_request_id req, fq_actor_type = Actor_system \<rparr>)
       (release_offers env req ws)"

definition waiting_entries_of :: "uuid \<Rightarrow> db \<Rightarrow> waitlist_entry list" where
  "waiting_entries_of u d = filter (\<lambda>e. we_user e = u \<and> we_status e = Waiting) (entries d)"

fun withdraw_entries :: "env \<Rightarrow> deactivate_request \<Rightarrow> waitlist_entry list \<Rightarrow> unit svc" where
  "withdraw_entries env req [] = ret ()"
| "withdraw_entries env req (e # es) =
     then_svc (cancel_waitlist_entry env \<lparr> wq_entry = we_id e, wq_actor = dq_target req,
         wq_request_id = dq_request_id req, wq_actor_type = Actor_system \<rparr>)
       (withdraw_entries env req es)"

definition occurrences_remaining :: "env \<Rightarrow> recurring_series \<Rightarrow> db \<Rightarrow> nat" where
  "occurrences_remaining env s d = count_if (\<lambda>b. bk_series b = Some (se_id s) \<and>
     bk_status b = Confirmed \<and> ev_py_now env \<le> bk_starts_at b) (bookings d)"

fun flag_series ::
  "env \<Rightarrow> deactivate_request \<Rightarrow> recurring_series list \<Rightarrow> (uuid \<times> uuid \<times> nat) list svc" where
  "flag_series env req [] = ret []"
| "flag_series env req (s # ss) =
     bind_svc (query (occurrences_remaining env s)) (\<lambda>n.
     bind_svc (query (resource_admin_for (se_resource s))) (\<lambda>a.
     bind_svc (query (resource_name (se_resource s))) (\<lambda>nm.
     then_svc (case a of
           None \<Rightarrow> ret ()
         | Some u \<Rightarrow> on_commit env (notify_series_owner_deactivated u nm (uuid_text (se_id s))
             (int_text (int n)) (dq_request_id req)))
       (bind_svc (flag_series env req ss) (\<lambda>xs. ret ((se_id s, se_resource s, n) # xs))))))"

definition deactivate_user :: "env \<Rightarrow> deactivate_request \<Rightarrow> deactivate_result svc" where
  "deactivate_user env req = bind_svc (flip_status env req) (\<lambda>(n, u).
     let zero = \<lparr> dr_user = au_id u, dr_status = au_status u, dr_transferred = 0, dr_cancelled = 0,
          dr_retained = 0, dr_entries_cancelled = 0, dr_offers_released = 0, dr_series_flagged = [] \<rparr>
     in if n = 0 then ret zero
        else bind_svc (query (\<lambda>d. filter (one_off env (au_id u)) (bookings d))) (\<lambda>bs.
          bind_svc (dispose_bookings env req bs) (\<lambda>ds.
          bind_svc (query (active_offers_of (au_id u))) (\<lambda>ws.
          then_svc (release_offers env req ws)
          (bind_svc (query (waiting_entries_of (au_id u))) (\<lambda>es.
          then_svc (withdraw_entries env req es)
          (bind_svc (query (\<lambda>d. filter (\<lambda>s. se_created_by s = au_id u \<and> se_status s = Series_active)
               (series d))) (\<lambda>ss.
          bind_svc (flag_series env req ss) (\<lambda>flags.
            ret (zero\<lparr> dr_transferred := count_if (\<lambda>x. x = Transferred) ds,
              dr_cancelled := count_if (\<lambda>x. x = Cancelled_off) ds,
              dr_retained := count_if (\<lambda>x. x = Retained) ds,
              dr_entries_cancelled := length es, dr_offers_released := length ws,
              dr_series_flagged := flags \<rparr>))))))))))"

section \<open>Safety\<close>

lemma safe_flip_status [inv_intros]: "safe (flip_status env req)"
  unfolding flip_status_def by (intro inv_intros)

lemma safe_dispose_booking [inv_intros]: "safe (dispose_booking env req b)"
  unfolding dispose_booking_def
  by (rule safe_bind, intro inv_intros)
    (auto intro!: inv_intros safe_booking_services split: offboarding_policy.splits)

lemma safe_dispose_bookings [inv_intros]: "safe (dispose_bookings env req bs)"
  by (induction bs) (simp_all only: dispose_bookings.simps safe_ret safe_bind safe_dispose_booking)

lemma safe_release_offers [inv_intros]: "safe (release_offers env req ws)"
  by (induction ws) (simp_all only: release_offers.simps safe_ret safe_then safe_decline)

lemma safe_withdraw_entries [inv_intros]: "safe (withdraw_entries env req es)"
  by (induction es) (simp_all only: withdraw_entries.simps safe_ret safe_then safe_cancel_entry)

lemma safe_flag_series [inv_intros]: "safe (flag_series env req ss)"
  by (induction ss) (simp_all only: flag_series.simps safe_ret safe_then safe_bind safe_query
      safe_option safe_on_commit)

lemma safe_deactivate [inv_intros]: "safe (deactivate_user env req)"
  unfolding deactivate_user_def Let_def by (rule safe_bind, intro inv_intros) (auto intro!: inv_intros)

end
