(* ===== verification/Offboarding_Properties.thy ===== *)
theory Offboarding_Properties
  imports Offboarding Waitlist_Race
begin

text \<open>
  What the deactivation of a user leaves behind, inside the transaction of the idempotent write.
  Each step of the cascade is given as a record update of the database; the session variables, the
  audit trail and the registered callbacks are left open.
\<close>

section \<open>One step\<close>

abbreviation reassigned :: "uuid \<Rightarrow> booking \<Rightarrow> booking" where
  "reassigned u b \<equiv> b\<lparr> bk_user := u \<rparr>"

lemma bookings_update_user:
  assumes "tables_ok d"
  shows "upd_rows check_booking P (reassigned u) [] (bookings d)
    = Inr (updated P (reassigned u) (bookings d))"
  using assms bk.ok_row
  by (intro bk.update_relaxing)
    (auto simp: tables_ok_def booking_row_ok_def hold_has_expiry_def booking_pair_ok_def
      bookings_conflict_def)

lemma transfer_in_tx:
  assumes "healthy env" "tables_ok d" "in_tx d" "b \<in> List.set (bookings d)"
  shows "\<exists>x s a. transfer_booking_ownership env b u rid d = (Inr x,
    d\<lparr> bookings := updated (\<lambda>r. bk_id r = bk_id b) (reassigned u) (bookings d),
       sess := s, audit := a \<rparr>)"
proof -
  have "find (\<lambda>r. bk_id r = bk_id b) (bookings d) = Some b" by (rule find_booking[OF assms(2,4)])
  then obtain s a where "transfer_booking_ownership env b u rid d = (Inr (reassigned u b),
      d\<lparr> sess := s, bookings := updated (\<lambda>r. bk_id r = bk_id b) (reassigned u) (bookings d), audit := a \<rparr>)"
    using assms(1,3) bookings_update_user[OF assms(2)]
    by (simp add: transfer_booking_ownership_def atomic_def then_svc_def bind_svc_def
        update_bookings_def update_rows_def run_stmt_def log_eqs get_row_def find_updated)
  moreover have "d\<lparr> sess := s, bookings := bs, audit := a \<rparr> = d\<lparr> bookings := bs, sess := s, audit := a \<rparr>" for bs
    by (rule db.equality) simp_all
  ultimately show ?thesis by metis
qed

lemma cancel_in_tx:
  assumes "healthy env" "tables_ok d" "in_tx d" "b \<in> List.set (bookings d)" "bk_status b = Confirmed"
    and "bk_id (xq_booking xr) = bk_id b"
  shows "\<exists>x s a h. cancel_booking env xr d = (Inr x,
    d\<lparr> bookings := updated (\<lambda>r. bk_id r = bk_id b)
         (cancelled_row (ev_py_now env) (xq_actor xr) (xq_reason xr)) (bookings d),
       sess := s, audit := a, hooks := h \<rparr>)"
proof -
  have f: "cancel_row env xr = cancelled_row (ev_py_now env) (xq_actor xr) (xq_reason xr)"
    by (simp add: fun_eq_iff cancel_row_def)
  have "cancel_tx env xr d = (Inr (cancel_row env xr b, False),
      (cancelled_db env xr b d)\<lparr> sess := Some (cancel_session xr), hooks := hooks d @ cancel_hooks xr b d \<rparr>)"
    using cancel_tx_eq[OF assms(1-4,6)] assms(5) by simp
  then have "cancel_booking env xr d = (Inr (cancel_row env xr b, False),
      (cancelled_db env xr b d)\<lparr> sess := Some (cancel_session xr), hooks := hooks d @ cancel_hooks xr b d \<rparr>)"
    using assms(3) by (simp add: cancel_booking_tx atomic_in_tx)
  moreover have "(cancelled_db env xr b d)\<lparr> sess := Some (cancel_session xr), hooks := hooks d @ cancel_hooks xr b d \<rparr>
      = d\<lparr> bookings := updated (\<lambda>r. bk_id r = bk_id b)
         (cancelled_row (ev_py_now env) (xq_actor xr) (xq_reason xr)) (bookings d),
       sess := Some (cancel_session xr), audit := audit (cancelled_db env xr b d),
       hooks := hooks d @ cancel_hooks xr b d \<rparr>"
    by (rule db.equality) (simp_all add: cancelled_db_def f)
  ultimately show ?thesis by metis
qed

text \<open>The row a future one-off booking becomes.\<close>

definition disposed_row :: "env \<Rightarrow> deactivate_request \<Rightarrow> db \<Rightarrow> booking \<Rightarrow> booking" where
  "disposed_row env req d b =
     (case find (\<lambda>r. rs_id r = bk_resource b) (resources d) of
        None \<Rightarrow> b
      | Some r \<Rightarrow> (case rs_policy r of
          Transfer \<Rightarrow> (case resource_admin_for (bk_resource b) d of None \<Rightarrow> b | Some u \<Rightarrow> reassigned u b)
        | Cancel_and_notify \<Rightarrow> cancelled_row (ev_py_now env) (dq_actor req) (Some (dq_reason req)) b
        | Retain \<Rightarrow> b))"

definition disposal_of :: "db \<Rightarrow> booking \<Rightarrow> disposal" where
  "disposal_of d b =
     (case find (\<lambda>r. rs_id r = bk_resource b) (resources d) of
        None \<Rightarrow> Retained
      | Some r \<Rightarrow> (case rs_policy r of
          Transfer \<Rightarrow> (if resource_admin_for (bk_resource b) d = None then Retained else Transferred)
        | Cancel_and_notify \<Rightarrow> Cancelled_off | Retain \<Rightarrow> Retained))"

lemma disposed_frame:
  "resources d' = resources d \<Longrightarrow> admins d' = admins d \<Longrightarrow>
   disposed_row env req d' = disposed_row env req d \<and> disposal_of d' = disposal_of d"
proof -
  assume "resources d' = resources d" "admins d' = admins d"
  moreover from this(2) have "resource_admin_for res d' = resource_admin_for res d" for res
    by (simp add: resource_admin_for_def)
  ultimately show ?thesis
    by (auto simp: fun_eq_iff disposed_row_def disposal_of_def
        split: option.splits offboarding_policy.splits)
qed

lemma updated_row_cong:
  assumes "tables_ok d" "b \<in> List.set (bookings d)" "f b = g b"
  shows "updated (\<lambda>r. bk_id r = bk_id b) f (bookings d) = updated (\<lambda>r. bk_id r = bk_id b) g (bookings d)"
  unfolding updated_def
  using assms(3) booking_ids_unique[OF assms(1) _ assms(2)] by (intro map_cong refl) auto

lemma updated_same: "(\<And>r. P r \<Longrightarrow> f r = r) \<Longrightarrow> updated P f rs = rs"
  by (induction rs) auto

lemma dispose_booking_in_tx:
  assumes "healthy env" "tables_ok d" "in_tx d" "b \<in> List.set (bookings d)" "bk_status b = Confirmed"
    and "find (\<lambda>r. rs_id r = bk_resource b) (resources d) = Some r"
  shows "\<exists>s a h. dispose_booking env req b d = (Inr (disposal_of d b),
    d\<lparr> bookings := updated (\<lambda>r. bk_id r = bk_id b) (disposed_row env req d) (bookings d),
       sess := s, audit := a, hooks := h \<rparr>)"
proof -
  note upd = updated_row_cong[OF assms(2,4), of "disposed_row env req d"]
  have keep: "updated (\<lambda>r. bk_id r = bk_id b) (disposed_row env req d) (bookings d) = bookings d"
    if "disposed_row env req d b = b"
    using upd[of "\<lambda>x. x"] that updated_same[of "\<lambda>r. bk_id r = bk_id b" "\<lambda>x. x"] by simp
  have same: "d = d\<lparr> bookings := bookings d, sess := sess d, audit := audit d, hooks := hooks d \<rparr>"
    by simp
  show ?thesis
  proof (cases "rs_policy r")
    case Transfer
    show ?thesis
    proof (cases "resource_admin_for (bk_resource b) d")
      case None
      then have "disposed_row env req d b = b" using assms(6) Transfer by (simp add: disposed_row_def)
      moreover have "dispose_booking env req b d = (Inr (disposal_of d b), d)"
        using assms(6) Transfer None by (simp add: dispose_booking_def disposal_of_def bind_svc_def)
      ultimately show ?thesis using keep same by metis
    next
      case (Some u)
      obtain x s a where t: "transfer_booking_ownership env b u (dq_request_id req) d = (Inr x,
          d\<lparr> bookings := updated (\<lambda>r. bk_id r = bk_id b) (reassigned u) (bookings d), sess := s, audit := a \<rparr>)"
        using transfer_in_tx[OF assms(1-4)] by blast
      have "dispose_booking env req b d = (Inr (disposal_of d b),
          d\<lparr> bookings := updated (\<lambda>r. bk_id r = bk_id b) (reassigned u) (bookings d), sess := s, audit := a \<rparr>)"
        using assms(6) Transfer Some t by (simp add: dispose_booking_def disposal_of_def bind_svc_def then_svc_def)
      moreover have "updated (\<lambda>r. bk_id r = bk_id b) (disposed_row env req d) (bookings d)
          = updated (\<lambda>r. bk_id r = bk_id b) (reassigned u) (bookings d)"
        using assms(6) Transfer Some by (intro upd) (simp add: disposed_row_def)
      ultimately show ?thesis by (intro exI[of _ s] exI[of _ a] exI[of _ "hooks d"]) simp
    qed
  next
    case Cancel_and_notify
    let ?xr = "\<lparr> xq_booking = b, xq_actor = dq_actor req, xq_actor_type = Actor_system,
        xq_reason = Some (dq_reason req), xq_request_id = dq_request_id req \<rparr>"
    obtain x s a h where c: "cancel_booking env ?xr d = (Inr x, d\<lparr> bookings := updated (\<lambda>r. bk_id r = bk_id b)
         (cancelled_row (ev_py_now env) (dq_actor req) (Some (dq_reason req))) (bookings d),
       sess := s, audit := a, hooks := h \<rparr>)"
      using cancel_in_tx[OF assms(1-5), of ?xr] by auto
    have "updated (\<lambda>r. bk_id r = bk_id b) (disposed_row env req d) (bookings d)
        = updated (\<lambda>r. bk_id r = bk_id b)
            (cancelled_row (ev_py_now env) (dq_actor req) (Some (dq_reason req))) (bookings d)"
      using assms(6) Cancel_and_notify by (intro upd) (simp add: disposed_row_def)
    then show ?thesis
      using assms(3,6) Cancel_and_notify c
      by (auto simp: dispose_booking_def disposal_of_def bind_svc_def then_svc_def on_commit_def)
  next
    case Retain
    then have "disposed_row env req d b = b" using assms(6) by (simp add: disposed_row_def)
    moreover have "dispose_booking env req b d = (Inr (disposal_of d b), d)"
      using assms(6) Retain by (simp add: dispose_booking_def disposal_of_def bind_svc_def)
    ultimately show ?thesis using keep same by metis
  qed
qed

section \<open>The loops\<close>

lemma disposed_row_id [simp]: "bk_id (disposed_row env req d b) = bk_id b"
  by (auto simp: disposed_row_def cancelled_row_def split: option.splits offboarding_policy.splits)

lemma dispose_bookings_in_tx:
  assumes "healthy env" "tx_ok d" "distinct (map bk_id bs)" "List.set bs \<subseteq> List.set (bookings d)"
    and "\<And>b. b \<in> List.set bs \<Longrightarrow> bk_status b = Confirmed \<and>
      (\<exists>r. find (\<lambda>r. rs_id r = bk_resource b) (resources d) = Some r)"
  shows "\<exists>s a h. dispose_bookings env req bs d = (Inr (map (disposal_of d) bs),
    d\<lparr> bookings := updated (\<lambda>r. bk_id r \<in> bk_id ` List.set bs) (disposed_row env req d) (bookings d),
       sess := s, audit := a, hooks := h \<rparr>)"
  using assms(2-)
proof (induction bs arbitrary: d)
  case Nil
  show ?case by (intro exI[of _ "sess d"] exI[of _ "audit d"] exI[of _ "hooks d"]) simp
next
  case (Cons b bs)
  have ok: "tables_ok d" "in_tx d" using Cons.prems(1) by (simp_all add: tx_ok_def)
  obtain r where r: "bk_status b = Confirmed" "find (\<lambda>r. rs_id r = bk_resource b) (resources d) = Some r"
    using Cons.prems(4)[of b] by auto
  obtain s a h where one: "dispose_booking env req b d = (Inr (disposal_of d b),
      d\<lparr> bookings := updated (\<lambda>r. bk_id r = bk_id b) (disposed_row env req d) (bookings d),
         sess := s, audit := a, hooks := h \<rparr>)" (is "_ = (_, ?d1)")
    using dispose_booking_in_tx[OF assms(1) ok _ r, of req] Cons.prems(3) by (meson list.set_intros(1) subset_iff)
  have f: "disposed_row env req ?d1 = disposed_row env req d" "disposal_of ?d1 = disposal_of d"
    using disposed_frame[of ?d1 d env req] by simp_all
  have tx1: "tx_ok ?d1" using keepsE[OF safeD1[OF safe_dispose_booking] Cons.prems(1) one] .
  have rest: "List.set bs \<subseteq> List.set (bookings ?d1)"
    using Cons.prems(2,3) by (fastforce simp: set_updated image_iff)
  obtain s' a' h' where more: "dispose_bookings env req bs ?d1 = (Inr (map (disposal_of d) bs),
      ?d1\<lparr> bookings := updated (\<lambda>r. bk_id r \<in> bk_id ` List.set bs) (disposed_row env req d) (bookings ?d1),
         sess := s', audit := a', hooks := h' \<rparr>)"
    using Cons.IH[OF tx1 _ rest] Cons.prems(2,4) f by auto
  have "updated (\<lambda>r. bk_id r \<in> bk_id ` List.set bs) (disposed_row env req d)
      (updated (\<lambda>r. bk_id r = bk_id b) (disposed_row env req d) (bookings d))
    = updated (\<lambda>r. bk_id r \<in> bk_id ` List.set (b # bs)) (disposed_row env req d) (bookings d)"
    using Cons.prems(2) by (subst updated_twice) (auto intro: updated_cong)
  then show ?case
    using one more by (intro exI[of _ s'] exI[of _ a'] exI[of _ h']) (simp add: bind_svc_def)
qed

abbreviation declined :: "waitlist_offer \<Rightarrow> waitlist_offer" where
  "declined w \<equiv> w\<lparr> wo_status := Offer_declined \<rparr>"

abbreviation with_status :: "entry_status \<Rightarrow> waitlist_entry \<Rightarrow> waitlist_entry" where
  "with_status st e \<equiv> e\<lparr> we_status := st \<rparr>"

lemma decline_in_tx:
  assumes "healthy env" "tables_ok d" "in_tx d" "w \<in> List.set (offers d)" "wo_status w = Offer_active"
    and "fq_offer fr = w"
  shows "\<exists>x s a h. decline_offer env fr d = (Inr x,
    d\<lparr> bookings := updated (\<lambda>b. bk_id b = wo_hold w \<and> bk_status b = Held)
         (release_row (ev_py_now env)) (bookings d),
       entries := updated (\<lambda>e. we_id e = wo_entry w) (with_status Entry_expired) (entries d),
       offers := updated (\<lambda>v. wo_id v = wo_id w \<and> wo_status v = Offer_active) declined (offers d),
       sess := s, audit := a, hooks := h \<rparr>)"
proof -
  have "find (\<lambda>v. wo_id v = wo_id w) (offers d) = Some w" by (rule find_offer[OF assms(2,4) refl])
  moreover obtain log s where "decline_tx env fr d = (Inr (),
      (declined_db env fr log (d\<lparr> sess := s \<rparr>))\<lparr> hooks := hooks d @ [cascade_of fr] \<rparr>)" (is "_ = (_, ?d1)")
    using decline_tx_cases[OF assms(1-4), of fr] assms(5,6) by auto
  moreover have "?d1 = d\<lparr> bookings := updated (\<lambda>b. bk_id b = wo_hold w \<and> bk_status b = Held)
         (release_row (ev_py_now env)) (bookings d),
       entries := updated (\<lambda>e. we_id e = wo_entry w) (with_status Entry_expired) (entries d),
       offers := updated (\<lambda>v. wo_id v = wo_id w \<and> wo_status v = Offer_active) declined (offers d),
       sess := s, audit := audit d @ log, hooks := hooks d @ [cascade_of fr] \<rparr>"
    by (rule db.equality) (simp_all add: declined_db_def assms(6))
  ultimately have "decline_offer env fr d = (Inr (declined w),
      d\<lparr> bookings := updated (\<lambda>b. bk_id b = wo_hold w \<and> bk_status b = Held)
         (release_row (ev_py_now env)) (bookings d),
       entries := updated (\<lambda>e. we_id e = wo_entry w) (with_status Entry_expired) (entries d),
       offers := updated (\<lambda>v. wo_id v = wo_id w \<and> wo_status v = Offer_active) declined (offers d),
       sess := s, audit := audit d @ log, hooks := hooks d @ [cascade_of fr] \<rparr>)"
    using assms(3,5,6) by (simp add: decline_offer_tx atomic_in_tx get_row_def find_updated)
  then show ?thesis by blast
qed

lemma updated_idem:
  assumes "\<And>r. f (f r) = f r" "\<And>r. Q (f r) = Q r"
  shows "updated Q f (updated P f rs) = updated (\<lambda>r. P r \<or> Q r) f rs"
  using assms by (induction rs) auto

lemma release_offers_in_tx:
  assumes "healthy env" "tx_ok d" "distinct (map wo_id ws)" "List.set ws \<subseteq> List.set (offers d)"
    and "\<And>w. w \<in> List.set ws \<Longrightarrow> wo_status w = Offer_active"
  shows "\<exists>s a h. release_offers env req ws d = (Inr (),
    d\<lparr> bookings := updated (\<lambda>b. bk_id b \<in> wo_hold ` List.set ws \<and> bk_status b = Held)
         (release_row (ev_py_now env)) (bookings d),
       entries := updated (\<lambda>e. we_id e \<in> wo_entry ` List.set ws) (with_status Entry_expired) (entries d),
       offers := updated (\<lambda>v. wo_id v \<in> wo_id ` List.set ws \<and> wo_status v = Offer_active) declined (offers d),
       sess := s, audit := a, hooks := h \<rparr>)"
  using assms(2-)
proof (induction ws arbitrary: d)
  case Nil
  show ?case by (intro exI[of _ "sess d"] exI[of _ "audit d"] exI[of _ "hooks d"]) simp
next
  case (Cons w ws)
  let ?fr = "\<lparr> fq_offer = w, fq_user = dq_target req, fq_request_id = dq_request_id req,
    fq_actor_type = Actor_system \<rparr>"
  have ok: "tables_ok d" "in_tx d" using Cons.prems(1) by (simp_all add: tx_ok_def)
  obtain x s a h where one: "decline_offer env ?fr d = (Inr x,
    d\<lparr> bookings := updated (\<lambda>b. bk_id b = wo_hold w \<and> bk_status b = Held)
         (release_row (ev_py_now env)) (bookings d),
       entries := updated (\<lambda>e. we_id e = wo_entry w) (with_status Entry_expired) (entries d),
       offers := updated (\<lambda>v. wo_id v = wo_id w \<and> wo_status v = Offer_active) declined (offers d),
       sess := s, audit := a, hooks := h \<rparr>)" (is "_ = (_, ?d1)")
    using decline_in_tx[OF assms(1) ok _ Cons.prems(4), of w ?fr] Cons.prems(3) by auto
  have tx1: "tx_ok ?d1" using keepsE[OF safeD1[OF safe_decline] Cons.prems(1) one] .
  have rest: "List.set ws \<subseteq> List.set (offers ?d1)"
    using Cons.prems(2,3) by (fastforce simp: set_updated image_iff)
  obtain s' a' h' where more: "release_offers env req ws ?d1 = (Inr (),
    ?d1\<lparr> bookings := updated (\<lambda>b. bk_id b \<in> wo_hold ` List.set ws \<and> bk_status b = Held)
         (release_row (ev_py_now env)) (bookings ?d1),
       entries := updated (\<lambda>e. we_id e \<in> wo_entry ` List.set ws) (with_status Entry_expired) (entries ?d1),
       offers := updated (\<lambda>v. wo_id v \<in> wo_id ` List.set ws \<and> wo_status v = Offer_active) declined (offers ?d1),
       sess := s', audit := a', hooks := h' \<rparr>)"
    using Cons.IH[OF tx1 _ rest] Cons.prems(2,4) by auto
  have "updated (\<lambda>b. bk_id b \<in> wo_hold ` List.set ws \<and> bk_status b = Held) (release_row (ev_py_now env))
      (updated (\<lambda>b. bk_id b = wo_hold w \<and> bk_status b = Held) (release_row (ev_py_now env)) (bookings d))
    = updated (\<lambda>b. bk_id b \<in> wo_hold ` List.set (w # ws) \<and> bk_status b = Held)
      (release_row (ev_py_now env)) (bookings d)"
    by (subst updated_twice) (auto intro: updated_cong)
  moreover have "updated (\<lambda>e. we_id e \<in> wo_entry ` List.set ws) (with_status Entry_expired)
      (updated (\<lambda>e. we_id e = wo_entry w) (with_status Entry_expired) (entries d))
    = updated (\<lambda>e. we_id e \<in> wo_entry ` List.set (w # ws)) (with_status Entry_expired) (entries d)"
    by (subst updated_idem) (auto intro: updated_cong)
  moreover have "updated (\<lambda>v. wo_id v \<in> wo_id ` List.set ws \<and> wo_status v = Offer_active) declined
      (updated (\<lambda>v. wo_id v = wo_id w \<and> wo_status v = Offer_active) declined (offers d))
    = updated (\<lambda>v. wo_id v \<in> wo_id ` List.set (w # ws) \<and> wo_status v = Offer_active) declined (offers d)"
    by (subst updated_twice) (auto intro: updated_cong)
  ultimately show ?case
    using one more by (intro exI[of _ s'] exI[of _ a'] exI[of _ h']) (simp add: then_svc_def bind_svc_def)
qed

lemma withdraw_in_tx:
  assumes "healthy env" "tables_ok d" "in_tx d" "e \<in> List.set (entries d)" "we_status e = Waiting"
    and "wq_entry wr = we_id e"
  shows "\<exists>x s a. cancel_waitlist_entry env wr d = (Inr x,
    d\<lparr> entries := updated (\<lambda>r. we_id r = we_id e \<and> we_status r = Waiting) (with_status Entry_cancelled)
         (entries d), sess := s, audit := a \<rparr>)"
proof -
  have found: "find (\<lambda>r. we_id r = we_id e) (entries d) = Some e"
    using entry_ids_unique[OF assms(2) _ assms(4)] by (intro find_by_unique[OF assms(4)]) auto
  let ?P = "\<lambda>r. we_id r = we_id e \<and> we_status r = Waiting"
  let ?f = "with_status Entry_cancelled"
  define s where "s = Some \<lparr> ss_actor_id = session_actor (wq_actor_type wr) (wq_actor wr),
    ss_actor_type = wq_actor_type wr, ss_reason = None, ss_request_id = nullif_empty (wq_request_id wr) \<rparr>"
  define a where "a = audit d @ map (\<lambda>r. audit_row env s Audit_update (EEntry (?f r))
    (Some (EEntry r)) (Some (EEntry (?f r)))) (filter ?P (entries d))"
  have upd: "update_entries env ?P ?f (d\<lparr> sess := s \<rparr>) = (Inr (count_if ?P (entries d)),
      d\<lparr> sess := s, entries := updated ?P ?f (entries d), audit := a \<rparr>)"
    using assms(1) by (simp add: update_entries_def update_rows_def run_stmt_def log_eqs a_def
        entries_update_leaving[OF assms(2)])
  have "cancel_waitlist_entry env wr d = (Inr (?f e, count_if ?P (entries d) = 0),
      d\<lparr> sess := s, entries := updated ?P ?f (entries d), audit := a \<rparr>)"
    unfolding cancel_waitlist_entry_def
  proof (rule atomic_in_tx[OF assms(3)])
    have set: "apply_write_path_session_settings env (session_actor (wq_actor_type wr) (wq_actor wr))
        (wq_actor_type wr) (wq_request_id wr) None d = (Inr (), d\<lparr> sess := s \<rparr>)"
      using assms(1) by (simp add: s_def)
    have got: "find (\<lambda>r. we_id r = we_id e) (updated ?P ?f (entries d)) = Some (?f e)"
      using find_updated[of ?P "\<lambda>r. we_id r = we_id e" ?f "entries d"] found assms(5) by simp
    show "then_svc (apply_write_path_session_settings env (session_actor (wq_actor_type wr) (wq_actor wr))
        (wq_actor_type wr) (wq_request_id wr) None)
       (bind_svc (update_entries env (\<lambda>w. we_id w = wq_entry wr \<and> we_status w = Waiting)
            (\<lambda>w. w\<lparr> we_status := Entry_cancelled \<rparr>)) (\<lambda>n.
        bind_svc (get_row entries (\<lambda>w. we_id w = wq_entry wr)) (\<lambda>w.
          ret (w, n = 0)))) d = (Inr (?f e, count_if ?P (entries d) = 0),
      d\<lparr> sess := s, entries := updated ?P ?f (entries d), audit := a \<rparr>)"
      unfolding assms(6) then_svc_def bind_svc_def set prod.case sum.case upd get_row_def
      by (simp add: got)
  qed
  moreover have "d\<lparr> sess := s, entries := es, audit := a \<rparr> = d\<lparr> entries := es, sess := s, audit := a \<rparr>" for es
    by (rule db.equality) simp_all
  ultimately have "cancel_waitlist_entry env wr d = (Inr (?f e, count_if ?P (entries d) = 0),
      d\<lparr> entries := updated ?P ?f (entries d), sess := s, audit := a \<rparr>)" by (simp only:)
  then show ?thesis by blast
qed

lemma withdraw_entries_in_tx:
  assumes "healthy env" "tx_ok d" "distinct (map we_id es)" "List.set es \<subseteq> List.set (entries d)"
    and "\<And>e. e \<in> List.set es \<Longrightarrow> we_status e = Waiting"
  shows "\<exists>s a. withdraw_entries env req es d = (Inr (),
    d\<lparr> entries := updated (\<lambda>r. we_id r \<in> we_id ` List.set es \<and> we_status r = Waiting)
         (with_status Entry_cancelled) (entries d), sess := s, audit := a \<rparr>)"
  using assms(2-)
proof (induction es arbitrary: d)
  case Nil
  show ?case by (intro exI[of _ "sess d"] exI[of _ "audit d"]) simp
next
  case (Cons e es)
  let ?wr = "\<lparr> wq_entry = we_id e, wq_actor = dq_target req, wq_request_id = dq_request_id req,
    wq_actor_type = Actor_system \<rparr>"
  have ok: "tables_ok d" "in_tx d" using Cons.prems(1) by (simp_all add: tx_ok_def)
  obtain x s a where one: "cancel_waitlist_entry env ?wr d = (Inr x,
    d\<lparr> entries := updated (\<lambda>r. we_id r = we_id e \<and> we_status r = Waiting)
         (with_status Entry_cancelled) (entries d), sess := s, audit := a \<rparr>)" (is "_ = (_, ?d1)")
    using withdraw_in_tx[OF assms(1) ok _ Cons.prems(4), of e ?wr] Cons.prems(3) by auto
  have tx1: "tx_ok ?d1" using keepsE[OF safeD1[OF safe_cancel_entry] Cons.prems(1) one] .
  have rest: "List.set es \<subseteq> List.set (entries ?d1)"
    using Cons.prems(2,3) by (fastforce simp: set_updated image_iff)
  obtain s' a' where more: "withdraw_entries env req es ?d1 = (Inr (),
    ?d1\<lparr> entries := updated (\<lambda>r. we_id r \<in> we_id ` List.set es \<and> we_status r = Waiting)
         (with_status Entry_cancelled) (entries ?d1), sess := s', audit := a' \<rparr>)"
    using Cons.IH[OF tx1 _ rest] Cons.prems(2,4) by auto
  have "updated (\<lambda>r. we_id r \<in> we_id ` List.set es \<and> we_status r = Waiting) (with_status Entry_cancelled)
      (updated (\<lambda>r. we_id r = we_id e \<and> we_status r = Waiting) (with_status Entry_cancelled) (entries d))
    = updated (\<lambda>r. we_id r \<in> we_id ` List.set (e # es) \<and> we_status r = Waiting)
      (with_status Entry_cancelled) (entries d)"
    by (subst updated_twice) (auto intro: updated_cong)
  then show ?case
    using one more by (intro exI[of _ s'] exI[of _ a']) (simp add: then_svc_def bind_svc_def)
qed

lemma flag_series_in_tx:
  assumes "in_tx d"
  shows "\<exists>h. flag_series env req ss d
    = (Inr (map (\<lambda>s. (se_id s, se_resource s, occurrences_remaining env s d)) ss), d\<lparr> hooks := h \<rparr>)"
  using assms
proof (induction ss arbitrary: d)
  case Nil
  show ?case by (intro exI[of _ "hooks d"]) simp
next
  case (Cons s ss)
  let ?n = "case resource_admin_for (se_resource s) d of None \<Rightarrow> ret ()
    | Some u \<Rightarrow> on_commit env (notify_series_owner_deactivated u (resource_name (se_resource s) d)
        (uuid_text (se_id s)) (int_text (int (occurrences_remaining env s d))) (dq_request_id req))"
  obtain h where one: "?n d = (Inr (), d\<lparr> hooks := h \<rparr>)"
  proof (cases "resource_admin_for (se_resource s) d")
    case None
    then have "?n d = (Inr (), d\<lparr> hooks := hooks d \<rparr>)" by simp
    then show ?thesis using that by blast
  qed (use Cons.prems in \<open>auto simp: on_commit_def intro: that\<close>)
  obtain h' where "flag_series env req ss (d\<lparr> hooks := h \<rparr>) = (Inr (map (\<lambda>s. (se_id s, se_resource s,
      occurrences_remaining env s d)) ss), d\<lparr> hooks := h' \<rparr>)"
    using Cons.IH[of "d\<lparr> hooks := h \<rparr>"] Cons.prems by (auto simp: occurrences_remaining_def)
  then show ?case using one by (intro exI[of _ h']) (simp add: bind_svc_def then_svc_def)
qed

abbreviation deactivated_at :: "instant \<Rightarrow> app_user \<Rightarrow> app_user" where
  "deactivated_at t u \<equiv> u\<lparr> au_status := User_deactivated, au_deactivated_at := Some t \<rparr>"

lemma find_user:
  assumes "tables_ok d" "u \<in> List.set (users d)" "au_id u = i"
  shows "find (\<lambda>v. au_id v = i) (users d) = Some u"
  using au.ok_pair[of "users d" _ u] assms
  by (intro find_by_unique[OF assms(2)]) (auto simp: tables_ok_def user_pair_ok_def)

lemma flip_status_in_tx:
  assumes "healthy env" "tables_ok d" "in_tx d" "u \<in> List.set (users d)" "au_id u = dq_target req"
  shows "\<exists>s. flip_status env req d = (if au_status u = User_active
    then (Inr (1, deactivated_at (ev_py_now env) u),
      d\<lparr> users := updated (\<lambda>v. au_id v = au_id u) (deactivated_at (ev_py_now env)) (users d), sess := s \<rparr>)
    else (Inr (0, u), d\<lparr> sess := s \<rparr>))"
proof -
  let ?P = "\<lambda>v. au_id v = dq_target req \<and> au_status v = User_active"
  let ?f = "deactivated_at (ev_py_now env)"
  have uniq: "v = u" if "v \<in> List.set (users d)" "au_id v = dq_target req" for v
    using au.ok_pair[of "users d" v u] assms(2,4,5) that by (auto simp: tables_ok_def user_pair_ok_def)
  have found: "find (\<lambda>v. au_id v = dq_target req) (users d) = Some u"
    using find_user[OF assms(2,4,5)] .
  have upd: "upd_rows check_user ?P ?f [] (users d) = Inr (updated ?P ?f (users d))"
    using assms(2) by (intro au.update_relaxing) (auto simp: tables_ok_def user_row_ok_def user_pair_ok_def)
  obtain xs ys where split: "users d = xs @ u # ys" "u \<notin> List.set xs"
    using split_list_first[OF assms(4)] by blast
  have dist: "u \<notin> List.set ys"
    using assms(2) by (auto simp: tables_ok_def table_ok_def sorted_wrt_append split user_pair_ok_def)
  have none: "list_all (\<lambda>v. au_id v \<noteq> dq_target req) xs" "list_all (\<lambda>v. au_id v \<noteq> dq_target req) ys"
    using uniq split dist by (auto simp: list_all_iff)
  have cnt: "count_if ?P (users d) = (if au_status u = User_active then 1 else 0)"
    using none assms(5) by (auto simp: split list_all_iff filter_empty_conv count_if_def)
  have eq: "updated ?P ?f (users d) = (if au_status u = User_active
      then updated (\<lambda>v. au_id v = au_id u) ?f (users d) else users d)"
    using none assms(5) by (simp add: split list_all_iff updated_none)
  define s where "s = Some \<lparr> ss_actor_id = Some (dq_actor req), ss_actor_type = Actor_admin,
    ss_reason = nullif_empty (dq_reason req), ss_request_id = nullif_empty (dq_request_id req) \<rparr>"
  have "flip_status env req d = (Inr (count_if ?P (users d), if au_status u = User_active then ?f u else u),
      d\<lparr> sess := s, users := updated ?P ?f (users d) \<rparr>)"
    unfolding flip_status_def
  proof (rule atomic_in_tx[OF assms(3)])
    have set: "apply_write_path_session_settings env (Some (dq_actor req)) Actor_admin
        (dq_request_id req) (Some (dq_reason req)) d = (Inr (), d\<lparr> sess := s \<rparr>)"
      using assms(1) by (simp add: s_def)
    have stmt: "update_users env ?P ?f (d\<lparr> sess := s \<rparr>)
        = (Inr (count_if ?P (users d)), d\<lparr> sess := s, users := updated ?P ?f (users d) \<rparr>)"
      using assms(1) upd by (simp add: update_users_def update_rows_def run_stmt_def log_eqs)
    have got: "find (\<lambda>v. au_id v = dq_target req) (updated ?P ?f (users d))
        = Some (if au_status u = User_active then ?f u else u)"
      using find_updated[of ?P "\<lambda>v. au_id v = dq_target req" ?f "users d"] found assms(5) by simp
    show "then_svc (apply_write_path_session_settings env (Some (dq_actor req)) Actor_admin
        (dq_request_id req) (Some (dq_reason req)))
       (bind_svc (update_users env ?P ?f) (\<lambda>n.
        bind_svc (get_row users (\<lambda>u. au_id u = dq_target req)) (\<lambda>u. ret (n, u)))) d
      = (Inr (count_if ?P (users d), if au_status u = User_active then ?f u else u),
      d\<lparr> sess := s, users := updated ?P ?f (users d) \<rparr>)"
      unfolding then_svc_def bind_svc_def set prod.case sum.case stmt get_row_def by (simp add: got)
  qed
  moreover have "d\<lparr> sess := s, users := us \<rparr> = d\<lparr> users := us, sess := s \<rparr>" for us
    by (rule db.equality) simp_all
  moreover have "d\<lparr> users := users d, sess := s \<rparr> = d\<lparr> sess := s \<rparr>" by (rule db.equality) simp_all
  ultimately show ?thesis using cnt eq
    by (intro exI[of _ s]) (cases "au_status u = User_active"; simp only: if_True if_False refl simp_thms)
qed

section \<open>Properties\<close>

lemma distinct_ids:
  assumes "sorted_wrt (\<lambda>a b. f a \<noteq> f b) rs"
  shows "distinct (map f rs)"
  using assms by (induction rs) auto

lemma distinct_filter_ids:
  assumes "table_ok row_ok pair_ok rs" "\<And>a b. pair_ok a b \<Longrightarrow> f a \<noteq> f b"
  shows "distinct (map f (filter P rs))"
proof -
  have "sorted_wrt pair_ok rs" using assms(1) by (simp add: table_ok_def)
  then have "sorted_wrt (\<lambda>a b. f a \<noteq> f b) rs"
    by (rule sorted_wrt_mono_rel[rotated]) (rule assms(2))
  then show ?thesis by (intro distinct_ids sorted_wrt_filter)
qed

lemma updated_members:
  assumes "table_ok row_ok pair_ok rs" "\<And>a b. pair_ok a b \<Longrightarrow> f a \<noteq> f b"
  shows "updated (\<lambda>r. f r \<in> f ` List.set (filter P rs) \<and> Q r) g rs = updated (\<lambda>r. P r \<and> Q r) g rs"
  unfolding updated_def
proof (rule map_cong[OF refl])
  fix r assume r: "r \<in> List.set rs"
  have "distinct (map f (filter (\<lambda>_. True) rs))" by (rule distinct_filter_ids[OF assms(1,2)])
  then have "inj_on f (List.set rs)" by (simp add: distinct_map del: filter_True)
  then have "f r \<in> f ` List.set (filter P rs) \<longleftrightarrow> P r"
    using r by (auto dest: inj_onD)
  then show "(if f r \<in> f ` List.set (filter P rs) \<and> Q r then g r else r) = (if P r \<and> Q r then g r else r)"
    by simp
qed

text \<open>The rows of the four tables after the deactivation of \<open>u\<close>.\<close>

definition offboarded_booking :: "env \<Rightarrow> deactivate_request \<Rightarrow> uuid \<Rightarrow> db \<Rightarrow> booking \<Rightarrow> booking" where
  "offboarded_booking env req u d b =
     (if one_off env u b then disposed_row env req d b
      else if bk_status b = Held \<and> bk_id b \<in> wo_hold ` List.set (active_offers_of u d)
      then release_row (ev_py_now env) b else b)"

definition offboarded_entry :: "uuid \<Rightarrow> db \<Rightarrow> waitlist_entry \<Rightarrow> waitlist_entry" where
  "offboarded_entry u d e =
     (if we_id e \<in> wo_entry ` List.set (active_offers_of u d) then with_status Entry_expired e
      else if we_user e = u \<and> we_status e = Waiting then with_status Entry_cancelled e
      else e)"

definition offboarded_offer :: "uuid \<Rightarrow> db \<Rightarrow> waitlist_offer \<Rightarrow> waitlist_offer" where
  "offboarded_offer u d w = (if w \<in> List.set (active_offers_of u d) then declined w else w)"

lemma resource_found:
  assumes "fk_ok d" "b \<in> List.set (bookings d)"
  shows "\<exists>r. find (\<lambda>r. rs_id r = bk_resource b) (resources d) = Some r"
proof -
  have "bk_resource b \<in> rs_id ` List.set (resources d)"
    using assms by (auto simp: fk_ok_def list_all_iff)
  then show ?thesis
    by (cases "find (\<lambda>r. rs_id r = bk_resource b) (resources d)") (auto simp: find_None_iff)
qed

lemma offboarded_rows:
  "updated (\<lambda>b. bk_id b \<in> wo_hold ` List.set (active_offers_of u d) \<and> bk_status b = Held)
     (release_row (ev_py_now env)) (updated (one_off env u) (disposed_row env req d) bs)
   = map (offboarded_booking env req u d) bs"
  "updated (\<lambda>e. (we_user e = u \<and> we_status e = Waiting) \<and> we_status e = Waiting)
     (with_status Entry_cancelled)
     (updated (\<lambda>e. we_id e \<in> wo_entry ` List.set (active_offers_of u d)) (with_status Entry_expired) es)
   = map (offboarded_entry u d) es"
  "updated (\<lambda>w. (wo_status w = Offer_active \<and>
       list_ex (\<lambda>e. we_id e = wo_entry w \<and> we_user e = u) (entries d)) \<and> wo_status w = Offer_active)
     declined (offers d) = map (offboarded_offer u d) (offers d)"
proof -
  have "bk_status (disposed_row env req d b) \<noteq> Held" if "one_off env u b" for b
    using that by (auto simp: disposed_row_def one_off_def cancelled_row_def
        split: option.splits offboarding_policy.splits)
  then show "updated (\<lambda>b. bk_id b \<in> wo_hold ` List.set (active_offers_of u d) \<and> bk_status b = Held)
     (release_row (ev_py_now env)) (updated (one_off env u) (disposed_row env req d) bs)
   = map (offboarded_booking env req u d) bs"
    by (simp add: updated_def offboarded_booking_def)
qed (auto simp: updated_def offboarded_entry_def offboarded_offer_def active_offers_of_def)

lemma deactivate_user_eq:
  assumes "healthy env" "tx_ok d" "fk_ok d" "u \<in> List.set (users d)" "au_id u = dq_target req"
    and "au_status u = User_active"
  shows "\<exists>res d'. deactivate_user env req d = (Inr res, d') \<and>
    users d' = map (\<lambda>v. if v = u then deactivated_at (ev_py_now env) u else v) (users d) \<and>
    bookings d' = map (offboarded_booking env req (au_id u) d) (bookings d) \<and>
    entries d' = map (offboarded_entry (au_id u) d) (entries d) \<and>
    offers d' = map (offboarded_offer (au_id u) d) (offers d) \<and>
    dr_user res = au_id u \<and> dr_status res = User_deactivated \<and>
    dr_transferred res = count_if (\<lambda>b. one_off env (au_id u) b \<and> disposal_of d b = Transferred) (bookings d) \<and>
    dr_cancelled res = count_if (\<lambda>b. one_off env (au_id u) b \<and> disposal_of d b = Cancelled_off) (bookings d) \<and>
    dr_retained res = count_if (\<lambda>b. one_off env (au_id u) b \<and> disposal_of d b = Retained) (bookings d) \<and>
    dr_offers_released res = length (active_offers_of (au_id u) d)"
proof -
  let ?u = "au_id u"
  have ok: "tables_ok d" "in_tx d" using assms(2) by (simp_all add: tx_ok_def)
  obtain s0 where flip: "flip_status env req d = (Inr (1, deactivated_at (ev_py_now env) u),
      d\<lparr> users := updated (\<lambda>v. au_id v = ?u) (deactivated_at (ev_py_now env)) (users d), sess := s0 \<rparr>)"
      (is "_ = (_, ?d0)")
    using flip_status_in_tx[OF assms(1) ok assms(4,5)] assms(6) by auto
  have tx0: "tx_ok ?d0" by (rule keepsE[OF safeD1[OF safe_flip_status] assms(2) flip])
  let ?bs = "filter (one_off env ?u) (bookings d)"
  have ids: "distinct (map bk_id ?bs)"
    by (rule distinct_filter_ids[of booking_row_ok booking_pair_ok])
      (use ok(1) in \<open>auto simp: tables_ok_def booking_pair_ok_def\<close>)
  have bsub: "List.set ?bs \<subseteq> List.set (bookings ?d0)" by auto
  have res: "bk_status b = Confirmed \<and> (\<exists>r. find (\<lambda>r. rs_id r = bk_resource b) (resources ?d0) = Some r)"
    if "b \<in> List.set ?bs" for b
    using that resource_found[OF assms(3), of b] by (auto simp: one_off_def)
  obtain s1 a1 h1 where disp: "dispose_bookings env req ?bs ?d0 = (Inr (map (disposal_of ?d0) ?bs),
      ?d0\<lparr> bookings := updated (\<lambda>r. bk_id r \<in> bk_id ` List.set ?bs) (disposed_row env req ?d0) (bookings ?d0),
         sess := s1, audit := a1, hooks := h1 \<rparr>)" (is "_ = (_, ?d1)")
    using dispose_bookings_in_tx[OF assms(1) tx0 ids bsub res, of req] by blast
  have frame: "disposed_row env req ?d0 = disposed_row env req d" "disposal_of ?d0 = disposal_of d"
    using disposed_frame[of ?d0 d env req] by simp_all
  have b1: "bookings ?d1 = updated (one_off env ?u) (disposed_row env req d) (bookings d)"
    using updated_members[of booking_row_ok booking_pair_ok "bookings d" bk_id "one_off env ?u" "\<lambda>_. True"
        "disposed_row env req d"] ok(1) frame by (auto simp: tables_ok_def booking_pair_ok_def)
  have tx1: "tx_ok ?d1" by (rule keepsE[OF safeD1[OF safe_dispose_bookings] tx0 disp])
  let ?ws = "active_offers_of ?u d"
  have ws: "active_offers_of ?u ?d1 = ?ws" by (simp add: active_offers_of_def)
  have wids: "distinct (map wo_id ?ws)" unfolding active_offers_of_def
    by (rule distinct_filter_ids[of offer_row_ok offer_pair_ok])
      (use ok(1) in \<open>auto simp: tables_ok_def offer_pair_ok_def\<close>)
  have wsub: "List.set ?ws \<subseteq> List.set (offers ?d1)" by (auto simp: active_offers_of_def)
  have wact: "\<And>w. w \<in> List.set ?ws \<Longrightarrow> wo_status w = Offer_active"
    by (auto simp: active_offers_of_def)
  obtain s2 a2 h2 where rel: "release_offers env req ?ws ?d1 = (Inr (),
    ?d1\<lparr> bookings := updated (\<lambda>b. bk_id b \<in> wo_hold ` List.set ?ws \<and> bk_status b = Held)
         (release_row (ev_py_now env)) (bookings ?d1),
       entries := updated (\<lambda>e. we_id e \<in> wo_entry ` List.set ?ws) (with_status Entry_expired) (entries ?d1),
       offers := updated (\<lambda>v. wo_id v \<in> wo_id ` List.set ?ws \<and> wo_status v = Offer_active) declined (offers ?d1),
       sess := s2, audit := a2, hooks := h2 \<rparr>)" (is "_ = (_, ?d2)")
    using release_offers_in_tx[OF assms(1) tx1 wids wsub wact, of req] by blast
  have tx2: "tx_ok ?d2" by (rule keepsE[OF safeD1[OF safe_release_offers] tx1 rel])
  let ?es = "waiting_entries_of ?u ?d2"
  have e2: "table_ok entry_row_ok entry_pair_ok (entries ?d2)"
    using tx2 unfolding tx_ok_def tables_ok_def by blast
  have eids: "distinct (map we_id ?es)" unfolding waiting_entries_of_def
    by (rule distinct_filter_ids[OF e2]) (auto simp: entry_pair_ok_def)
  have esub: "List.set ?es \<subseteq> List.set (entries ?d2)" by (auto simp: waiting_entries_of_def)
  have ewait: "\<And>e. e \<in> List.set ?es \<Longrightarrow> we_status e = Waiting" by (auto simp: waiting_entries_of_def)
  obtain s3 a3 where wd: "withdraw_entries env req ?es ?d2 = (Inr (),
    ?d2\<lparr> entries := updated (\<lambda>r. we_id r \<in> we_id ` List.set ?es \<and> we_status r = Waiting)
         (with_status Entry_cancelled) (entries ?d2), sess := s3, audit := a3 \<rparr>)" (is "_ = (_, ?d3)")
    using withdraw_entries_in_tx[OF assms(1) tx2 eids esub ewait, of req] by blast
  have tx3: "in_tx ?d3" using ok(2) by simp
  obtain h4 flags where fl: "flag_series env req (filter (\<lambda>s. se_created_by s = ?u \<and> se_status s = Series_active)
      (series ?d3)) ?d3 = (Inr flags, ?d3\<lparr> hooks := h4 \<rparr>)"
    using flag_series_in_tx[OF tx3] by blast
  have run: "deactivate_user env req d = (Inr \<lparr> dr_user = ?u, dr_status = User_deactivated,
      dr_transferred = count_if (\<lambda>x. x = Transferred) (map (disposal_of d) ?bs),
      dr_cancelled = count_if (\<lambda>x. x = Cancelled_off) (map (disposal_of d) ?bs),
      dr_retained = count_if (\<lambda>x. x = Retained) (map (disposal_of d) ?bs),
      dr_entries_cancelled = length ?es, dr_offers_released = length ?ws,
      dr_series_flagged = flags \<rparr>, ?d3\<lparr> hooks := h4 \<rparr>)"
  proof -
    have q1: "query (\<lambda>d. filter (one_off env ?u) (bookings d)) ?d0 = (Inr ?bs, ?d0)" by simp
    have q2: "query (active_offers_of ?u) ?d1 = (Inr ?ws, ?d1)" by (simp only: query_apply ws)
    have q3: "query (waiting_entries_of ?u) ?d2 = (Inr ?es, ?d2)" by (rule query_apply)
    have q4: "query (\<lambda>d. filter (\<lambda>s. se_created_by s = ?u \<and> se_status s = Series_active) (series d)) ?d3
        = (Inr (filter (\<lambda>s. se_created_by s = ?u \<and> se_status s = Series_active) (series ?d3)), ?d3)"
      by (rule query_apply)
    have u: "au_id (deactivated_at (ev_py_now env) u) = ?u"
      "au_status (deactivated_at (ev_py_now env) u) = User_deactivated" by simp_all
    show ?thesis
      by (simp only: deactivate_user_def bind_svc_def then_svc_def flip prod.case sum.case Let_def u
          one_neq_zero if_False q1 disp q2 rel q3 wd q4 fl ret_apply) (simp add: frame)
  qed
  have us: "users (?d3\<lparr> hooks := h4 \<rparr>) = map (\<lambda>v. if v = u then deactivated_at (ev_py_now env) u else v) (users d)"
    using au.ok_pair[of "users d" _ u] ok(1) assms(4)
    by (auto simp: updated_def tables_ok_def user_pair_ok_def intro!: map_cong)
  have bs: "bookings (?d3\<lparr> hooks := h4 \<rparr>) = map (offboarded_booking env req ?u d) (bookings d)"
  proof -
    have "bookings (?d3\<lparr> hooks := h4 \<rparr>) = updated (\<lambda>b. bk_id b \<in> wo_hold ` List.set ?ws \<and> bk_status b = Held)
        (release_row (ev_py_now env)) (bookings ?d1)" by simp
    then show ?thesis unfolding b1 offboarded_rows .
  qed
  have es: "entries (?d3\<lparr> hooks := h4 \<rparr>) = map (offboarded_entry ?u d) (entries d)"
  proof -
    have "entries (?d3\<lparr> hooks := h4 \<rparr>) = updated (\<lambda>r. we_id r \<in> we_id ` List.set ?es \<and> we_status r = Waiting)
        (with_status Entry_cancelled) (entries ?d2)" by simp
    also have "\<dots> = updated (\<lambda>e. (we_user e = ?u \<and> we_status e = Waiting) \<and> we_status e = Waiting)
        (with_status Entry_cancelled) (entries ?d2)"
      unfolding waiting_entries_of_def by (rule updated_members[OF e2]) (simp add: entry_pair_ok_def)
    also have "\<dots> = updated (\<lambda>e. (we_user e = ?u \<and> we_status e = Waiting) \<and> we_status e = Waiting)
        (with_status Entry_cancelled) (updated (\<lambda>e. we_id e \<in> wo_entry ` List.set ?ws)
          (with_status Entry_expired) (entries d))" by simp
    finally show ?thesis unfolding offboarded_rows .
  qed
  have os: "offers (?d3\<lparr> hooks := h4 \<rparr>) = map (offboarded_offer ?u d) (offers d)"
  proof -
    have "offers (?d3\<lparr> hooks := h4 \<rparr>) = updated (\<lambda>v. wo_id v \<in> wo_id ` List.set ?ws \<and>
        wo_status v = Offer_active) declined (offers d)" by simp
    also have "\<dots> = updated (\<lambda>w. (wo_status w = Offer_active \<and>
        list_ex (\<lambda>e. we_id e = wo_entry w \<and> we_user e = ?u) (entries d)) \<and> wo_status w = Offer_active)
        declined (offers d)"
      unfolding active_offers_of_def
      by (rule updated_members[of offer_row_ok offer_pair_ok])
        (use ok(1) in \<open>simp_all add: tables_ok_def offer_pair_ok_def\<close>)
    finally show ?thesis unfolding offboarded_rows .
  qed
  have counts: "count_if (\<lambda>x. x = k) (map (disposal_of d) ?bs)
      = count_if (\<lambda>b. one_off env ?u b \<and> disposal_of d b = k) (bookings d)" for k
    by (simp add: count_if_def filter_map comp_def conj_commute)
  show ?thesis
    by (intro exI conjI, rule run, rule us, rule bs, rule es, rule os) (simp_all add: counts)
qed

lemma no_waiting_left:
  "list_all (\<lambda>e. \<not> (we_user e = u \<and> we_status e = Waiting)) (map (offboarded_entry u d) es)"
proof -
  have "\<not> (we_user (offboarded_entry u d e) = u \<and> we_status (offboarded_entry u d e) = Waiting)" for e
    by (simp add: offboarded_entry_def)
  then show ?thesis by (simp add: list_all_iff)
qed

lemma offboarded_entry_frame [simp]:
  "we_id (offboarded_entry u d e) = we_id e" "we_user (offboarded_entry u d e) = we_user e"
  by (simp_all add: offboarded_entry_def)

lemma no_offer_left:
  assumes "offers d' = map (offboarded_offer u d) (offers d)" "entries d' = map (offboarded_entry u d) (entries d)"
  shows "active_offers_of u d' = []"
proof -
  have "list_ex (\<lambda>e. we_id e = i \<and> we_user e = u) (entries d')
      = list_ex (\<lambda>e. we_id e = i \<and> we_user e = u) (entries d)" for i
    unfolding assms(2) by (simp add: list_ex_iff)
  moreover have "\<not> (wo_status (offboarded_offer u d w) = Offer_active \<and>
      list_ex (\<lambda>e. we_id e = wo_entry (offboarded_offer u d w) \<and> we_user e = u) (entries d))"
    if "w \<in> List.set (offers d)" for w
    using that by (simp add: offboarded_offer_def active_offers_of_def)
  ultimately show ?thesis unfolding active_offers_of_def assms(1) by (simp add: filter_empty_conv)
qed

lemma one_off_left:
  assumes "fk_ok d" "b \<in> List.set (bookings d)" "one_off env u (offboarded_booking env req u d b)"
  shows "\<exists>r \<in> List.set (resources d). rs_id r = bk_resource b \<and> (rs_policy r = Retain \<or>
    rs_policy r = Transfer \<and> resource_admin_for (rs_id r) d \<in> {None, Some u})"
proof -
  obtain r where r: "find (\<lambda>r. rs_id r = bk_resource b) (resources d) = Some r"
    using resource_found[OF assms(1,2)] by blast
  then have mem: "r \<in> List.set (resources d)" "rs_id r = bk_resource b" by (auto simp: find_Some_iff)
  have "one_off env u b"
    using assms(3) by (auto simp: offboarded_booking_def one_off_def split: if_splits)
  then have "one_off env u (disposed_row env req d b)" using assms(3) by (simp add: offboarded_booking_def)
  then show ?thesis
    using r mem by (intro bexI[OF _ mem(1)])
      (auto simp: disposed_row_def one_off_def cancelled_row_def
        split: option.splits offboarding_policy.splits)
qed

text \<open>C27: the first deactivation of a user goes through everything the user holds, in one
  transaction: the future one-off bookings by the policy of their resources, the outstanding offers
  with their holds and entries, the waiting entries; afterwards the user waits for nothing, has no
  active offer, and a future one-off booking is left with the user only where the policy retains
  it or the resource has no other administrator.  A repeated deactivation changes no row.\<close>

theorem deactivation_outcome:
  assumes "healthy env" "tx_ok d" "fk_ok d" "u \<in> List.set (users d)" "au_id u = dq_target req"
  shows "if au_status u = User_active
    then \<exists>res d'. deactivate_user env req d = (Inr res, d') \<and>
      users d' = map (\<lambda>v. if v = u then deactivated_at (ev_py_now env) u else v) (users d) \<and>
      bookings d' = map (offboarded_booking env req (au_id u) d) (bookings d) \<and>
      entries d' = map (offboarded_entry (au_id u) d) (entries d) \<and>
      offers d' = map (offboarded_offer (au_id u) d) (offers d) \<and>
      list_all (\<lambda>e. \<not> (we_user e = au_id u \<and> we_status e = Waiting)) (entries d') \<and>
      active_offers_of (au_id u) d' = [] \<and>
      (\<forall>b \<in> List.set (bookings d'). one_off env (au_id u) b \<longrightarrow>
        (\<exists>r \<in> List.set (resources d). rs_id r = bk_resource b \<and> (rs_policy r = Retain \<or>
          rs_policy r = Transfer \<and> resource_admin_for (rs_id r) d \<in> {None, Some (au_id u)})))
    else \<exists>s. deactivate_user env req d = (Inr \<lparr> dr_user = au_id u, dr_status = au_status u,
        dr_transferred = 0, dr_cancelled = 0, dr_retained = 0, dr_entries_cancelled = 0,
        dr_offers_released = 0, dr_series_flagged = [] \<rparr>, d\<lparr> sess := s \<rparr>)"
proof (cases "au_status u = User_active")
  case True
  obtain res d' where run: "deactivate_user env req d = (Inr res, d')"
      "users d' = map (\<lambda>v. if v = u then deactivated_at (ev_py_now env) u else v) (users d)"
      "bookings d' = map (offboarded_booking env req (au_id u) d) (bookings d)"
      "entries d' = map (offboarded_entry (au_id u) d) (entries d)"
      "offers d' = map (offboarded_offer (au_id u) d) (offers d)"
    using deactivate_user_eq[OF assms True] by blast
  have res: "bk_resource (offboarded_booking env req (au_id u) d b) = bk_resource b" for b
    by (auto simp: offboarded_booking_def disposed_row_def cancelled_row_def
        split: option.splits offboarding_policy.splits)
  have "\<exists>r \<in> List.set (resources d). rs_id r = bk_resource b \<and> (rs_policy r = Retain \<or>
      rs_policy r = Transfer \<and> resource_admin_for (rs_id r) d \<in> {None, Some (au_id u)})"
    if "b \<in> List.set (bookings d')" "one_off env (au_id u) b" for b
    using that one_off_left[OF assms(3)] res unfolding run(3) by fastforce
  then show ?thesis
    using run no_offer_left[OF run(5,4)] no_waiting_left[of "au_id u" d] True by auto
next
  case False
  obtain s where "flip_status env req d = (Inr (0, u), d\<lparr> sess := s \<rparr>)"
    using flip_status_in_tx[OF assms(1) _ _ assms(4,5)] assms(2) False by (auto simp: tx_ok_def)
  then show ?thesis using False by (auto simp: deactivate_user_def bind_svc_def)
qed

definition demo_grant :: "uuid \<Rightarrow> uuid \<Rightarrow> instant \<Rightarrow> resource_admin" where
  "demo_grant i u t = \<lparr> ra_id = i, ra_resource = 10, ra_user = u, ra_granted_at = t, ra_granted_by = 1 \<rparr>"

definition demo_leaving :: "resource_admin list \<Rightarrow> db" where
  "demo_leaving as = begin_tx (demo_db [demo_booking 5 1 (TR 100 150) Confirmed None]
     [demo_entry 20 1 (TR 200 250) Waiting 9] [])\<lparr> admins := as \<rparr>"

definition demo_leave :: deactivate_request where
  "demo_leave = \<lparr> dq_target = 1, dq_actor = 3, dq_reason = ''left'', dq_request_id = ''r'' \<rparr>"

lemma demo_leaving_ok:
  "tx_ok (demo_leaving [demo_grant 40 2 7])" "fk_ok (demo_leaving [demo_grant 40 2 7])"
  "tx_ok (demo_leaving [demo_grant 40 1 7])" "fk_ok (demo_leaving [demo_grant 40 1 7])"
  by code_simp+

theorem deactivation_outcome_witness:
  "\<exists>res d'. deactivate_user (demo_env 50 7) demo_leave (demo_leaving [demo_grant 40 2 7]) = (Inr res, d') \<and>
    bookings d' = [demo_booking 5 2 (TR 100 150) Confirmed None] \<and>
    entries d' = [demo_entry 20 1 (TR 200 250) Entry_cancelled 9]"
proof -
  let ?d = "demo_leaving [demo_grant 40 2 7]"
  have u: "demo_user 1 \<in> List.set (users ?d)" "au_id (demo_user 1) = dq_target demo_leave"
    "au_status (demo_user 1) = User_active" "au_id (demo_user 1) = 1"
    by (simp_all add: demo_leaving_def demo_simps demo_leave_def)
  have "map (offboarded_booking (demo_env 50 7) demo_leave 1 ?d) (bookings ?d)
      = [demo_booking 5 2 (TR 100 150) Confirmed None]"
    "map (offboarded_entry 1 ?d) (entries ?d) = [demo_entry 20 1 (TR 200 250) Entry_cancelled 9]"
    by code_simp+
  then show ?thesis
    using deactivation_outcome[OF healthy_demo demo_leaving_ok(1,2) u(1,2), of 50 7] u(3,4) by auto
qed

text \<open>The transfer goes to the administrator with the earliest grant, who may be the leaver: then
  the booking is counted as transferred and stays with the deactivated user.\<close>

theorem offboarding_transfers_to_the_leaver:
  assumes "healthy env" "tx_ok d" "fk_ok d" "u \<in> List.set (users d)" "au_id u = dq_target req"
    and "au_status u = User_active" "b \<in> List.set (bookings d)" "one_off env (au_id u) b"
    and "find (\<lambda>r. rs_id r = bk_resource b) (resources d) = Some r" "rs_policy r = Transfer"
    and "resource_admin_for (bk_resource b) d = Some (au_id u)"
  shows "\<exists>res d'. deactivate_user env req d = (Inr res, d') \<and> 0 < dr_transferred res \<and>
    b \<in> List.set (bookings d') \<and> deactivated_at (ev_py_now env) u \<in> List.set (users d')"
proof -
  obtain res d' where run: "deactivate_user env req d = (Inr res, d')"
      "users d' = map (\<lambda>v. if v = u then deactivated_at (ev_py_now env) u else v) (users d)"
      "bookings d' = map (offboarded_booking env req (au_id u) d) (bookings d)"
      "dr_transferred res = count_if (\<lambda>b. one_off env (au_id u) b \<and> disposal_of d b = Transferred) (bookings d)"
    using deactivate_user_eq[OF assms(1-6)] by blast
  have "bk_user b = au_id u" using assms(8) by (simp add: one_off_def)
  then have "offboarded_booking env req (au_id u) d b = b" "disposal_of d b = Transferred"
    using assms(8-11) by (simp_all add: offboarded_booking_def disposed_row_def disposal_of_def)
  then have "b \<in> List.set (bookings d')" "dr_transferred res \<noteq> 0"
    using assms(7,8) run(3,4) count_if_pos[OF assms(7), of "\<lambda>b. one_off env (au_id u) b \<and> disposal_of d b = Transferred"]
    by (force, simp)
  then show ?thesis using run(1,2) assms(4) by auto
qed

theorem offboarding_transfers_to_the_leaver_witness:
  "\<exists>res d'. deactivate_user (demo_env 50 7) demo_leave (demo_leaving [demo_grant 40 1 7]) = (Inr res, d') \<and>
    0 < dr_transferred res \<and> demo_booking 5 1 (TR 100 150) Confirmed None \<in> List.set (bookings d')"
proof -
  let ?d = "demo_leaving [demo_grant 40 1 7]"
  have u: "demo_user 1 \<in> List.set (users ?d)" "au_id (demo_user 1) = dq_target demo_leave"
    "au_status (demo_user 1) = User_active"
    "demo_booking 5 1 (TR 100 150) Confirmed None \<in> List.set (bookings ?d)"
    "one_off (demo_env 50 7) (au_id (demo_user 1)) (demo_booking 5 1 (TR 100 150) Confirmed None)"
    "find (\<lambda>r. rs_id r = bk_resource (demo_booking 5 1 (TR 100 150) Confirmed None)) (resources ?d) = Some demo_room"
    "rs_policy demo_room = Transfer"
    "resource_admin_for (bk_resource (demo_booking 5 1 (TR 100 150) Confirmed None)) ?d = Some (au_id (demo_user 1))"
    by (simp_all add: demo_leaving_def demo_simps demo_leave_def one_off_def bk_starts_at_def
        resource_admin_for_def demo_grant_def order_by_def)
  show ?thesis
    using offboarding_transfers_to_the_leaver[OF healthy_demo demo_leaving_ok(3,4) u] by auto
qed

end
