(* ===== verification/Authorization.thy ===== *)
theory Authorization
  imports Statements
begin

text \<open>
  \<open>identity/authorization.py\<close>: who may see, edit and cancel what.  Administration is a grant for one
  resource; the only global roles are the system administrator and operations.
\<close>

definition is_system_admin :: "app_user \<Rightarrow> bool" where
  "is_system_admin u = (au_role u = System_admin)"

definition is_operations :: "app_user \<Rightarrow> bool" where
  "is_operations u = (au_role u = Operations)"

definition is_resource_admin :: "app_user \<Rightarrow> uuid \<Rightarrow> db \<Rightarrow> bool" where
  "is_resource_admin u res d =
     list_ex (\<lambda>a. ra_resource a = res \<and> ra_user a = au_id u) (admins d)"

definition can_administer_resource :: "app_user \<Rightarrow> uuid \<Rightarrow> db \<Rightarrow> bool" where
  "can_administer_resource u res d = (is_system_admin u \<or> is_resource_admin u res d)"

definition can_view_booking :: "app_user \<Rightarrow> booking \<Rightarrow> db \<Rightarrow> bool" where
  "can_view_booking u b d =
     (bk_user b = au_id u \<or> can_administer_resource u (bk_resource b) d \<or> is_operations u)"

definition can_edit_booking :: "app_user \<Rightarrow> booking \<Rightarrow> bool" where
  "can_edit_booking u b = (bk_user b = au_id u)"

text \<open>Allowed, and whether the permission is an administrative override.\<close>

definition can_cancel_booking :: "app_user \<Rightarrow> booking \<Rightarrow> db \<Rightarrow> bool \<times> bool" where
  "can_cancel_booking u b d =
     (if bk_user b = au_id u then (True, False)
      else if can_administer_resource u (bk_resource b) d then (True, True)
      else (False, False))"

definition can_cancel_series :: "app_user \<Rightarrow> recurring_series \<Rightarrow> db \<Rightarrow> bool \<times> bool" where
  "can_cancel_series u s d =
     (if se_created_by s = au_id u then (True, False)
      else if can_administer_resource u (se_resource s) d then (True, True)
      else (False, False))"

definition is_group_member :: "app_user \<Rightarrow> uuid \<Rightarrow> db \<Rightarrow> bool" where
  "is_group_member u g d = list_ex (\<lambda>m. gm_group m = g \<and> gm_user m = au_id u) (memberships d)"

definition can_view_resource :: "app_user \<Rightarrow> resource \<Rightarrow> db \<Rightarrow> bool" where
  "can_view_resource u r d = (case rs_restricted_group r of
      None \<Rightarrow> True
    | Some g \<Rightarrow> can_administer_resource u (rs_id r) d \<or> is_operations u \<or> is_group_member u g d)"

definition visible_resources_queryset :: "app_user \<Rightarrow> db \<Rightarrow> resource list" where
  "visible_resources_queryset u d =
     (if is_system_admin u \<or> is_operations u then resources d
      else
        let member_group_ids = map gm_group (filter (\<lambda>m. gm_user m = au_id u) (memberships d));
            administered_resource_ids = map ra_resource (filter (\<lambda>a. ra_user a = au_id u) (admins d))
        in filter (\<lambda>r. rs_restricted_group r = None \<or>
             (case rs_restricted_group r of None \<Rightarrow> False | Some g \<Rightarrow> g \<in> List.set member_group_ids) \<or>
             rs_id r \<in> List.set administered_resource_ids) (resources d))"

lemmas permission_defs = is_system_admin_def is_operations_def is_resource_admin_def
  can_administer_resource_def can_view_booking_def can_edit_booking_def can_cancel_booking_def
  can_cancel_series_def is_group_member_def can_view_resource_def

text \<open>C31: the list of resources shows exactly the resources that the detail endpoint would show:
  the list query and the object check are the same rule.\<close>

theorem visible_resources_agree_with_detail:
  "visible_resources_queryset u d = filter (\<lambda>r. can_view_resource u r d) (resources d)"
proof (cases "is_system_admin u \<or> is_operations u")
  case True
  have "filter (\<lambda>r. can_view_resource u r d) (resources d) = resources d"
    using True by (intro filter_True) (auto simp: can_view_resource_def can_administer_resource_def
        split: option.splits)
  then show ?thesis using True by (simp add: visible_resources_queryset_def)
next
  case False
  then show ?thesis
    unfolding visible_resources_queryset_def Let_def
    by (auto intro!: filter_cong simp: can_view_resource_def can_administer_resource_def
        is_resource_admin_def is_group_member_def list_ex_iff image_iff split: option.splits) metis+
qed

end
