(* ===== verification/Resource_Services.thy ===== *)
theory Resource_Services
  imports Booking_Services
begin

text \<open>
  \<open>resources/services.py\<close>: creating and changing resources, granting and revoking the
  administration of one.  Every function applies the session settings as an administrator.
\<close>

definition UNIQUE_VIOLATION :: sqlstate where
  "UNIQUE_VIOLATION = ''23505''"

record resource_create_request =
  rc_actor :: uuid
  rc_request_id :: string
  rc_name :: string
  rc_category :: string
  rc_timezone :: string
  rc_bookable_start :: time_of_day
  rc_bookable_end :: time_of_day
  rc_max_duration :: "int option"
  rc_policy :: offboarding_policy
  rc_restricted_group :: "uuid option"

definition admin_settings :: "env \<Rightarrow> uuid \<Rightarrow> string \<Rightarrow> unit svc" where
  "admin_settings env actor rid =
     apply_write_path_session_settings env (Some actor) Actor_admin rid None"

definition new_resource :: "env \<Rightarrow> resource_create_request \<Rightarrow> resource" where
  "new_resource env req =
     \<lparr> rs_id = ev_uuid env, rs_name = rc_name req, rs_category = rc_category req,
       rs_timezone = rc_timezone req, rs_bookable_start = rc_bookable_start req,
       rs_bookable_end = rc_bookable_end req, rs_max_duration = rc_max_duration req,
       rs_policy = rc_policy req, rs_status = Resource_active, rs_created_by = rc_actor req,
       rs_restricted_group = rc_restricted_group req, rs_created_at = ev_py_now env \<rparr>"

text \<open>\<open>Resource.save()\<close> validates the zone before the INSERT.\<close>

definition save_resource :: "env \<Rightarrow> resource \<Rightarrow> resource svc" where
  "save_resource env r = (case validate_iana_zone (ev_zone env) (rs_timezone r) of
      Inl e \<Rightarrow> raise e | Inr _ \<Rightarrow> insert_resource env r)"

definition create_resource :: "env \<Rightarrow> resource_create_request \<Rightarrow> resource svc" where
  "create_resource env req = atomic env
     (then_svc (admin_settings env (rc_actor req) (rc_request_id req))
       (save_resource env (new_resource env req)))"

record resource_update_request =
  ru_resource :: uuid
  ru_actor :: uuid
  ru_request_id :: string
  ru_name :: "string option"
  ru_bookable_start :: "time_of_day option"
  ru_bookable_end :: "time_of_day option"
  ru_max_duration :: "int option"
  ru_max_duration_set :: bool
  ru_policy :: "offboarding_policy option"
  ru_status :: "resource_status option"

definition opt_set :: "'a option \<Rightarrow> 'a \<Rightarrow> 'a" where
  "opt_set v x = (case v of None \<Rightarrow> x | Some y \<Rightarrow> y)"

definition changed_fields :: "resource_update_request \<Rightarrow> bool" where
  "changed_fields req =
     (ru_name req \<noteq> None \<or> ru_bookable_start req \<noteq> None \<or> ru_bookable_end req \<noteq> None \<or>
      ru_max_duration_set req \<or> ru_policy req \<noteq> None \<or> ru_status req \<noteq> None)"

definition updated_resource :: "resource_update_request \<Rightarrow> resource \<Rightarrow> resource" where
  "updated_resource req r = r\<lparr>
     rs_name := opt_set (ru_name req) (rs_name r),
     rs_bookable_start := opt_set (ru_bookable_start req) (rs_bookable_start r),
     rs_bookable_end := opt_set (ru_bookable_end req) (rs_bookable_end r),
     rs_max_duration := (if ru_max_duration_set req then ru_max_duration req else rs_max_duration r),
     rs_policy := opt_set (ru_policy req) (rs_policy r),
     rs_status := opt_set (ru_status req) (rs_status r) \<rparr>"

definition update_resource :: "env \<Rightarrow> resource_update_request \<Rightarrow> resource svc" where
  "update_resource env req = atomic env
     (then_svc (admin_settings env (ru_actor req) (ru_request_id req))
       (then_svc
         (if changed_fields req
          then then_svc (update_resources env (\<lambda>r. rs_id r = ru_resource req) (updated_resource req))
                 (ret ())
          else ret ())
         (get_row resources (\<lambda>r. rs_id r = ru_resource req))))"

record grant_request =
  gr_resource :: uuid
  gr_grantee :: uuid
  gr_actor :: uuid
  gr_request_id :: string

definition new_grant :: "env \<Rightarrow> grant_request \<Rightarrow> resource_admin" where
  "new_grant env req =
     \<lparr> ra_id = ev_uuid env, ra_resource = gr_resource req, ra_user = gr_grantee req,
       ra_granted_at = ev_py_now env, ra_granted_by = gr_actor req \<rparr>"

fun grant_error :: "exn \<Rightarrow> exn" where
  "grant_error (DatabaseError s) =
     (if s = Some UNIQUE_VIOLATION then AlreadyResourceAdminError else DatabaseError s)"
| "grant_error e = e"

definition grant_resource_admin :: "env \<Rightarrow> grant_request \<Rightarrow> resource_admin svc" where
  "grant_resource_admin env req = catch_svc (atomic env
     (then_svc (admin_settings env (gr_actor req) (gr_request_id req))
       (insert_admin env (new_grant env req))))
     (\<lambda>e. raise (grant_error e))"

record revoke_request =
  rv_resource :: uuid
  rv_user :: uuid
  rv_actor :: uuid
  rv_request_id :: string

definition revoke_resource_admin :: "env \<Rightarrow> revoke_request \<Rightarrow> unit svc" where
  "revoke_resource_admin env req = bind_svc (atomic env
     (then_svc (admin_settings env (rv_actor req) (rv_request_id req))
       (delete_admins env (\<lambda>a. ra_resource a = rv_resource req \<and> ra_user a = rv_user req))))
     (\<lambda>n. if n = 0 then raise NotFoundError else ret ())"

section \<open>Safety\<close>

lemma keeps_tx_admin_settings [inv_intros]: "keeps tx_ok (admin_settings env a rid)"
  unfolding admin_settings_def by (intro inv_intros)

lemma keeps_tx_save_resource [inv_intros]: "keeps tx_ok (save_resource env r)"
  unfolding save_resource_def by (cases "validate_iana_zone (ev_zone env) (rs_timezone r)")
    (auto intro!: inv_intros)

lemma safe_resource_services [inv_intros]:
  "safe (create_resource env cr)" "safe (update_resource env ur)"
  "safe (grant_resource_admin env gr)" "safe (revoke_resource_admin env vr)"
  unfolding create_resource_def update_resource_def grant_resource_admin_def revoke_resource_admin_def
  by (intro inv_intros)+

end
