(* ===== verification/Db_Invariant.thy ===== *)
theory Db_Invariant
  imports Waitlist_Services Series_Tasks Idempotency Offboarding Resource_Services
begin

text \<open>
  What the services may do to the audited tables, and the locale \<open>audited_invariant\<close>: a property of
  the database that every lawful statement on an audited table keeps is kept by every service.
  The statements each service runs are discharged here once; \<open>Audit_Trail\<close> interprets the locale.
\<close>

section \<open>Lawful changes of a row\<close>

text \<open>A held booking is confirmed or cancelled, a confirmed one is cancelled, a cancelled one is
  final; no other field than the range and the owner changes without a change of status.\<close>

definition status_step :: "booking_status \<Rightarrow> booking_status \<Rightarrow> bool" where
  "status_step s t = (s = t \<or> s = Held \<or> (s = Confirmed \<and> t = Cancelled))"

definition booking_change :: "booking \<Rightarrow> booking \<Rightarrow> bool" where
  "booking_change b c =
     (bk_id c = bk_id b \<and> bk_resource c = bk_resource b \<and> bk_series c = bk_series b \<and>
      bk_created_at c = bk_created_at b \<and> status_step (bk_status b) (bk_status c) \<and>
      (bk_status c = bk_status b \<longrightarrow>
         c = b\<lparr> bk_range := bk_range c, bk_user := bk_user c \<rparr>))"

text \<open>An entry keeps everything but its status, and never becomes waiting again.\<close>

definition entry_change :: "waitlist_entry \<Rightarrow> waitlist_entry \<Rightarrow> bool" where
  "entry_change e f =
     (f = e\<lparr> we_status := we_status f \<rparr> \<and> (we_status f = Waiting \<longrightarrow> we_status e = Waiting))"

text \<open>An offer that is no longer active is final.\<close>

definition offer_change :: "waitlist_offer \<Rightarrow> waitlist_offer \<Rightarrow> bool" where
  "offer_change w v =
     (v = w\<lparr> wo_status := wo_status v \<rparr> \<and> (wo_status w = wo_status v \<or> wo_status w = Offer_active))"

definition resource_change :: "resource \<Rightarrow> resource \<Rightarrow> bool" where
  "resource_change r s =
     (rs_id s = rs_id r \<and> rs_timezone s = rs_timezone r \<and> rs_category s = rs_category r \<and>
      rs_created_by s = rs_created_by r \<and> rs_restricted_group s = rs_restricted_group r)"

lemmas change_defs = booking_change_def entry_change_def offer_change_def resource_change_def
  status_step_def

definition same_audited :: "db \<Rightarrow> db \<Rightarrow> bool" where
  "same_audited d d' =
     (bookings d' = bookings d \<and> entries d' = entries d \<and> offers d' = offers d \<and>
      resources d' = resources d \<and> admins d' = admins d \<and> audit d' = audit d)"

lemma distinct_by_pair:
  "sorted_wrt pr rs \<Longrightarrow> (\<And>a b. pr a b \<Longrightarrow> f a \<noteq> f b) \<Longrightarrow> distinct (map f rs)"
  by (induction rs) auto

lemma ids_distinct:
  assumes "tables_ok d"
  shows "distinct (map bk_id (bookings d))" "distinct (map we_id (entries d))"
    "distinct (map wo_id (offers d))" "distinct (map rs_id (resources d))"
    "distinct (map ra_id (admins d))"
  using assms unfolding tables_ok_def table_ok_def
  by (auto intro!: distinct_by_pair simp: booking_pair_ok_def entry_pair_ok_def offer_pair_ok_def
      resource_pair_ok_def admin_pair_ok_def)

lemma same_id_same_row:
  "distinct (map f rs) \<Longrightarrow> r \<in> set rs \<Longrightarrow> s \<in> set rs \<Longrightarrow> f r = f s \<Longrightarrow> r = s"
  by (auto simp: distinct_map inj_on_def)

lemma same_audited_rows:
  "insert_row env st check get put None r d = (x, d') \<Longrightarrow>
     (\<And>rs. same_audited d (put rs d)) \<Longrightarrow>
     same_audited d d'"
  "update_rows env st check get put None P f d = (y, d') \<Longrightarrow>
     (\<And>rs. same_audited d (put rs d)) \<Longrightarrow>
     same_audited d d'"
  "delete_rows env st get put None P d = (y, d') \<Longrightarrow>
     (\<And>rs. same_audited d (put rs d)) \<Longrightarrow>
     same_audited d d'"
  by (auto simp: insert_row_def update_rows_def delete_rows_def run_stmt_def log_insert_def
      log_update_def log_delete_def same_audited_def split: option.splits sum.splits)

text \<open>A statement that fails changes nothing, so only its successes matter.\<close>

definition clean_failure :: "'a svc \<Rightarrow> bool" where
  "clean_failure m = (\<forall>d e d'. m d = (Inl e, d') \<longrightarrow> d' = d)"

lemma clean_failureD: "clean_failure m \<Longrightarrow> m d = (Inl e, d') \<Longrightarrow> d' = d"
  by (simp add: clean_failure_def)

lemma stmts_clean:
  "clean_failure (insert_booking env b)" "clean_failure (update_bookings env P f)"
  "clean_failure (delete_bookings env P)" "clean_failure (insert_entry env e)"
  "clean_failure (update_entries env Q g)" "clean_failure (insert_offer env w)"
  "clean_failure (update_offers env S h)" "clean_failure (insert_resource env r)"
  "clean_failure (update_resources env V k)" "clean_failure (insert_admin env a)"
  "clean_failure (delete_admins env A)"
  by (auto simp: clean_failure_def stmt_defs insert_row_def update_rows_def delete_rows_def
      run_stmt_def split: option.splits sum.splits)

lemma keeps_clean:
  assumes "clean_failure m" "\<And>d x d'. J d \<Longrightarrow> m d = (Inr x, d') \<Longrightarrow> J d'"
  shows "keeps J m"
proof
  fix d assume d: "J d"
  obtain r d' where m: "m d = (r, d')" by (cases "m d")
  then show "J (snd (m d))"
    using assms d by (cases r) (auto simp: clean_failure_def)
qed

section \<open>The contract\<close>

named_theorems kept_intros \<open>services that keep an invariant of the audited tables\<close>

locale audited_invariant =
  fixes I :: "db \<Rightarrow> bool"
  assumes ok: "I d \<Longrightarrow> tables_ok d"
    and frame: "I d \<Longrightarrow> tables_ok d' \<Longrightarrow> same_audited d d' \<Longrightarrow> I d'"
    and booking_inserted: "I d \<Longrightarrow> bk_status b \<noteq> Cancelled \<Longrightarrow> insert_booking env b d = (Inr x, d') \<Longrightarrow> I d'"
    and bookings_updated: "I d \<Longrightarrow> (\<And>b. b \<in> set (bookings d) \<Longrightarrow> P b \<Longrightarrow> booking_change b (f b))
          \<Longrightarrow> update_bookings env P f d = (Inr n, d') \<Longrightarrow> I d'"
    and holds_deleted: "I d \<Longrightarrow> (\<And>b. P b \<Longrightarrow> bk_status b = Held \<and> expired_at (ev_db_now env) b)
          \<Longrightarrow> delete_bookings env P d = (Inr n, d') \<Longrightarrow> I d'"
    and entry_inserted: "I d \<Longrightarrow> we_status e = Waiting \<Longrightarrow> insert_entry env e d = (Inr y, d') \<Longrightarrow> I d'"
    and entries_updated: "I d \<Longrightarrow> (\<And>e. e \<in> set (entries d) \<Longrightarrow> Q e \<Longrightarrow> entry_change e (g e))
          \<Longrightarrow> update_entries env Q g d = (Inr n, d') \<Longrightarrow> I d'"
    and offer_inserted: "I d \<Longrightarrow> wo_status w = Offer_active \<Longrightarrow> insert_offer env w d = (Inr z, d') \<Longrightarrow> I d'"
    and offers_updated: "I d \<Longrightarrow> (\<And>w. w \<in> set (offers d) \<Longrightarrow> S w \<Longrightarrow> offer_change w (h w))
          \<Longrightarrow> update_offers env S h d = (Inr n, d') \<Longrightarrow> I d'"
    and resource_inserted: "I d \<Longrightarrow> insert_resource env r d = (Inr u, d') \<Longrightarrow> I d'"
    and resources_updated: "I d \<Longrightarrow> (\<And>r. r \<in> set (resources d) \<Longrightarrow> V r \<Longrightarrow> resource_change r (k r))
          \<Longrightarrow> update_resources env V k d = (Inr n, d') \<Longrightarrow> I d'"
    and admin_inserted: "I d \<Longrightarrow> insert_admin env a d = (Inr v, d') \<Longrightarrow> I d'"
    and admins_deleted: "I d \<Longrightarrow> delete_admins env A d = (Inr n, d') \<Longrightarrow> I d'"
begin

lemma same: "tables_ok d' = tables_ok d \<Longrightarrow> same_audited d d' \<Longrightarrow> I d' = I d"
  using ok[of d] ok[of d'] frame[of d d'] frame[of d' d] by (auto simp: same_audited_def)

lemma frame_simps [simp]:
  "I (d\<lparr> in_tx := b \<rparr>) = I d" "I (d\<lparr> sess := s \<rparr>) = I d" "I (d\<lparr> hooks := hs \<rparr>) = I d"
  "I (d\<lparr> queue := q \<rparr>) = I d" "I (d\<lparr> checks := cs \<rparr>) = I d"
  "I (d\<lparr> notifications := ns \<rparr>) = I d" "I (d\<lparr> metrics := ms \<rparr>) = I d"
  "I (d\<lparr> heartbeats := hbs \<rparr>) = I d"
  by (rule same; simp add: same_audited_def)+

lemma keeps_atomic [kept_intros]:
  assumes "keeps I m"
  shows "keeps I (atomic env m)"
proof
  fix d assume d: "I d"
  obtain r d' where m: "atomic env m d = (r, d')" by (cases "atomic env m d")
  then have "I d'"
  proof (cases rule: atomic_cases)
    case (commit x d1)
    have "I d1" by (rule keepsE[OF assms _ commit(2)]) (simp add: d)
    then show ?thesis by (simp add: commit(6) run_hooks_eq)
  next
    case (savepoint x)
    show ?thesis by (rule keepsE[OF assms d savepoint(2)])
  qed (use d in simp)
  then show "I (snd (atomic env m d))" using m by simp
qed

lemma keeps_autocommit [kept_intros]: "keeps I m \<Longrightarrow> keeps I (autocommit env m)"
  unfolding autocommit_def by (rule keeps_atomic)

lemma keeps_on_commit [kept_intros]: "keeps I (on_commit env t)"
  and keeps_send_now [kept_intros]: "keeps I (send_now env t)"
  and keeps_settings [kept_intros]: "keeps I (apply_write_path_session_settings env ai aty rid rsn)"
  and keeps_get_row [kept_intros]: "keeps I (get_row get P)"
  and keeps_insert_check [kept_intros]: "keeps I (insert_check env cr)"
  by (auto simp: keeps_def on_commit_def send_now_def dispatch_eq get_row_def insert_check_def
      run_stmt_def apply_write_path_session_settings_def split: option.splits)

text \<open>The tables without an audit trigger.\<close>

lemma keeps_by_frame:
  assumes "\<And>d r d'. tables_ok d \<Longrightarrow> m d = (r, d') \<Longrightarrow> tables_ok d'"
    and "\<And>d r d'. m d = (r, d') \<Longrightarrow> same_audited d d'"
  shows "keeps I m"
proof
  fix d assume d: "I d"
  obtain r d' where m: "m d = (r, d')" by (cases "m d")
  show "I (snd (m d))" using frame[OF d assms(1)[OF ok[OF d] m]] assms(2)[OF m] m by simp
qed

lemma keeps_unaudited [kept_intros]:
  "keeps I (insert_key env ky)" "keeps I (update_keys env Pk fk)" "keeps I (delete_keys env Pk)"
  "keeps I (update_users env Pu fu)" "keeps I (insert_series env sr)"
  "keeps I (update_series env Ps fs)" "keeps I (insert_alert env al)"
  "keeps I (update_alerts env Pa fa)"
  unfolding stmt_defs
  by (rule keeps_by_frame, erule (1) ikt.tables_insert ikt.tables_update ikt.tables_delete
        aut.tables_update set.tables_insert set.tables_update avt.tables_insert avt.tables_update,
      erule same_audited_rows, simp add: same_audited_def)+

text \<open>The statements on audited tables.\<close>

lemma keeps_insert_booking [kept_intros]:
  "bk_status b \<noteq> Cancelled \<Longrightarrow> keeps I (insert_booking env b)"
  by (rule keeps_clean[OF stmts_clean(1)]) (rule booking_inserted)

lemma keeps_update_bookings [kept_intros]:
  "(\<And>b. P b \<Longrightarrow> booking_change b (f b)) \<Longrightarrow> keeps I (update_bookings env P f)"
  by (rule keeps_clean[OF stmts_clean(2)]) (rule bookings_updated)

lemma keeps_delete_bookings [kept_intros]:
  "(\<And>b. P b \<Longrightarrow> bk_status b = Held \<and> expired_at (ev_db_now env) b) \<Longrightarrow> keeps I (delete_bookings env P)"
  by (rule keeps_clean[OF stmts_clean(3)]) (rule holds_deleted)

lemma keeps_insert_entry [kept_intros]: "we_status e = Waiting \<Longrightarrow> keeps I (insert_entry env e)"
  by (rule keeps_clean[OF stmts_clean(4)]) (rule entry_inserted)

lemma keeps_update_entries [kept_intros]:
  "(\<And>e. Q e \<Longrightarrow> entry_change e (g e)) \<Longrightarrow> keeps I (update_entries env Q g)"
  by (rule keeps_clean[OF stmts_clean(5)]) (rule entries_updated)

lemma keeps_insert_offer [kept_intros]: "wo_status w = Offer_active \<Longrightarrow> keeps I (insert_offer env w)"
  by (rule keeps_clean[OF stmts_clean(6)]) (rule offer_inserted)

lemma keeps_update_offers [kept_intros]:
  "(\<And>w. S w \<Longrightarrow> offer_change w (h w)) \<Longrightarrow> keeps I (update_offers env S h)"
  by (rule keeps_clean[OF stmts_clean(7)]) (rule offers_updated)

lemma keeps_insert_resource [kept_intros]: "keeps I (insert_resource env r)"
  by (rule keeps_clean[OF stmts_clean(8)]) (rule resource_inserted)

lemma keeps_update_resources [kept_intros]:
  "(\<And>r. V r \<Longrightarrow> resource_change r (k r)) \<Longrightarrow> keeps I (update_resources env V k)"
  by (rule keeps_clean[OF stmts_clean(9)]) (rule resources_updated)

lemma keeps_insert_admin [kept_intros]: "keeps I (insert_admin env a)"
  by (rule keeps_clean[OF stmts_clean(10)]) (rule admin_inserted)

lemma keeps_delete_admins [kept_intros]: "keeps I (delete_admins env A)"
  by (rule keeps_clean[OF stmts_clean(11)]) (rule admins_deleted)

end

section \<open>Every service keeps it\<close>

lemma ids_read_in:
  assumes "distinct (map f rs)" "b \<in> set rs" "f b \<in> set (map f (filter P rs))"
  shows "P b"
  using assms by (auto dest: same_id_same_row)

context audited_invariant begin

lemmas kept = inv_intros kept_intros

lemma keeps_sql_range [kept_intros]: "keeps I (sql_range s e)"
  by (auto simp: keeps_def sql_range_def split: sum.splits)

lemma keeps_translating [kept_intros]: "keeps I m \<Longrightarrow> keeps I (translating m)"
  unfolding translating_def by (intro keeps_catch keeps_raise)

lemma keeps_create_booking [kept_intros]:
  assumes "cq_status req \<noteq> Cancelled"
  shows "keeps I (create_booking env req)"
  unfolding create_booking_def create_booking_tx_def
  by (intro keeps_translating keeps_atomic keeps_then keeps_bind keeps_settings keeps_sql_range
      keeps_delete_bookings keeps_insert_booking)
    (use assms in \<open>auto simp: reclaimable_def new_booking_def\<close>)

lemma keeps_edit_booking [kept_intros]: "keeps I (edit_booking env req)"
  unfolding edit_booking_def
  by (intro keeps_translating keeps_atomic keeps_then keeps_bind keeps_settings keeps_sql_range
      keeps_get_row keeps_update_bookings)
    (simp add: booking_change_def status_step_def)

lemma keeps_register_cancel_hooks [kept_intros]: "keeps I (register_cancel_hooks env req b)"
  unfolding register_cancel_hooks_def
  by (intro keeps_then keeps_if keeps_bind keeps_query keeps_ret keeps_on_commit)

lemma keeps_cancel_booking [kept_intros]: "keeps I (cancel_booking env req)"
  unfolding cancel_booking_def
  by (intro keeps_translating keeps_atomic keeps_then keeps_bind keeps_settings keeps_if keeps_ret
      keeps_get_row keeps_register_cancel_hooks keeps_update_bookings)
    (auto simp: booking_change_def status_step_def cancelled_row_def)

lemma keeps_transfer [kept_intros]: "keeps I (transfer_booking_ownership env b u rid)"
  unfolding transfer_booking_ownership_def
  by (intro keeps_atomic keeps_then keeps_settings keeps_get_row keeps_update_bookings)
    (simp add: booking_change_def status_step_def)

lemma keeps_cancel_series [kept_intros]: "keeps I (cancel_recurring_series env req)"
proof -
  have body: "keeps I (bind_svc (query (\<lambda>d. map bk_id (filter R (bookings d)))) (\<lambda>ids.
      then_svc (update_bookings env (\<lambda>b. bk_id b \<in> List.set ids) (cancelled_row now a rs))
        (query (\<lambda>d. (ids, c d)))))" (is "keeps I ?m")
    if R: "\<And>b. R b \<Longrightarrow> bk_status b = Confirmed" for R now a rs and c :: "db \<Rightarrow> nat"
  proof
    fix d assume d: "I d"
    let ?ids = "map bk_id (filter R (bookings d))"
    obtain r d1 where u: "update_bookings env (\<lambda>b. bk_id b \<in> List.set ?ids) (cancelled_row now a rs) d
        = (r, d1)" (is "?u = _") by (cases ?u)
    have "I d1"
    proof (cases r)
      case (Inl e)
      then show ?thesis using clean_failureD[OF stmts_clean(2) u[unfolded Inl]] d by simp
    next
      case (Inr n)
      have change: "booking_change b (cancelled_row now a rs b)"
        if "b \<in> set (bookings d)" "bk_id b \<in> List.set ?ids" for b
        using R ids_read_in[OF ids_distinct(1)[OF ok[OF d]] that]
        by (auto simp: booking_change_def status_step_def cancelled_row_def)
      show ?thesis by (rule bookings_updated[OF d _ u[unfolded Inr]]) (rule change)
    qed
    then show "I (snd (?m d))" using u by (cases r) (simp_all add: bind_svc_def then_svc_def)
  qed
  show ?thesis unfolding cancel_recurring_series_def
    by (rule keeps_atomic, rule keeps_then, rule keeps_settings, rule body) simp
qed

lemma keeps_waitlist_entry_services [kept_intros]:
  "keeps I (join_waitlist env jreq)" "keeps I (cancel_waitlist_entry env creq)"
  "keeps I (record_offer_cascade_heartbeat env created n)"
  unfolding join_waitlist_def cancel_waitlist_entry_def record_offer_cascade_heartbeat_def
  by (intro keeps_catch keeps_raise keeps_atomic keeps_autocommit keeps_then keeps_bind keeps_settings
      keeps_sql_range keeps_get_row keeps_ret keeps_insert_entry keeps_update_entries
      keeps_insert_check; simp add: new_entry_def entry_change_def)+

lemma keeps_accept_offer [kept_intros]: "keeps I (accept_offer env req)"
  unfolding accept_offer_def
  by (intro keeps_atomic keeps_then keeps_bind keeps_settings keeps_if keeps_raise keeps_get_row
      keeps_update_bookings keeps_update_offers keeps_update_entries)
    (auto simp: acceptable_def change_defs)

lemma keeps_decline_offer [kept_intros]: "keeps I (decline_offer env req)"
  unfolding decline_offer_def
  by (intro keeps_atomic keeps_then keeps_bind keeps_settings keeps_if keeps_raise keeps_get_row
      keeps_on_commit keeps_update_bookings keeps_update_offers keeps_update_entries)
    (auto simp: change_defs)

lemma keeps_issue_offer [kept_intros]: "keeps I (issue_offer env res rid w n hold)"
  unfolding issue_offer_def
  by (intro keeps_autocommit keeps_then keeps_bind keeps_if keeps_raise keeps_query keeps_ret
      keeps_send_now keeps_waitlist_entry_services keeps_insert_offer keeps_update_entries)
    (simp_all add: new_offer_def change_defs)

lemma keeps_cascade [kept_intros]:
  "keeps I (try_candidates envs res rid i ws)"
  "keeps I (create_offer_for_freed_range envs res s e rid)"
  "keeps I (create_offer_for_freed_range_task envs res s e rid)"
proof -
  show tc: "keeps I (try_candidates envs res rid i ws)" for i ws
    by (rule keeps_try_candidates)
      (auto intro: keeps_create_booking keeps_issue_offer keeps_waitlist_entry_services
        simp: hold_request_def)
  show "keeps I (create_offer_for_freed_range envs res s e rid)"
    "keeps I (create_offer_for_freed_range_task envs res s e rid)"
    unfolding create_offer_for_freed_range_task_def create_offer_for_freed_range_def
    by (intro keeps_bind keeps_then keeps_query keeps_get_row tc)+
qed

text \<open>The reaper resolves the active offer it has just read.\<close>

lemma keeps_reap_hold [kept_intros]: "keeps I (reap_hold env now rid hid)"
proof -
  have body: "keeps I (bind_svc (query (\<lambda>d. find (\<lambda>w. wo_hold w = hid \<and> wo_status w = Offer_active)
        (offers d))) (\<lambda>v. case v of
              None \<Rightarrow> ret (Some None)
            | Some w \<Rightarrow>
                then_svc (update_offers env (\<lambda>r. wo_id r = wo_id w)
                            (\<lambda>r. r\<lparr> wo_status := Offer_expired \<rparr>))
                (then_svc (update_entries env (\<lambda>r. we_id r = wo_entry w)
                            (\<lambda>r. r\<lparr> we_status := Entry_expired \<rparr>))
                  (ret (Some (Some w))))))" (is "keeps I ?m")
  proof
    fix d assume d: "I d"
    show "I (snd (?m d))"
    proof (cases "find (\<lambda>w. wo_hold w = hid \<and> wo_status w = Offer_active) (offers d)")
      case None
      then show ?thesis using d by (simp add: bind_svc_def)
    next
      case (Some w)
      let ?u = "update_offers env (\<lambda>r. wo_id r = wo_id w) (\<lambda>r. r\<lparr> wo_status := Offer_expired \<rparr>)"
      have w: "w \<in> set (offers d)" "wo_status w = Offer_active"
        using Some by (auto simp: find_Some_iff)
      obtain r d1 where u: "?u d = (r, d1)" by (cases "?u d")
      have "I d1"
      proof (cases r)
        case (Inl e)
        then show ?thesis using clean_failureD[OF stmts_clean(7) u[unfolded Inl]] d by simp
      next
        case (Inr n)
        have "offer_change v (v\<lparr> wo_status := Offer_expired \<rparr>)"
          if "v \<in> set (offers d)" "wo_id v = wo_id w" for v
          using same_id_same_row[OF ids_distinct(3)[OF ok[OF d]] that(1) w(1) that(2)] w(2)
          by (simp add: offer_change_def)
        then show ?thesis by (rule offers_updated[OF d _ u[unfolded Inr]])
      qed
      moreover have "keeps I (then_svc (update_entries env (\<lambda>r. we_id r = wo_entry w)
          (\<lambda>r. r\<lparr> we_status := Entry_expired \<rparr>)) (ret (Some (Some w))))"
        by (intro keeps_then keeps_ret keeps_update_entries) (simp add: entry_change_def)
      ultimately show ?thesis using Some u
        by (cases r) (simp_all add: bind_svc_def[of "query _"] then_svc_def[of ?u]
            bind_svc_def[of ?u] keepsD)
    qed
  qed
  show ?thesis unfolding reap_hold_def
    by (intro keeps_atomic keeps_then keeps_bind[of I "update_bookings _ _ _"] keeps_settings
        keeps_if keeps_ret body keeps_update_bookings)
      (auto simp: change_defs reaped_row_def expired_hold_def)
qed

lemma keeps_reap_expired_holds [kept_intros]: "keeps I (reap_expired_holds envs)"
proof -
  have loop: "keeps I (reap_loop envs now rid k hs acc)" for now rid k hs acc
  proof (induction hs arbitrary: k acc)
    case (Cons h hs)
    show ?case unfolding reap_loop.simps
      by (intro keeps_bind keeps_reap_hold keeps_option Cons.IH keeps_cascade)
  qed (simp add: keeps_ret)
  show ?thesis unfolding reap_expired_holds_def Let_def
    by (intro keeps_bind keeps_then keeps_query keeps_ret keeps_autocommit keeps_insert_check loop)
qed

text \<open>Recurring series and their background jobs.\<close>

lemma keeps_expand_in [kept_intros]: "keeps I (expand_in env tz s e st n)"
  by (auto simp: keeps_def expand_in_def split: option.splits sum.splits)

lemma keeps_pair [kept_intros]:
  assumes "\<And>x y. keeps I (f x y)" shows "keeps I (case p of (x, y) \<Rightarrow> f x y)"
  using assms by (cases p) simp

lemma keeps_occurrence_create [kept_intros]:
  "keeps I (create_booking env (occurrence_request res user ser rid ty oc))"
  by (rule keeps_create_booking) (simp add: occurrence_request_def)

lemma keeps_confirm_loop [kept_intros]: "keeps I (confirm_loop envs res user ser rid known i os)"
proof (induction os arbitrary: i)
  case (Cons oc os)
  have rest: "keeps I (bind_svc (confirm_loop envs res user ser rid known (Suc i) os) (\<lambda>(cr, cf). ret (f cr cf)))"
    for f :: "_ \<Rightarrow> _ \<Rightarrow> ((uuid \<times> date \<times> instant \<times> instant) list \<times> (date \<times> bool) list)"
    by (intro keeps_bind keeps_pair keeps_ret Cons.IH)
  show ?case unfolding confirm_loop.simps
    by (intro keeps_if keeps_create_then keeps_occurrence_create rest)
qed (simp add: keeps_ret)

lemma keeps_confirm_series [kept_intros]: "keeps I (confirm_recurring_series envs user c rid)"
  unfolding confirm_recurring_series_def
  by (intro keeps_then keeps_bind keeps_get_row keeps_expand_in keeps_autocommit keeps_unaudited
      keeps_confirm_loop keeps_pair keeps_ret)

lemma keeps_rolling [kept_intros]: "keeps I (rolling_materialize_series envs)"
proof -
  have occ: "keeps I (roll_occurrences es s rid i os)" for es s rid i os
  proof (induction os arbitrary: i)
    case (Cons oc os)
    have rest: "keeps I (bind_svc (roll_occurrences es s rid (Suc i) os) (\<lambda>(n, cf). ret (f n cf)))"
      for f :: "nat \<Rightarrow> date list \<Rightarrow> nat \<times> date list"
      by (intro keeps_bind keeps_pair keeps_ret Cons.IH)
    show ?case unfolding roll_occurrences.simps
      by (intro keeps_create_then keeps_occurrence_create rest)
  qed (simp add: keeps_ret)
  have one: "keeps I (roll_series es cutoff rid s)" for es cutoff rid s
    unfolding roll_series_def
    by (intro keeps_if keeps_ret keeps_bind keeps_expand_in)
      (auto intro!: keeps_ret keeps_bind keeps_then keeps_autocommit keeps_unaudited occ
        simp del: roll_occurrences.simps split: list.splits)
  have all: "keeps I (roll_all es cutoff rid k ss acc)" for es cutoff rid k ss acc
    by (induction ss arbitrary: k acc) (auto intro!: keeps_ret keeps_bind one)
  show ?thesis unfolding rolling_materialize_series_def Let_def
    by (intro keeps_bind keeps_query keeps_then keeps_autocommit keeps_insert_check keeps_ret all)
qed

lemma keeps_from_state: "(\<And>x. keeps J (m x)) \<Longrightarrow> keeps J (\<lambda>d. m (f d) d)"
  by (simp add: keeps_def)

lemma keeps_rematerialize_booking [kept_intros]: "keeps I (rematerialize_booking env rid s os b)"
proof -
  have all: "keeps I (send_all env ts)" for ts
    by (induction ts) (simp_all only: send_all.simps keeps_ret keeps_then keeps_send_now)
  have notify: "keeps I (\<lambda>d'. then_svc (send_all env (f d')) (ret x) d')"
    "keeps I (\<lambda>d'. then_svc (send_now env (g d')) (ret x) d')" for f g and x :: remat_outcome
    by (rule keeps_from_state, rule keeps_then, rule all keeps_send_now, rule keeps_ret)+
  show ?thesis unfolding rematerialize_booking_def remat_edit_def Let_def
    by (intro keeps_if keeps_ret keeps_create_then keeps_edit_booking notify)
qed

lemma keeps_rematerialize [kept_intros]: "keeps I (rematerialize_stale_series envs)"
proof -
  have bs: "keeps I (rematerialize_bookings es rid s os i bs)" for es rid s os i bs
    by (induction bs arbitrary: i) (auto intro!: keeps_ret keeps_bind keeps_rematerialize_booking)
  have one: "keeps I (rematerialize_series es now rid s)" for es now rid s
    unfolding rematerialize_series_def
    by (intro keeps_bind keeps_expand_in keeps_query keeps_if keeps_ret keeps_then keeps_autocommit
        keeps_unaudited bs)
  have all: "keeps I (rematerialize_all es now rid k ss)" for es now rid k ss
    by (induction ss arbitrary: k) (auto intro!: keeps_ret keeps_bind one)
  show ?thesis unfolding rematerialize_stale_series_def Let_def
    by (intro keeps_bind keeps_query keeps_then keeps_autocommit keeps_insert_check keeps_ret all)
qed

text \<open>Resources and users.\<close>

lemma keeps_resource_services [kept_intros]:
  "keeps I (create_resource env cr)" "keeps I (update_resource env ur)"
  "keeps I (grant_resource_admin env gr)" "keeps I (revoke_resource_admin env vr)"
proof -
  have save: "keeps I (save_resource env r)" for r
    unfolding save_resource_def by (cases "validate_iana_zone (ev_zone env) (rs_timezone r)")
      (auto intro: keeps_raise keeps_insert_resource)
  show "keeps I (create_resource env cr)" "keeps I (update_resource env ur)"
    "keeps I (grant_resource_admin env gr)" "keeps I (revoke_resource_admin env vr)"
    unfolding create_resource_def update_resource_def grant_resource_admin_def
      revoke_resource_admin_def admin_settings_def
    by (intro keeps_atomic keeps_then keeps_bind keeps_catch keeps_raise keeps_settings keeps_if
        keeps_ret keeps_get_row keeps_insert_admin keeps_delete_admins save keeps_update_resources;
      simp add: resource_change_def updated_resource_def)+
qed

lemma keeps_deactivate_user [kept_intros]: "keeps I (deactivate_user env req)"
proof -
  have flip: "keeps I (flip_status env req)" unfolding flip_status_def
    by (intro keeps_atomic keeps_then keeps_bind keeps_settings keeps_unaudited keeps_get_row keeps_ret)
  have one: "keeps I (dispose_booking env req b)" for b unfolding dispose_booking_def
    by (rule keeps_bind, rule keeps_get_row)
      (auto intro!: keeps_bind keeps_query keeps_ret keeps_then keeps_option keeps_transfer
        keeps_cancel_booking keeps_on_commit split: offboarding_policy.splits)
  have bs: "keeps I (dispose_bookings env req bs)" for bs
    by (induction bs) (simp_all only: dispose_bookings.simps keeps_ret keeps_bind one)
  have ws: "keeps I (release_offers env req ws)" for ws
    by (induction ws) (simp_all only: release_offers.simps keeps_ret keeps_then keeps_decline_offer)
  have es: "keeps I (withdraw_entries env req es)" for es
    by (induction es) (simp_all only: withdraw_entries.simps keeps_ret keeps_then
        keeps_waitlist_entry_services)
  have ss: "keeps I (flag_series env req ss)" for ss
    by (induction ss) (simp_all only: flag_series.simps keeps_ret keeps_then keeps_bind keeps_query
        keeps_option keeps_on_commit)
  show ?thesis unfolding deactivate_user_def Let_def
    by (intro keeps_bind keeps_pair keeps_if keeps_then keeps_query keeps_ret flip bs ws es ss)
qed

text \<open>The idempotent write keeps what the write it protects keeps.\<close>

lemma keeps_replay [kept_intros]:
  "keeps I (replay_or_conflict env req)" "keeps I (replay_or_conflict_allowing_in_progress env req)"
proof -
  have st: "keeps I (stored_result k)" for k
    by (auto simp: keeps_def stored_result_def split: option.splits)
  show "keeps I (replay_or_conflict env req)" "keeps I (replay_or_conflict_allowing_in_progress env req)"
    unfolding replay_or_conflict_def replay_or_conflict_allowing_in_progress_def
    by (intro keeps_bind keeps_get_row keeps_if keeps_raise st)+
qed

lemma keeps_claim_failed [kept_intros]:
  "keeps I (replay env req) \<Longrightarrow> keeps I (claim_failed env req replay st)"
  unfolding claim_failed_def by (intro keeps_if keeps_raise)

lemma keeps_run_idempotent_write [kept_intros]:
  assumes "keeps I w"
  shows "keeps I (run_idempotent_write env req w)"
proof -
  have handler: "keeps I (case e of
            DatabaseError st \<Rightarrow> claim_failed env req replay_or_conflict st
          | _ \<Rightarrow> if is_recordable e then then_svc (record_conflict_outcome env req e) (raise e)
                 else raise e)" for e
    unfolding record_conflict_outcome_def
    by (cases e) (auto intro!: keeps_claim_failed keeps_replay keeps_then keeps_atomic keeps_unaudited
        keeps_ret keeps_raise)
  show ?thesis unfolding run_idempotent_write_def protected_write_def claim_key_def complete_key_def
    by (rule keeps_catch, intro keeps_bind keeps_atomic keeps_then keeps_settings keeps_unaudited
        keeps_ret keeps_pair assms, rule handler)
qed

lemma keeps_recurring_confirm [kept_intros]:
  assumes "keeps I w"
  shows "keeps I (run_idempotent_recurring_confirm env env' req w)"
proof
  fix d assume d: "I d"
  let ?claim = "atomic env (claim_key env req None)"
  have claim: "keeps I ?claim" unfolding claim_key_def
    by (intro keeps_atomic keeps_then keeps_settings keeps_unaudited keeps_ret)
  have work: "keeps I (bind_svc w (\<lambda>(st, b).
          then_svc (atomic env'
             (then_svc (apply_write_path_session_settings env' (Some (iq_user req)) (iq_actor_type req)
                 (request_id_text (iq_request_id req)) None)
               (complete_key env' req st b)))
            (ret \<lparr> ir_status = st, ir_body = b, ir_is_replay = False \<rparr>)))" (is "keeps I ?work")
    unfolding complete_key_def
    by (intro keeps_bind keeps_pair keeps_then keeps_atomic keeps_settings keeps_unaudited keeps_ret assms)
  obtain r d1 where c: "?claim d = (r, d1)" by (cases "?claim d")
  have d1: "I d1" using keepsE[OF claim d c] .
  have lost: "I (snd (claim_failed env req replay_or_conflict_allowing_in_progress st d1))" for st
    by (rule keepsD[OF keeps_claim_failed[OF keeps_replay(2)] d1])
  show "I (snd (run_idempotent_recurring_confirm env env' req w d))"
    unfolding run_idempotent_recurring_confirm_def c prod.case
    by (cases r) (auto split: exn.split intro: lost d1 keepsD[OF work d1])
qed

lemma keeps_cleanup [kept_intros]: "keeps I (cleanup_expired_idempotency_keys env)"
  and keeps_delivery [kept_intros]: "keeps I (execute_notification_delivery env send nid email t)"
proof -
  have "keeps I (update_or_create_heartbeat env nm f)" for nm f
    by (simp add: keeps_def update_or_create_heartbeat_def)
  then show "keeps I (cleanup_expired_idempotency_keys env)"
    unfolding cleanup_expired_idempotency_keys_def
    by (intro keeps_bind keeps_autocommit keeps_unaudited keeps_then keeps_ret)
  show "keeps I (execute_notification_delivery env send nid email t)"
    by (simp add: keeps_def execute_notification_delivery_def Let_def split: option.splits)
qed

end

end
