(* ===== verification/Audit_Trail.thy ===== *)
theory Audit_Trail
  imports Db_Invariant
begin

text \<open>
  What the trigger of \<open>core/migrations/0003_audit_trail_triggers_and_grants.py\<close> guarantees: replaying the rows of
  \<open>audit_log\<close> rebuilds the audited tables, and every row of the trail is a lawful change.  Both are
  an invariant of every service (\<open>history_ok\<close>, an interpretation of \<open>audited_invariant\<close>); that the
  trail only grows is another one.
\<close>

section \<open>Replaying the trail\<close>

fun the_booking :: "entity \<Rightarrow> booking option" where
  "the_booking (EBooking b) = Some b" | "the_booking _ = None"
fun the_entry :: "entity \<Rightarrow> waitlist_entry option" where
  "the_entry (EEntry e) = Some e" | "the_entry _ = None"
fun the_offer :: "entity \<Rightarrow> waitlist_offer option" where
  "the_offer (EOffer w) = Some w" | "the_offer _ = None"
fun the_resource :: "entity \<Rightarrow> resource option" where
  "the_resource (EResource r) = Some r" | "the_resource _ = None"
fun the_admin :: "entity \<Rightarrow> resource_admin option" where
  "the_admin (EAdmin a) = Some a" | "the_admin _ = None"

text \<open>One row of the trail applied to a table: the row before is replaced by the row after.\<close>

definition replay_row :: "(entity \<Rightarrow> 'r option) \<Rightarrow> 'r list \<Rightarrow> audit_log \<Rightarrow> 'r list" where
  "replay_row sel rs a =
     (case (Option.bind (al_before a) sel, Option.bind (al_after a) sel) of
        (None, None) \<Rightarrow> rs
      | (None, Some r) \<Rightarrow> rs @ [r]
      | (Some old, Some new) \<Rightarrow> map (\<lambda>x. if x = old then new else x) rs
      | (Some old, None) \<Rightarrow> filter (\<lambda>x. x \<noteq> old) rs)"

definition replay :: "(entity \<Rightarrow> 'r option) \<Rightarrow> audit_log list \<Rightarrow> 'r list" where
  "replay sel log = foldl (replay_row sel) [] log"

text \<open>The lawful rows.\<close>

definition booking_row_lawful :: "instant \<Rightarrow> booking option \<Rightarrow> booking option \<Rightarrow> bool" where
  "booking_row_lawful t before after =
     (case (before, after) of
        (None, None) \<Rightarrow> True
      | (None, Some b) \<Rightarrow> bk_status b \<noteq> Cancelled
      | (Some b, Some c) \<Rightarrow> booking_change b c
      | (Some b, None) \<Rightarrow> bk_status b = Held \<and> expired_at t b)"

definition row_lawful :: "('r \<Rightarrow> bool) \<Rightarrow> ('r \<Rightarrow> 'r \<Rightarrow> bool) \<Rightarrow> 'r option \<Rightarrow> 'r option \<Rightarrow> bool" where
  "row_lawful new change before after =
     (case (before, after) of
        (None, None) \<Rightarrow> True
      | (None, Some r) \<Rightarrow> new r
      | (Some r, Some s) \<Rightarrow> change r s
      | (Some r, None) \<Rightarrow> False)"

definition lawful :: "audit_log \<Rightarrow> bool" where
  "lawful a =
     (booking_row_lawful (al_occurred_at a) (Option.bind (al_before a) the_booking)
        (Option.bind (al_after a) the_booking) \<and>
      row_lawful (\<lambda>e. we_status e = Waiting) entry_change
        (Option.bind (al_before a) the_entry) (Option.bind (al_after a) the_entry) \<and>
      row_lawful (\<lambda>w. wo_status w = Offer_active) offer_change
        (Option.bind (al_before a) the_offer) (Option.bind (al_after a) the_offer) \<and>
      row_lawful (\<lambda>r. True) resource_change
        (Option.bind (al_before a) the_resource) (Option.bind (al_after a) the_resource))"

definition history_ok :: "db \<Rightarrow> bool" where
  "history_ok d =
     (tables_ok d \<and>
      bookings d = replay the_booking (audit d) \<and> entries d = replay the_entry (audit d) \<and>
      offers d = replay the_offer (audit d) \<and> resources d = replay the_resource (audit d) \<and>
      admins d = replay the_admin (audit d) \<and> list_all lawful (audit d))"

section \<open>Replay of one statement\<close>

lemma replay_append: "replay sel (log @ log') = foldl (replay_row sel) (replay sel log) log'"
  by (simp add: replay_def)

lemma foldl_map_each: "foldl (\<lambda>xs r. map (h r) xs) ys rs = map (\<lambda>x. foldl (\<lambda>y r. h r y) x rs) ys"
  by (induction rs arbitrary: ys) (simp_all add: comp_def)

lemma foldl_replace_other:
  "id' y \<notin> id' ` set rs \<Longrightarrow> foldl (\<lambda>z r. if z = r then f r else z) y rs = y"
  by (induction rs) auto

lemma foldl_replace:
  assumes "distinct (map id' rs)" "\<And>r. r \<in> set rs \<Longrightarrow> id' (f r) = id' r"
    and "x \<in> set rs \<or> id' x \<notin> id' ` set rs"
  shows "foldl (\<lambda>z r. if z = r then f r else z) x rs = (if x \<in> set rs then f x else x)"
  using assms
proof (induction rs)
  case (Cons r rs)
  show ?case
  proof (cases "x = r")
    case True
    have "id' (f r) \<notin> id' ` set rs" using Cons.prems(1,2) by simp
    then show ?thesis using foldl_replace_other True by fastforce
  next
    case False
    moreover have "x \<in> set rs \<or> id' x \<notin> id' ` set rs"
      using Cons.prems(3) False by auto
    ultimately show ?thesis using Cons.IH Cons.prems by simp
  qed
qed simp

lemma replay_updates:
  assumes "distinct (map id' rs)" "\<And>r. r \<in> set rs \<Longrightarrow> P r \<Longrightarrow> id' (f r) = id' r"
  shows "foldl (\<lambda>xs r. map (\<lambda>x. if x = r then f r else x) xs) rs (filter P rs) = updated P f rs"
proof -
  have d: "distinct (map id' (filter P rs))" using assms(1) by (induction rs) auto
  have "foldl (\<lambda>z r. if z = r then f r else z) x (filter P rs) = (if P x then f x else x)"
    if x: "x \<in> set rs" for x
  proof -
    have "x \<in> set (filter P rs) \<or> id' x \<notin> id' ` set (filter P rs)"
    proof (cases "P x")
      case False
      have "id' x \<notin> id' ` set (filter P rs)"
      proof
        assume "id' x \<in> id' ` set (filter P rs)"
        then obtain s where s: "id' x = id' s" "s \<in> set (filter P rs)" by (rule imageE)
        then have "x = s" using same_id_same_row[OF assms(1) x] by simp
        then show False using s(2) False by simp
      qed
      then show ?thesis ..
    qed (use x in simp)
    from foldl_replace[of id' "filter P rs" f, OF d _ this] show ?thesis
      using x assms(2) by simp
  qed
  then show ?thesis unfolding foldl_map_each updated_def by simp
qed

lemma foldl_filter_each:
  "foldl (\<lambda>xs r. filter (\<lambda>x. x \<noteq> r) xs) ys rs = filter (\<lambda>x. x \<notin> set rs) ys"
  by (induction rs arbitrary: ys) (auto intro: filter_cong)

lemma replay_deletes: "foldl (\<lambda>xs r. filter (\<lambda>x. x \<noteq> r) xs) rs (filter P rs) = del_rows P rs"
  unfolding foldl_filter_each del_rows_def by (auto intro: filter_cong)

lemma replay_row_audit_row:
  "replay_row sel rs (audit_row env s act e before after) =
     (case (Option.bind before sel, Option.bind after sel) of
        (None, None) \<Rightarrow> rs
      | (None, Some r) \<Rightarrow> rs @ [r]
      | (Some old, Some new) \<Rightarrow> map (\<lambda>x. if x = old then new else x) rs
      | (Some old, None) \<Rightarrow> filter (\<lambda>x. x \<noteq> old) rs)"
  by (simp add: replay_row_def audit_row_def)

text \<open>The trail of a statement on one table leaves the replay of the others alone.\<close>

lemma replay_other:
  assumes "\<And>r. sel (g r) = None"
  shows "replay sel (audit (log_insert env (Some g) r d)) = replay sel (audit d)"
    and "replay sel (audit (log_update env (Some g) f rs d)) = replay sel (audit d)"
    and "replay sel (audit (log_delete env (Some g) rs d)) = replay sel (audit d)"
proof -
  have same: "foldl (replay_row sel) ys (map (\<lambda>r. audit_row env s act (e r) (Some (g (b r)))
      (c r)) rs) = ys" if "\<And>r. Option.bind (c r) sel = None" for ys s act e b c
    using that by (induction rs) (simp_all add: replay_row_audit_row assms)
  show "replay sel (audit (log_insert env (Some g) r d)) = replay sel (audit d)"
    by (simp add: log_insert_eq replay_append replay_row_audit_row assms)
  show "replay sel (audit (log_update env (Some g) f rs d)) = replay sel (audit d)"
    unfolding log_update_eq by (simp add: replay_append same assms)
  show "replay sel (audit (log_delete env (Some g) rs d)) = replay sel (audit d)"
    unfolding log_delete_eq by (simp add: replay_append same)
qed

definition extends_log :: "audit_log list \<Rightarrow> db \<Rightarrow> bool" where
  "extends_log log d = (tables_ok d \<and> (\<exists>new. audit d = log @ new))"

locale audited_table = db_table check row_ok pair_ok get put
  for check :: "'r \<Rightarrow> 'r list \<Rightarrow> sqlstate option"
    and row_ok :: "'r \<Rightarrow> bool" and pair_ok :: "'r \<Rightarrow> 'r \<Rightarrow> bool"
    and get :: "db \<Rightarrow> 'r list" and put :: "'r list \<Rightarrow> db \<Rightarrow> db" +
  fixes ent :: "'r \<Rightarrow> entity" and sel :: "entity \<Rightarrow> 'r option" and ident :: "'r \<Rightarrow> uuid"
  assumes sel_ent: "sel (ent r) = Some r"
    and put_audit: "audit (put rs d) = audit d"
    and pair_ident: "pair_ok r s \<Longrightarrow> ident r \<noteq> ident s"
begin

lemma replay_inserted:
  assumes "get d = replay sel (audit d)" "insert_row env st check get put (Some ent) r d = (Inr x, d')"
  shows "get d' = replay sel (audit d')"
  using assms insert_Inr[OF assms(2)]
  by (simp add: log_insert_eq replay_append replay_row_audit_row sel_ent put_audit get_put get_audit)

lemma replay_updated:
  assumes "tables_ok d" "get d = replay sel (audit d)"
    and "\<And>r. r \<in> set (get d) \<Longrightarrow> P r \<Longrightarrow> ident (f r) = ident r"
    and "update_rows env st check get put (Some ent) P f d = (Inr n, d')"
  shows "get d' = replay sel (audit d')"
proof -
  have each: "foldl (replay_row sel) ys (map (\<lambda>r. audit_row env s Audit_update (ent (f r)) (Some (ent r))
      (Some (ent (f r)))) rs) = foldl (\<lambda>xs r. map (\<lambda>x. if x = r then f r else x) xs) ys rs" for ys s rs
    by (induction rs arbitrary: ys) (simp_all add: replay_row_audit_row sel_ent)
  have "distinct (map ident (get d))"
    using get_ok[OF assms(1)] pair_ident by (auto simp: table_ok_def intro: distinct_by_pair)
  from replay_updates[OF this assms(3)] show ?thesis
    using update_Inr(2)[OF assms(4)] assms(2)
    by (simp add: log_update_eq replay_append each put_audit put_sess get_put get_audit)
qed

lemma extends_insert:
  "extends_log log d \<Longrightarrow> insert_row env st check get put (Some ent) r d = (Inr x, d')
     \<Longrightarrow> extends_log log d'"
  using tables_insert by (auto simp: extends_log_def log_insert_eq put_audit dest: insert_Inr)

lemma extends_update:
  "extends_log log d \<Longrightarrow> update_rows env st check get put (Some ent) P f d = (Inr n, d')
     \<Longrightarrow> extends_log log d'"
  using tables_update by (auto simp: extends_log_def log_update_eq put_audit dest: update_Inr(2))

lemma extends_delete:
  "extends_log log d \<Longrightarrow> delete_rows env st get put (Some ent) P d = (Inr n, d')
     \<Longrightarrow> extends_log log d'"
proof -
  assume d: "extends_log log d" and u: "delete_rows env st get put (Some ent) P d = (Inr n, d')"
  have "\<exists>new. audit d' = audit d @ new"
    using u by (auto simp: delete_rows_def run_stmt_def log_delete_eq put_audit split: option.splits)
  then show ?thesis using d tables_delete[OF _ u] by (auto simp: extends_log_def)
qed

lemma replay_deleted:
  assumes "get d = replay sel (audit d)" "delete_rows env st get put (Some ent) P d = (Inr n, d')"
  shows "get d' = replay sel (audit d')"
proof -
  have each: "foldl (replay_row sel) ys (map (\<lambda>r. audit_row env s Audit_delete (ent r) (Some (ent r)) None) rs)
      = foldl (\<lambda>xs r. filter (\<lambda>x. x \<noteq> r) xs) ys rs" for ys s rs
    by (induction rs arbitrary: ys) (simp_all add: replay_row_audit_row sel_ent)
  have d': "d' = log_delete env (Some ent) (filter P (get d)) (put (del_rows P (get d)) d)"
    using assms(2) by (auto simp: delete_rows_def run_stmt_def split: option.splits)
  show ?thesis unfolding d' using assms(1) replay_deletes[of "get d" P]
    by (simp add: log_delete_eq replay_append each put_audit put_sess get_put get_audit)
qed

end

interpretation bka: audited_table check_booking booking_row_ok booking_pair_ok bookings put_bookings
    EBooking the_booking bk_id
  by unfold_locales (simp_all add: booking_pair_ok_def)
interpretation wea: audited_table check_entry entry_row_ok entry_pair_ok entries put_entries
    EEntry the_entry we_id
  by unfold_locales (simp_all add: entry_pair_ok_def)
interpretation woa: audited_table check_offer offer_row_ok offer_pair_ok offers put_offers
    EOffer the_offer wo_id
  by unfold_locales (simp_all add: offer_pair_ok_def)
interpretation rsa: audited_table check_resource resource_row_ok resource_pair_ok resources
    put_resources EResource the_resource rs_id
  by unfold_locales (simp_all add: resource_pair_ok_def)
interpretation raa: audited_table check_admin "\<lambda>_. True" admin_pair_ok admins put_admins
    EAdmin the_admin ra_id
  by unfold_locales (simp_all add: admin_pair_ok_def)


section \<open>Every service keeps the trail complete and lawful\<close>

lemma log_tables:
  "bookings (log_insert env en r d) = bookings d" "entries (log_insert env en r d) = entries d"
  "offers (log_insert env en r d) = offers d" "resources (log_insert env en r d) = resources d"
  "admins (log_insert env en r d) = admins d"
  "bookings (log_update env en f rs d) = bookings d" "entries (log_update env en f rs d) = entries d"
  "offers (log_update env en f rs d) = offers d" "resources (log_update env en f rs d) = resources d"
  "admins (log_update env en f rs d) = admins d"
  "bookings (log_delete env en rs d) = bookings d" "entries (log_delete env en rs d) = entries d"
  "offers (log_delete env en rs d) = offers d" "resources (log_delete env en rs d) = resources d"
  "admins (log_delete env en rs d) = admins d"
  by (simp_all add: log_eqs)

lemma history_okD:
  "history_ok d \<Longrightarrow> bookings d = replay the_booking (audit d)"
  "history_ok d \<Longrightarrow> entries d = replay the_entry (audit d)"
  "history_ok d \<Longrightarrow> offers d = replay the_offer (audit d)"
  "history_ok d \<Longrightarrow> resources d = replay the_resource (audit d)"
  "history_ok d \<Longrightarrow> admins d = replay the_admin (audit d)"
  "history_ok d \<Longrightarrow> tables_ok d"
  "history_ok d \<Longrightarrow> list_all lawful (audit d)"
  by (simp_all add: history_ok_def)

lemmas log_facts = log_tables replay_other log_eqs

lemma lawful_audit_row:
  "lawful (audit_row env s act e before after) =
     (booking_row_lawful (ev_db_now env) (Option.bind before the_booking) (Option.bind after the_booking) \<and>
      row_lawful (\<lambda>e. we_status e = Waiting) entry_change
        (Option.bind before the_entry) (Option.bind after the_entry) \<and>
      row_lawful (\<lambda>w. wo_status w = Offer_active) offer_change
        (Option.bind before the_offer) (Option.bind after the_offer) \<and>
      row_lawful (\<lambda>r. True) resource_change
        (Option.bind before the_resource) (Option.bind after the_resource))"
  by (simp add: lawful_def audit_row_def)

lemma history_bookings:
  assumes "history_ok d"
  shows "bk_status b \<noteq> Cancelled \<Longrightarrow> insert_booking env b d = (Inr x, d') \<Longrightarrow> history_ok d'"
    and "(\<And>b. b \<in> set (bookings d) \<Longrightarrow> P b \<Longrightarrow> booking_change b (f b))
          \<Longrightarrow> update_bookings env P f d = (Inr n, d') \<Longrightarrow> history_ok d'"
    and "(\<And>b. P b \<Longrightarrow> bk_status b = Held \<and> expired_at (ev_db_now env) b)
          \<Longrightarrow> delete_bookings env P d = (Inr n, d') \<Longrightarrow> history_ok d'"
proof -
  note d = history_okD[OF assms]
  show "history_ok d'" if b: "bk_status b \<noteq> Cancelled" and u: "insert_booking env b d = (Inr x, d')"
  proof -
    note u' = u[unfolded insert_booking_def]
    have d': "d' = log_insert env (Some EBooking) b (put_bookings (bookings d @ [b]) d)"
      using bkt.insert_Inr[OF u'] by simp
    have "list_all lawful (audit d')" unfolding d' log_insert_eq using d(7) b
      by (simp add: lawful_audit_row booking_row_lawful_def row_lawful_def)
    then show ?thesis unfolding history_ok_def
      using bkt.tables_insert[OF d(6) u'] bka.replay_inserted[OF d(1) u'] d
      by (simp add: d' log_tables replay_other)
  qed
  show "history_ok d'" if c: "\<And>b. b \<in> set (bookings d) \<Longrightarrow> P b \<Longrightarrow> booking_change b (f b)"
      and u: "update_bookings env P f d = (Inr n, d')"
  proof -
    note u' = u[unfolded update_bookings_def]
    have d': "d' = log_update env (Some EBooking) f (filter P (bookings d)) (put_bookings (updated P f (bookings d)) d)"
      using bkt.update_Inr(2)[OF u'] .
    have "list_all lawful (audit d')" unfolding d' log_update_eq using d(7) c
      by (auto simp: list_all_iff lawful_audit_row booking_row_lawful_def row_lawful_def)
    moreover have "bk_id (f b) = bk_id b" if "b \<in> set (bookings d)" "P b" for b
      using c[OF that] by (simp add: booking_change_def)
    ultimately show ?thesis unfolding history_ok_def
      using bkt.tables_update[OF d(6) u'] bka.replay_updated[OF d(6,1) _ u'] d
      by (simp add: d' log_tables replay_other)
  qed
  show "history_ok d'" if c: "\<And>b. P b \<Longrightarrow> bk_status b = Held \<and> expired_at (ev_db_now env) b"
      and u: "delete_bookings env P d = (Inr n, d')"
  proof -
    note u' = u[unfolded delete_bookings_def]
    have d': "d' = log_delete env (Some EBooking) (filter P (bookings d)) (put_bookings (del_rows P (bookings d)) d)"
      using u' by (auto simp: delete_rows_def run_stmt_def split: option.splits)
    have "list_all lawful (audit d')" unfolding d' log_delete_eq using d(7) c
      by (auto simp: list_all_iff lawful_audit_row booking_row_lawful_def row_lawful_def)
    then show ?thesis unfolding history_ok_def
      using bkt.tables_delete[OF d(6) u'] bka.replay_deleted[OF d(1) u'] d
      by (simp add: d' log_tables replay_other)
  qed
qed


lemma change_keeps_id:
  "entry_change e e' \<Longrightarrow> we_id e' = we_id e"
  "offer_change w w' \<Longrightarrow> wo_id w' = wo_id w"
  "resource_change r r' \<Longrightarrow> rs_id r' = rs_id r"
  by (simp_all add: change_defs, (erule conjE, erule ssubst, simp)+)

lemmas lawful_simps = list_all_iff lawful_audit_row booking_row_lawful_def row_lawful_def

lemma history_entries:
  assumes "history_ok d"
  shows "we_status r = Waiting \<Longrightarrow> insert_entry env r d = (Inr x, d') \<Longrightarrow> history_ok d'"
    and "(\<And>r. r \<in> set (entries d) \<Longrightarrow> P r \<Longrightarrow> entry_change r (f r))
          \<Longrightarrow> update_entries env P f d = (Inr n, d') \<Longrightarrow> history_ok d'"
proof -
  note d = history_okD[OF assms]
  show "history_ok d'" if b: "we_status r = Waiting" and u: "insert_entry env r d = (Inr x, d')"
  proof -
    note u' = u[unfolded insert_entry_def]
    have d': "d' = log_insert env (Some EEntry) r (put_entries (entries d @ [r]) d)"
      using wet.insert_Inr[OF u'] by simp
    have "list_all lawful (audit d')" unfolding d' log_insert_eq using d(7) b
      by (simp add: lawful_simps)
    then show ?thesis unfolding history_ok_def
      using wet.tables_insert[OF d(6) u'] wea.replay_inserted[OF d(2) u'] d
      by (simp add: d' log_tables replay_other)
  qed
  show "history_ok d'" if c: "\<And>r. r \<in> set (entries d) \<Longrightarrow> P r \<Longrightarrow> entry_change r (f r)"
      and u: "update_entries env P f d = (Inr n, d')"
  proof -
    note u' = u[unfolded update_entries_def]
    have d': "d' = log_update env (Some EEntry) f (filter P (entries d)) (put_entries (updated P f (entries d)) d)"
      using wet.update_Inr(2)[OF u'] .
    have "list_all lawful (audit d')" unfolding d' log_update_eq using d(7) c
      by (auto simp: lawful_simps)
    moreover have "we_id (f r) = we_id r" if "r \<in> set (entries d)" "P r" for r
      using c[OF that] by (rule change_keeps_id)
    ultimately show ?thesis unfolding history_ok_def
      using wet.tables_update[OF d(6) u'] wea.replay_updated[OF d(6,2) _ u'] d
      by (simp add: d' log_tables replay_other)
  qed
qed

lemma history_offers:
  assumes "history_ok d"
  shows "wo_status r = Offer_active \<Longrightarrow> insert_offer env r d = (Inr x, d') \<Longrightarrow> history_ok d'"
    and "(\<And>r. r \<in> set (offers d) \<Longrightarrow> P r \<Longrightarrow> offer_change r (f r))
          \<Longrightarrow> update_offers env P f d = (Inr n, d') \<Longrightarrow> history_ok d'"
proof -
  note d = history_okD[OF assms]
  show "history_ok d'" if b: "wo_status r = Offer_active" and u: "insert_offer env r d = (Inr x, d')"
  proof -
    note u' = u[unfolded insert_offer_def]
    have d': "d' = log_insert env (Some EOffer) r (put_offers (offers d @ [r]) d)"
      using wot.insert_Inr[OF u'] by simp
    have "list_all lawful (audit d')" unfolding d' log_insert_eq using d(7) b
      by (simp add: lawful_simps)
    then show ?thesis unfolding history_ok_def
      using wot.tables_insert[OF d(6) u'] woa.replay_inserted[OF d(3) u'] d
      by (simp add: d' log_tables replay_other)
  qed
  show "history_ok d'" if c: "\<And>r. r \<in> set (offers d) \<Longrightarrow> P r \<Longrightarrow> offer_change r (f r)"
      and u: "update_offers env P f d = (Inr n, d')"
  proof -
    note u' = u[unfolded update_offers_def]
    have d': "d' = log_update env (Some EOffer) f (filter P (offers d)) (put_offers (updated P f (offers d)) d)"
      using wot.update_Inr(2)[OF u'] .
    have "list_all lawful (audit d')" unfolding d' log_update_eq using d(7) c
      by (auto simp: lawful_simps)
    moreover have "wo_id (f r) = wo_id r" if "r \<in> set (offers d)" "P r" for r
      using c[OF that] by (rule change_keeps_id)
    ultimately show ?thesis unfolding history_ok_def
      using wot.tables_update[OF d(6) u'] woa.replay_updated[OF d(6,3) _ u'] d
      by (simp add: d' log_tables replay_other)
  qed
qed

lemma history_resources:
  assumes "history_ok d"
  shows "insert_resource env r d = (Inr x, d') \<Longrightarrow> history_ok d'"
    and "(\<And>r. r \<in> set (resources d) \<Longrightarrow> P r \<Longrightarrow> resource_change r (f r))
          \<Longrightarrow> update_resources env P f d = (Inr n, d') \<Longrightarrow> history_ok d'"
proof -
  note d = history_okD[OF assms]
  show "history_ok d'" if u: "insert_resource env r d = (Inr x, d')"
  proof -
    note u' = u[unfolded insert_resource_def]
    have d': "d' = log_insert env (Some EResource) r (put_resources (resources d @ [r]) d)"
      using rst.insert_Inr[OF u'] by simp
    have "list_all lawful (audit d')" unfolding d' log_insert_eq using d(7)
      by (simp add: lawful_simps)
    then show ?thesis unfolding history_ok_def
      using rst.tables_insert[OF d(6) u'] rsa.replay_inserted[OF d(4) u'] d
      by (simp add: d' log_tables replay_other)
  qed
  show "history_ok d'" if c: "\<And>r. r \<in> set (resources d) \<Longrightarrow> P r \<Longrightarrow> resource_change r (f r)"
      and u: "update_resources env P f d = (Inr n, d')"
  proof -
    note u' = u[unfolded update_resources_def]
    have d': "d' = log_update env (Some EResource) f (filter P (resources d)) (put_resources (updated P f (resources d)) d)"
      using rst.update_Inr(2)[OF u'] .
    have "list_all lawful (audit d')" unfolding d' log_update_eq using d(7) c
      by (auto simp: lawful_simps)
    moreover have "rs_id (f r) = rs_id r" if "r \<in> set (resources d)" "P r" for r
      using c[OF that] by (rule change_keeps_id)
    ultimately show ?thesis unfolding history_ok_def
      using rst.tables_update[OF d(6) u'] rsa.replay_updated[OF d(6,4) _ u'] d
      by (simp add: d' log_tables replay_other)
  qed
qed

lemma history_admins:
  assumes "history_ok d"
  shows "insert_admin env r d = (Inr x, d') \<Longrightarrow> history_ok d'"
    and "delete_admins env P d = (Inr n, d') \<Longrightarrow> history_ok d'"
proof -
  note d = history_okD[OF assms]
  show "history_ok d'" if u: "insert_admin env r d = (Inr x, d')"
  proof -
    note u' = u[unfolded insert_admin_def]
    have d': "d' = log_insert env (Some EAdmin) r (put_admins (admins d @ [r]) d)"
      using rat.insert_Inr[OF u'] by simp
    have "list_all lawful (audit d')" unfolding d' log_insert_eq using d(7)
      by (simp add: lawful_simps)
    then show ?thesis unfolding history_ok_def
      using rat.tables_insert[OF d(6) u'] raa.replay_inserted[OF d(5) u'] d
      by (simp add: d' log_tables replay_other)
  qed
  show "history_ok d'" if u: "delete_admins env P d = (Inr n, d')"
  proof -
    note u' = u[unfolded delete_admins_def]
    have d': "d' = log_delete env (Some EAdmin) (filter P (admins d)) (put_admins (del_rows P (admins d)) d)"
      using u' by (auto simp: delete_rows_def run_stmt_def split: option.splits)
    have "list_all lawful (audit d')" unfolding d' log_delete_eq using d(7)
      by (auto simp: lawful_simps)
    then show ?thesis unfolding history_ok_def
      using rat.tables_delete[OF d(6) u'] raa.replay_deleted[OF d(5) u'] d
      by (simp add: d' log_tables replay_other)
  qed
qed

interpretation history: audited_invariant history_ok
proof (unfold_locales, goal_cases)
  case 2 then show ?case by (simp add: history_ok_def same_audited_def)
qed (erule history_okD history_bookings history_entries history_offers history_resources history_admins; assumption)+


text \<open>No service rewrites or removes a row of the trail.\<close>

interpretation append_only: audited_invariant "extends_log log" for log
proof (unfold_locales, goal_cases)
  case 1 then show ?case by (simp add: extends_log_def)
next
  case 2 then show ?case by (simp add: extends_log_def same_audited_def)
qed (unfold stmt_defs,
  (erule (1) bka.extends_insert bka.extends_update bka.extends_delete wea.extends_insert
     wea.extends_update woa.extends_insert woa.extends_update rsa.extends_insert rsa.extends_update
     raa.extends_insert raa.extends_delete)+)

end
