(* ===== verification/Checks.thy ===== *)
theory Checks
  imports Heartbeat Uuids Demo
begin

text \<open>
  The scheduled correctness checks: \<open>core/reconciliation.py\<close> (the consequence: overlapping active
  bookings), \<open>core/schema_assertion.py\<close> (the cause: the exclusion constraint missing or narrowed),
  \<open>core/tzdata_check.py\<close> and the replica routing rule of \<open>core/replica.py\<close>.

  The catalog text of the constraint (\<open>pg_get_constraintdef\<close>) and the answer of the package index
  are parameters: the server and the network produce them.
\<close>

section \<open>Reconciliation\<close>

text \<open>Messages are UTF-8 texts; this is the dash they contain.\<close>

definition em_dash :: string where
  "em_dash = [CHR 0xE2, CHR 0x80, CHR 0x94]"

definition RECONCILIATION_FAILURE_MESSAGE :: string where
  "RECONCILIATION_FAILURE_MESSAGE =
     ''This is NOT a race detector. If the no_overlapping_bookings constraint is present ''
     @ ''and functioning, this query is structurally incapable of returning a row. A hit ''
     @ ''means the correctness guarantee has been REMOVED '' @ em_dash
     @ '' a dropped constraint, a restore ''
     @ ''taken without it, or an out-of-band write that bypassed it '' @ em_dash @ '' NOT that a race ''
     @ ''occurred. Treating this as a timing issue and waiting for it to resolve is the ''
     @ ''wrong response.''"

text \<open>The self join: pairs of active bookings of one resource that overlap, each pair once.\<close>

definition find_overlapping_active_bookings :: "db \<Rightarrow> (uuid \<times> uuid \<times> uuid) list" where
  "find_overlapping_active_bookings d =
     concat (map (\<lambda>b1. map (\<lambda>b2. (bk_id b1, bk_id b2, bk_resource b1))
       (filter (\<lambda>b2. bk_resource b1 = bk_resource b2 \<and> bk_id b1 < bk_id b2 \<and>
          overlaps (bk_range b1) (bk_range b2) \<and>
          active_status (bk_status b1) \<and> active_status (bk_status b2)) (bookings d))) (bookings d))"

text \<open>Texts of identifiers have one length and lower-case digits, so they sort as the numbers do.\<close>

definition reconciliation_findings :: "(uuid \<times> uuid \<times> uuid) list \<Rightarrow> json" where
  "reconciliation_findings pairs =
     JObj ([(''overlaps_found'', JNum (int (length pairs))),
       (''flagged_booking_ids'', JArr (map (\<lambda>i. JStr (uuid_text i))
          (sort (remdups (map fst pairs @ map (fst \<circ> snd) pairs))))),
       (''flagged_pairs'', JArr (map (\<lambda>(b1, b2, rid). JObj [(''booking_id_1'', JStr (uuid_text b1)),
          (''booking_id_2'', JStr (uuid_text b2)), (''resource_id'', JStr (uuid_text rid))]) pairs))]
       @ (if pairs = [] then [] else [(''message'', JStr RECONCILIATION_FAILURE_MESSAGE)]))"

definition check_reconciliation :: "env \<Rightarrow> json svc" where
  "check_reconciliation env =
     bind_svc (query find_overlapping_active_bookings) (\<lambda>pairs.
       then_svc (autocommit env (insert_check env
           \<lparr> cr_check = Reconciliation, cr_run_at = ev_db_now env,
             cr_status = (if pairs = [] then Check_pass else Check_fail),
             cr_findings = reconciliation_findings pairs \<rparr>))
         (ret (reconciliation_findings pairs)))"

section \<open>Schema assertion\<close>

definition SCHEMA_ASSERTION_FAILURE_MESSAGE :: string where
  "SCHEMA_ASSERTION_FAILURE_MESSAGE =
     ''The no_overlapping_bookings EXCLUDE constraint is missing, or its predicate no ''
     @ ''longer covers both 'confirmed' and 'held'. This means the core correctness ''
     @ ''guarantee has been REMOVED '' @ em_dash @ '' by a migration, a restore taken without it, or a ''
     @ ''predicate narrowed during an unrelated change (Rollout v1.0 RUNBOOK-01 cause #1). ''
     @ ''This check fires BEFORE any overlapping data can exist: it detects the cause, not ''
     @ ''the consequence.''"

text \<open>Python's \<open>needle in text\<close>.\<close>

fun starts_with :: "string \<Rightarrow> string \<Rightarrow> bool" where
  "starts_with [] t = True"
| "starts_with (p # ps) [] = False"
| "starts_with (p # ps) (c # cs) = (p = c \<and> starts_with ps cs)"

fun text_contains :: "string \<Rightarrow> string \<Rightarrow> bool" where
  "text_contains p [] = (p = [])"
| "text_contains p (c # cs) = (starts_with p (c # cs) \<or> text_contains p cs)"

definition quoted :: "string \<Rightarrow> string" where
  "quoted s = CHR 0x27 # s @ [CHR 0x27]"

definition schema_assertion_ok :: "string option \<Rightarrow> bool" where
  "schema_assertion_ok defn = (case defn of
      None \<Rightarrow> False
    | Some t \<Rightarrow> text_contains (quoted ''confirmed'') t \<and> text_contains (quoted ''held'') t)"

definition schema_assertion_findings :: "string option \<Rightarrow> json" where
  "schema_assertion_findings defn =
     JObj ([(''constraint_exists'', JBool (defn \<noteq> None)),
       (''definition'', (case defn of None \<Rightarrow> JNull | Some t \<Rightarrow> JStr t)),
       (''covers_confirmed'', JBool (case defn of None \<Rightarrow> False
          | Some t \<Rightarrow> text_contains (quoted ''confirmed'') t)),
       (''covers_held'', JBool (case defn of None \<Rightarrow> False
          | Some t \<Rightarrow> text_contains (quoted ''held'') t))]
       @ (if schema_assertion_ok defn then []
          else [(''message'', JStr SCHEMA_ASSERTION_FAILURE_MESSAGE)]))"

definition check_schema_assertion :: "env \<Rightarrow> string option \<Rightarrow> json svc" where
  "check_schema_assertion env defn =
     then_svc (autocommit env (insert_check env
         \<lparr> cr_check = Schema_assertion, cr_run_at = ev_db_now env,
           cr_status = (if schema_assertion_ok defn then Check_pass else Check_fail),
           cr_findings = schema_assertion_findings defn \<rparr>))
       (ret (schema_assertion_findings defn))"

definition schema_assertion_heartbeat_is_stale :: "instant \<Rightarrow> db \<Rightarrow> bool" where
  "schema_assertion_heartbeat_is_stale now d =
     heartbeat_is_stale Schema_assertion SCHEMA_ASSERTION_STALE_THRESHOLD_SECONDS now d"

section \<open>Installed zone data and replica routing\<close>

text \<open>\<open>latest\<close> is the published version, nothing when the index cannot be reached.\<close>

definition check_tzdata_drift :: "env \<Rightarrow> string option \<Rightarrow> string \<times> string option \<times> bool option" where
  "check_tzdata_drift env latest =
     (ev_tzdata_version env, latest,
      (case latest of None \<Rightarrow> None | Some v \<Rightarrow> Some (v \<noteq> ev_tzdata_version env)))"

definition current_replica_lag_seconds :: "int option" where
  "current_replica_lag_seconds = None"

definition select_read_source :: "int option \<Rightarrow> int \<Rightarrow> string" where
  "select_read_source lag threshold = (case lag of
      None \<Rightarrow> ''primary''
    | Some l \<Rightarrow> if threshold < l then ''primary'' else ''replica'')"

section \<open>What the checks see\<close>

lemma find_overlapping_iff:
  "(i, j, r) \<in> set (find_overlapping_active_bookings d) \<longleftrightarrow>
     (\<exists>a \<in> set (bookings d). \<exists>b \<in> set (bookings d). bk_id a = i \<and> bk_id b = j \<and> bk_resource a = r \<and>
        i < j \<and> bookings_conflict a b)"
  by (auto simp: find_overlapping_active_bookings_def bookings_conflict_def image_iff)

lemma no_double_booking_iff:
  assumes "distinct (map bk_id bs)"
  shows "no_double_booking bs \<longleftrightarrow>
    (\<forall>a \<in> set bs. \<forall>b \<in> set bs. bk_id a < bk_id b \<longrightarrow> \<not> bookings_conflict a b)" (is "?l = ?r")
proof
  assume l: ?l
  show ?r
  proof (intro ballI impI notI)
    fix a b assume ab: "a \<in> set bs" "b \<in> set bs" "bk_id a < bk_id b" "bookings_conflict a b"
    then obtain i j where ij: "i < length bs" "bs ! i = a" "j < length bs" "bs ! j = b"
      by (auto simp: in_set_conv_nth)
    moreover have "i \<noteq> j" using ij ab(3) by auto
    ultimately have "instants (bk_range a) \<inter> instants (bk_range b) = {}"
      using l ab(4) unfolding no_double_booking_def bookings_conflict_def by blast
    then show False using ab(4) overlaps_instants by (auto simp: bookings_conflict_def)
  qed
next
  assume r: ?r
  show ?l unfolding no_double_booking_def
  proof (intro allI impI)
    fix i j
    assume ij: "i < length bs" "j < length bs" "i \<noteq> j"
      and st: "active_status (bk_status (bs ! i))" "active_status (bk_status (bs ! j))"
      and res: "bk_resource (bs ! i) = bk_resource (bs ! j)"
    have "bk_id (bs ! i) \<noteq> bk_id (bs ! j)"
      using assms ij by (auto simp: distinct_conv_nth)
    then have "\<not> bookings_conflict (bs ! i) (bs ! j)"
      using r ij bookings_conflict_sym by (metis linorder_neqE_nat nth_mem)
    then show "instants (bk_range (bs ! i)) \<inter> instants (bk_range (bs ! j)) = {}"
      using st res overlaps_instants by (auto simp: bookings_conflict_def)
  qed
qed

lemma distinct_pairs:
  "distinct (map f xs) \<Longrightarrow> (\<And>x. x \<in> set xs \<Longrightarrow> distinct (map f (g x))) \<Longrightarrow>
   distinct (concat (map (\<lambda>x. map (\<lambda>y. (f x, f y)) (g x)) xs))"
proof (induction xs)
  case (Cons x xs)
  have "distinct (map (\<lambda>y. (f x, f y)) (g x))"
    using Cons.prems(2)[of x] by (simp add: distinct_map inj_on_def)
  moreover have "f x \<noteq> f z" if "z \<in> set xs" for z
    using Cons.prems(1) that by auto
  ultimately show ?case using Cons.IH Cons.prems by auto
qed simp

lemma distinct_map_filter: "distinct (map f xs) \<Longrightarrow> distinct (map f (filter P xs))"
  by (induction xs) auto

lemma find_overlapping_empty_iff:
  assumes "distinct (map bk_id (bookings d))"
  shows "find_overlapping_active_bookings d = [] \<longleftrightarrow> no_double_booking (bookings d)"
proof -
  have "xs = [] \<longleftrightarrow> (\<forall>i j r. (i, j, r) \<notin> set xs)" for xs :: "(uuid \<times> uuid \<times> uuid) list"
    by (cases xs) auto
  then have "find_overlapping_active_bookings d = [] \<longleftrightarrow>
      (\<forall>i j r. (i, j, r) \<notin> set (find_overlapping_active_bookings d))" .
  also have "\<dots> \<longleftrightarrow> no_double_booking (bookings d)"
    unfolding find_overlapping_iff no_double_booking_iff[OF assms] by blast
  finally show ?thesis .
qed

text \<open>C37: the reconciliation query finds a pair exactly when there is a double booking (two active
  bookings of one resource that share an instant), so adjacent bookings are never flagged; and it
  reports every double booking once.\<close>

theorem reconciliation_detects_double_bookings:
  assumes "distinct (map bk_id (bookings d))"
  shows "(find_overlapping_active_bookings d = [] \<longleftrightarrow> no_double_booking (bookings d)) \<and>
    distinct (map (\<lambda>(i, j, r). (i, j)) (find_overlapping_active_bookings d))"
proof
  show "find_overlapping_active_bookings d = [] \<longleftrightarrow> no_double_booking (bookings d)"
    by (rule find_overlapping_empty_iff[OF assms])
  show "distinct (map (\<lambda>(i, j, r). (i, j)) (find_overlapping_active_bookings d))"
    unfolding find_overlapping_active_bookings_def map_concat map_map comp_def prod.case
    by (rule distinct_pairs[OF assms]) (rule distinct_map_filter[OF assms])
qed

theorem reconciliation_detects_double_bookings_witness:
  "find_overlapping_active_bookings (demo_db [demo_booking 1 1 (TR 0 5) Confirmed None,
      demo_booking 2 2 (TR 5 9) Confirmed None, demo_booking 3 2 (TR 8 12) Confirmed None] [] [])
     = [(2, 3, 10)] \<and>
   \<not> no_double_booking (bookings (demo_db [demo_booking 1 1 (TR 0 5) Confirmed None,
      demo_booking 2 2 (TR 5 9) Confirmed None, demo_booking 3 2 (TR 8 12) Confirmed None] [] []))"
proof -
  let ?d = "demo_db [demo_booking 1 1 (TR 0 5) Confirmed None,
      demo_booking 2 2 (TR 5 9) Confirmed None, demo_booking 3 2 (TR 8 12) Confirmed None] [] []"
  have f: "find_overlapping_active_bookings ?d = [(2, 3, 10)]"
    by (simp add: find_overlapping_active_bookings_def demo_defs overlaps_def range_isempty_def
        active_status_def)
  have "distinct (map bk_id (bookings ?d))" by (simp add: demo_defs)
  from reconciliation_detects_double_bookings[OF this] show ?thesis using f by simp
qed

text \<open>A predicate that leaves held rows out passes the schema assertion when its text still quotes
  both status names.\<close>

definition narrowed_constraint :: string where
  "narrowed_constraint =
     ''EXCLUDE USING gist (resource_id WITH =, time_range WITH &&) WHERE (((status = 'confirmed') ''
     @ ''AND (status <> 'held')))''"

lemma schema_assertion_accepts_narrowed_predicate:
  "schema_assertion_ok (Some narrowed_constraint)"
  by (simp add: schema_assertion_ok_def narrowed_constraint_def quoted_def)

section \<open>Safety\<close>

lemma safe_checks [inv_intros]:
  "safe (check_reconciliation env)" "safe (check_schema_assertion env defn)"
  unfolding check_reconciliation_def check_schema_assertion_def by (intro inv_intros)+

end
