(* ===== verification/Keyset.thy ===== *)
theory Keyset
  imports Kairos_Prelude
begin

text \<open>
  Keyset pagination, the pattern that every list endpoint follows: the rows behind the key of the
  cursor, ordered by that key, one more than the page holds; the extra row tells that there is a
  next page, whose cursor is the key of the last row.  The locale \<open>keyset\<close> says what the order of
  the keys must be; the client that follows the cursors over a table that changes between its
  requests is analysed once inside it.  \<open>cursor_keyset\<close> adds the text form of a cursor.
\<close>

section \<open>Pages and walks\<close>

definition after_key :: "('k \<Rightarrow> 'k \<Rightarrow> bool) \<Rightarrow> ('r \<Rightarrow> 'k) \<Rightarrow> 'k option \<Rightarrow> 'r \<Rightarrow> bool" where
  "after_key lt key c r = (case c of None \<Rightarrow> True | Some k \<Rightarrow> lt k (key r))"

definition key_page ::
  "('k \<Rightarrow> 'k \<Rightarrow> bool) \<Rightarrow> ('r \<Rightarrow> 'k) \<Rightarrow> nat \<Rightarrow> 'k option \<Rightarrow> 'r list \<Rightarrow> 'r list \<times> 'k option" where
  "key_page lt key limit c rows =
     (let found = take (limit + 1) (order_by (\<lambda>a b. \<not> lt (key b) (key a))
            (filter (after_key lt key c) rows))
      in if limit < length found
         then (take limit found, Some (key (last (take limit found))))
         else (found, None))"

definition text_page ::
  "('k \<Rightarrow> 'k \<Rightarrow> bool) \<Rightarrow> ('r \<Rightarrow> 'k) \<Rightarrow> ('k \<Rightarrow> string) \<Rightarrow> (string \<Rightarrow> 'e + 'k) \<Rightarrow> nat \<Rightarrow> string option
     \<Rightarrow> 'r list \<Rightarrow> 'e + ('r list \<times> string option)" where
  "text_page lt key enc dec limit c rows =
     (case (case c of None \<Rightarrow> Inr None | Some s \<Rightarrow> map_sum id Some (dec s)) of
        Inl e \<Rightarrow> Inl e
      | Inr k \<Rightarrow> Inr (apsnd (map_option enc) (key_page lt key limit k rows)))"

text \<open>A client that follows the cursors, its requests answered from the given states in turn: the
  rows it was given, and whether it reached the last page.\<close>

fun follow :: "(string option \<Rightarrow> 's \<Rightarrow> 'e + ('r list \<times> string option)) \<Rightarrow> string option \<Rightarrow> 's list
    \<Rightarrow> 'e + ('r list \<times> bool)" where
  "follow view c [] = Inr ([], False)"
| "follow view c (d # ds) = (case view c d of
      Inl e \<Rightarrow> Inl e
    | Inr (rows, None) \<Rightarrow> Inr (rows, True)
    | Inr (rows, Some s) \<Rightarrow> map_sum id (apfst (append rows)) (follow view (Some s) ds))"

fun key_walk :: "('k \<Rightarrow> 'k \<Rightarrow> bool) \<Rightarrow> ('r \<Rightarrow> 'k) \<Rightarrow> nat \<Rightarrow> 'k option \<Rightarrow> 'r list list
    \<Rightarrow> 'r list \<times> bool" where
  "key_walk lt key limit c [] = ([], False)"
| "key_walk lt key limit c (t # ts) = (case key_page lt key limit c t of
      (rows, None) \<Rightarrow> (rows, True)
    | (rows, Some k) \<Rightarrow> apfst (append rows) (key_walk lt key limit (Some k) ts))"

section \<open>The contract of a key\<close>

locale keyset =
  fixes lt :: "'k \<Rightarrow> 'k \<Rightarrow> bool" and key :: "'r \<Rightarrow> 'k"
  assumes lt_irrefl: "\<not> lt k k"
    and lt_trans: "lt a b \<Longrightarrow> lt b c \<Longrightarrow> lt a c"
    and lt_total: "a \<noteq> b \<Longrightarrow> lt a b \<or> lt b a"
begin

abbreviation row_lt :: "'r \<Rightarrow> 'r \<Rightarrow> bool" where
  "row_lt a b \<equiv> lt (key a) (key b)"

abbreviation after :: "'k option \<Rightarrow> 'r \<Rightarrow> bool" where
  "after \<equiv> after_key lt key"

lemma ordered_strict:
  assumes "distinct (map key rows)"
  shows "sorted_wrt row_lt (order_by (\<lambda>a b. \<not> lt (key b) (key a)) rows)"
proof -
  let ?xs = "order_by (\<lambda>a b. \<not> lt (key b) (key a)) rows"
  have le: "\<not> lt (key b) (key a) \<or> \<not> lt (key a) (key b)" for a b
    using lt_trans lt_irrefl by blast
  have tr: "\<not> lt (key c) (key a)" if "\<not> lt (key b) (key a)" "\<not> lt (key c) (key b)" for a b c
    using that lt_total lt_trans by metis
  have s: "sorted_wrt (\<lambda>a b. \<not> lt (key b) (key a)) ?xs"
    by (rule sorted_order_by) (use le tr in blast)+
  have "card (set (map key ?xs)) = length (map key ?xs)"
    using distinct_card[OF assms] by simp
  then have d: "distinct (map key ?xs)" by (rule card_distinct)
  show ?thesis
    unfolding sorted_wrt_iff_nth_less
  proof (intro allI impI)
    fix i j assume ij: "i < j" "j < length ?xs"
    then have "key (?xs ! i) \<noteq> key (?xs ! j)"
      using d nth_eq_iff_index_eq[OF d, of i j] by simp
    moreover have "\<not> row_lt (?xs ! j) (?xs ! i)"
      using s ij by (simp add: sorted_wrt_iff_nth_less)
    ultimately show "row_lt (?xs ! i) (?xs ! j)" using lt_total by blast
  qed
qed

lemma page_split:
  assumes "key_page lt key limit c t = (rows, n)" "distinct (map key t)"
  obtains rest where "sorted_wrt row_lt (rows @ rest)" "set rows \<union> set rest = {r \<in> set t. after c r}"
    "n = None \<longrightarrow> rest = []"
    "n \<noteq> None \<longrightarrow> rest \<noteq> [] \<and> length rows = limit \<and> n = Some (key (last rows))"
    "length rows \<le> limit"
proof -
  define xs where "xs = order_by (\<lambda>a b. \<not> lt (key b) (key a)) (filter (after c) t)"
  have d: "distinct (map key (filter (after c) t))" using assms(2) by (rule distinct_map_filter)
  have s: "sorted_wrt row_lt xs" unfolding xs_def by (rule ordered_strict[OF d])
  have set: "set xs = {r \<in> set t. after c r}" by (auto simp: xs_def)
  have p: "(rows, n) = (if limit < length xs
      then (take limit xs, Some (key (last (take limit xs)))) else (xs, None))"
    using assms(1) unfolding key_page_def xs_def[symmetric] Let_def
    by (cases "limit < length xs") auto
  show thesis
  proof (cases "limit < length xs")
    case True
    have "set (take limit xs) \<union> set (drop limit xs) = set xs" by (metis append_take_drop_id set_append)
    then show thesis using p True s set by (intro that[of "drop limit xs"]) auto
  next
    case False
    then show thesis using p s set by (intro that[of "[]"]) auto
  qed
qed

lemma after_next: "after (Some (key a)) r \<longleftrightarrow> row_lt a r"
  by (simp add: after_key_def)

lemma after_iff: "after c r \<longleftrightarrow> c = None \<or> lt (the c) (key r)"
  by (auto simp: after_key_def split: option.splits)

lemma in_page:
  assumes "set rows \<union> set rest = {r \<in> set t. after c r}" "r \<in> set rows"
  shows "r \<in> set t" "after c r"
  using assms by blast+

lemma after_mono: "after c a \<Longrightarrow> row_lt a r \<Longrightarrow> after c r"
  using lt_trans by (auto simp: after_key_def split: option.splits)

lemma walk_rows:
  assumes "key_walk lt key limit c ts = (rs, fin)" "1 \<le> limit" "\<And>t. t \<in> set ts \<Longrightarrow> distinct (map key t)"
  shows "sorted_wrt row_lt rs \<and> (\<forall>r \<in> set rs. after c r \<and> (\<exists>t \<in> set ts. r \<in> set t))"
  using assms
proof (induction ts arbitrary: c rs)
  case (Cons t ts)
  obtain rows n where p: "key_page lt key limit c t = (rows, n)" by (cases "key_page lt key limit c t")
  obtain rest where pg: "sorted_wrt row_lt (rows @ rest)" "set rows \<union> set rest = {r \<in> set t. after c r}"
    "n = None \<longrightarrow> rest = []"
    "n \<noteq> None \<longrightarrow> rest \<noteq> [] \<and> length rows = limit \<and> n = Some (key (last rows))"
    "length rows \<le> limit"
    by (rule page_split[OF p Cons.prems(3)[OF list.set_intros(1)]]) (rule that)
  show ?case
  proof (cases n)
    case None
    then show ?thesis using p pg(1,2) Cons.prems(1) by (auto simp: sorted_wrt_append)
  next
    case (Some k)
    obtain rs' where w: "key_walk lt key limit (Some k) ts = (rs', fin)" "rs = rows @ rs'"
      using Cons.prems(1) p Some by (auto simp: apfst_def map_prod_def split: prod.splits)
    have ne: "rows \<noteq> []" "k = key (last rows)" using pg(4) Some Cons.prems(2) by auto
    have IH: "sorted_wrt row_lt rs'" "\<forall>r \<in> set rs'. row_lt (last rows) r \<and> (\<exists>t \<in> set ts. r \<in> set t)"
      using Cons.IH[OF w(1) Cons.prems(2)] Cons.prems(3) ne(2) after_next by auto
    have below: "a = last rows \<or> row_lt a (last rows)" if "a \<in> set rows" for a
    proof -
      have "rows = butlast rows @ [last rows]" using ne by simp
      then show ?thesis using that pg(1)
        by (metis (no_types, lifting) UnE empty_iff list.set(1) list.set_intros(1) set_ConsD set_append
            sorted_wrt_append)
    qed
    have "row_lt a r" if "a \<in> set rows" "r \<in> set rs'" for a r
      using below[OF that(1)] IH(2) that(2) lt_trans by blast
    moreover have "after c r" if "r \<in> set rs'" for r
      using IH(2) that after_mono[of c "last rows" r] in_page(2)[OF pg(2) last_in_set[OF ne(1)]] by blast
    ultimately show ?thesis using IH pg(1,2) w(2) by (auto simp: sorted_wrt_append)
  qed
qed simp

text \<open>No row is given twice.\<close>

lemma walk_distinct:
  assumes "key_walk lt key limit c ts = (rs, fin)" "1 \<le> limit" "\<And>t. t \<in> set ts \<Longrightarrow> distinct (map key t)"
  shows "distinct (map key rs)"
proof -
  have "sorted_wrt row_lt rs" using walk_rows[OF assms] by blast
  then show ?thesis by (induction rs) (use lt_irrefl in force)+
qed

text \<open>A key that is in the table at every request is not skipped.\<close>

lemma walk_complete:
  assumes "key_walk lt key limit c ts = (rs, True)" "1 \<le> limit" "\<And>t. t \<in> set ts \<Longrightarrow> distinct (map key t)"
    and "\<And>t. t \<in> set ts \<Longrightarrow> k \<in> key ` set t" "c = None \<or> lt (the c) k"
  shows "k \<in> key ` set rs"
  using assms
proof (induction ts arbitrary: c rs)
  case (Cons t ts)
  obtain rows n where p: "key_page lt key limit c t = (rows, n)" by (cases "key_page lt key limit c t")
  obtain rest where pg: "sorted_wrt row_lt (rows @ rest)" "set rows \<union> set rest = {r \<in> set t. after c r}"
    "n = None \<longrightarrow> rest = []"
    "n \<noteq> None \<longrightarrow> rest \<noteq> [] \<and> length rows = limit \<and> n = Some (key (last rows))"
    "length rows \<le> limit"
    by (rule page_split[OF p Cons.prems(3)[OF list.set_intros(1)]]) (rule that)
  obtain r where r: "r \<in> set t" "k = key r" using Cons.prems(4)[of t] by auto
  have "after c r" using Cons.prems(5) r(2) by (auto simp: after_key_def split: option.splits)
  then have in_page: "r \<in> set rows \<union> set rest" using pg(2) r(1) by blast
  show ?case
  proof (cases n)
    case None
    then show ?thesis using p pg(3) in_page Cons.prems(1) r(2) by auto
  next
    case (Some k')
    obtain rs' where w: "key_walk lt key limit (Some k') ts = (rs', True)" "rs = rows @ rs'"
      using Cons.prems(1) p Some by (auto simp: apfst_def map_prod_def split: prod.splits)
    have ne: "rows \<noteq> []" "k' = key (last rows)" using pg(4) Some Cons.prems(2) by auto
    show ?thesis
    proof (cases "r \<in> set rows")
      case True
      then show ?thesis using w(2) r(2) by auto
    next
      case False
      then have "lt k' k" using in_page pg(1) ne r(2) by (auto simp: sorted_wrt_append)
      then have "k \<in> key ` set rs'"
        using Cons.IH[OF w(1) Cons.prems(2)] Cons.prems(3,4) by auto
      then show ?thesis using w(2) by auto
    qed
  qed
qed simp

text \<open>The walk ends: every page but the last is full and the keys only grow.\<close>

lemma walk_ends:
  assumes "ts \<noteq> []" "1 \<le> limit" "\<And>t. t \<in> set ts \<Longrightarrow> distinct (map key t)"
    and "finite K" "\<And>t. t \<in> set ts \<Longrightarrow> key ` set t \<subseteq> K"
    and "card {k \<in> K. c = None \<or> lt (the c) k} \<le> length ts * limit"
  shows "snd (key_walk lt key limit c ts)"
  using assms
proof (induction ts arbitrary: c)
  case (Cons t ts)
  obtain rows n where p: "key_page lt key limit c t = (rows, n)" by (cases "key_page lt key limit c t")
  obtain rest where pg: "sorted_wrt row_lt (rows @ rest)" "set rows \<union> set rest = {r \<in> set t. after c r}"
    "n = None \<longrightarrow> rest = []"
    "n \<noteq> None \<longrightarrow> rest \<noteq> [] \<and> length rows = limit \<and> n = Some (key (last rows))"
    "length rows \<le> limit"
    by (rule page_split[OF p Cons.prems(3)[OF list.set_intros(1)]]) (rule that)
  let ?S = "\<lambda>c. {k \<in> K. c = None \<or> lt (the c) k}"
  show ?case
  proof (cases n)
    case None
    then show ?thesis using p by simp
  next
    case (Some k')
    have ne: "rows \<noteq> []" "rest \<noteq> []" "k' = key (last rows)" "length rows = limit"
      using pg(4) Some Cons.prems(2) by auto
    have keys: "key ` set rows \<subseteq> ?S c" "?S (Some k') \<subseteq> ?S c" "key ` set rows \<inter> ?S (Some k') = {}"
    proof -
      have K: "key ` set t \<subseteq> K" using Cons.prems(5) by simp
      then show "key ` set rows \<subseteq> ?S c" using in_page[OF pg(2)] unfolding after_iff by blast
      have l: "c = None \<or> lt (the c) k'"
        using in_page(2)[OF pg(2) last_in_set[OF ne(1)]] unfolding after_iff ne(3) .
      then show "?S (Some k') \<subseteq> ?S c" using lt_trans by auto
      have "\<not> lt k' (key a)" if "a \<in> set rows" for a
      proof -
        have "rows = butlast rows @ [last rows]" using ne by simp
        then have "a = last rows \<or> row_lt a (last rows)" using that pg(1)
          by (metis (no_types, lifting) UnE empty_iff list.set(1) list.set_intros(1) set_ConsD
              set_append sorted_wrt_append)
        then show ?thesis using ne(3) lt_irrefl lt_trans by blast
      qed
      then show "key ` set rows \<inter> ?S (Some k') = {}" by auto
    qed
    have fin: "finite (?S c)" using Cons.prems(4) by simp
    have "distinct (map key rows)"
      using pg(1) by (induction rows) (use lt_irrefl in force)+
    then have "card (key ` set rows) = limit" using ne(4) distinct_card by fastforce
    then have "limit + card (?S (Some k')) \<le> card (?S c)"
      using card_Un_disjoint[of "key ` set rows" "?S (Some k')"] keys fin
        card_mono[OF fin, of "key ` set rows \<union> ?S (Some k')"] finite_subset[OF keys(2) fin] by simp
    then have le: "card (?S (Some k')) \<le> length ts * limit" using Cons.prems(6) by simp
    have "ts \<noteq> []"
    proof
      assume "ts = []"
      then have z: "card (?S (Some k')) = 0" using le by simp
      obtain r where r: "r \<in> set rest" using ne(2) by (meson last_in_set)
      then have "key r \<in> ?S (Some k')"
        using pg(1,2) ne(1,3) Cons.prems(5)[of t] by (auto simp: sorted_wrt_append)
      then show False using z finite_subset[OF keys(2) fin] by auto
    qed
    then have "snd (key_walk lt key limit (Some k') ts)"
      using Cons.IH[OF _ Cons.prems(2) _ Cons.prems(4) _ le] Cons.prems(3,5) by simp
    then show ?thesis using p Some by simp
  qed
qed simp

end

section \<open>The text form of a cursor\<close>

locale cursor_keyset = keyset +
  fixes enc :: "'a \<Rightarrow> string" and dec :: "string \<Rightarrow> 'e + 'a" and ok :: "'a \<Rightarrow> bool"
  assumes dec_enc: "ok k \<Longrightarrow> dec (enc k) = Inr k"
begin

lemma follow_walk:
  assumes "\<And>k d. d \<in> set ds \<Longrightarrow> view (map_option enc k) d
      = text_page lt key enc dec limit (map_option enc k) (rows d)"
    and "\<And>d r. d \<in> set ds \<Longrightarrow> r \<in> set (rows d) \<Longrightarrow> ok (key r)" "1 \<le> limit"
    and "c = map_option enc k" "\<And>x. k = Some x \<Longrightarrow> ok x"
    and "\<And>d. d \<in> set ds \<Longrightarrow> distinct (map key (rows d))"
  shows "follow view c ds = Inr (key_walk lt key limit k (map rows ds))"
  using assms
proof (induction ds arbitrary: c k)
  case (Cons d ds)
  obtain rs n where p: "key_page lt key limit k (rows d) = (rs, n)"
    by (cases "key_page lt key limit k (rows d)")
  have dec: "(case c of None \<Rightarrow> Inr None | Some s \<Rightarrow> map_sum id Some (dec s)) = Inr k"
    using Cons.prems(4,5) dec_enc by (cases k) auto
  have v: "view c d = Inr (rs, map_option enc n)"
    using Cons.prems(1)[of d k] dec p Cons.prems(4) by (simp add: text_page_def)
  show ?case
  proof (cases n)
    case None
    then show ?thesis using v p by simp
  next
    case (Some x)
    obtain rest where pg: "set rs \<union> set rest = {r \<in> set (rows d). after k r}"
      "length rs = limit" "x = key (last rs)"
      using page_split[OF p Cons.prems(6)] Some by (metis list.set_intros(1) option.distinct(1) option.inject)
    have "rs \<noteq> []" using pg(2) Cons.prems(3) by auto
    then have "last rs \<in> set (rows d)" using last_in_set pg(1) by blast
    then have "ok x" unfolding pg(3) by (intro Cons.prems(2)[of d]) auto
    then have "follow view (Some (enc x)) ds = Inr (key_walk lt key limit (Some x) (map rows ds))"
      using Cons.prems by (intro Cons.IH) auto
    then show ?thesis using v p Some by simp
  qed
qed simp

text \<open>What a client that follows the cursors sees, however the table changes in between.\<close>

lemma follow_correct:
  assumes "\<And>k d. d \<in> set ds \<Longrightarrow> view (map_option enc k) d
      = text_page lt key enc dec limit (map_option enc k) (rows d)"
    and "\<And>d r. d \<in> set ds \<Longrightarrow> r \<in> set (rows d) \<Longrightarrow> ok (key r)" "1 \<le> limit"
    and "\<And>d. d \<in> set ds \<Longrightarrow> distinct (map key (rows d))"
  shows "\<exists>rs fin. follow view None ds = Inr (rs, fin) \<and> distinct (map key rs) \<and>
      (\<forall>r \<in> set rs. \<exists>d \<in> set ds. r \<in> set (rows d)) \<and> sorted_wrt row_lt rs \<and>
      (\<forall>k. fin \<longrightarrow> (\<forall>d \<in> set ds. k \<in> key ` set (rows d)) \<longrightarrow> k \<in> key ` set rs) \<and>
      (ds \<noteq> [] \<longrightarrow> card (\<Union>d \<in> set ds. key ` set (rows d)) \<le> length ds * limit \<longrightarrow> fin)"
proof -
  obtain rs fin where w: "key_walk lt key limit None (map rows ds) = (rs, fin)"
    by (cases "key_walk lt key limit None (map rows ds)")
  have f: "follow view None ds = Inr (rs, fin)"
    using follow_walk[where ds = ds and view = view and limit = limit and rows = rows and c = None
        and k = None] assms w by simp
  have d: "distinct (map key t)" if "t \<in> set (map rows ds)" for t using that assms(4) by auto
  have 1: "distinct (map key rs)" by (rule walk_distinct[OF w assms(3) d])
  have 2: "sorted_wrt row_lt rs" "\<forall>r \<in> set rs. \<exists>d \<in> set ds. r \<in> set (rows d)"
    using walk_rows[OF w assms(3) d] by auto
  have 3: "k \<in> key ` set rs" if "fin" "\<forall>d \<in> set ds. k \<in> key ` set (rows d)" for k
    by (rule walk_complete[of limit None "map rows ds" rs k]) (use w that assms(3) d in auto)
  have 4: "fin" if "ds \<noteq> []" "card (\<Union>d \<in> set ds. key ` set (rows d)) \<le> length ds * limit"
  proof -
    define K where "K = (\<Union>d \<in> set ds. key ` set (rows d))"
    have "snd (key_walk lt key limit None (map rows ds))"
    proof (rule walk_ends[of _ _ K])
      show "card {k \<in> K. None = None \<or> lt (the None) k} \<le> length (map rows ds) * limit"
        using that(2) unfolding K_def by simp (simp add: UNION_eq)
    qed (use that(1) assms(3) d in \<open>auto simp: K_def\<close>)
    then show ?thesis using w by simp
  qed
  show ?thesis using f 1 2 3 4 by blast
qed

end

end
