(* ===== verification/Pagination.thy ===== *)
theory Pagination
  imports Uuids Exceptions Constants
begin

text \<open>
  \<open>core/pagination.py\<close>: the opaque cursor, which is the URL-safe Base64 of the JSON text of two
  strings, and the page size.  A text here is its list of Unicode code points, a byte string a list
  of numbers below 256.  The decoder follows the standard library on every input a client may
  send: \<open>urlsafe_b64decode\<close> skips characters outside the alphabet and stops at complete padding,
  UTF-8 is decoded strictly, and the JSON text must be an array of exactly two strings.
\<close>

type_synonym codes = "nat list"

definition codes :: "string \<Rightarrow> codes" where
  "codes s = map of_char s"

section \<open>JSON text of two strings\<close>

definition esc_code :: "nat \<Rightarrow> string" where
  "esc_code n =
     (if n = 34 then [CHR 0x5C, CHR 0x22]
      else if n = 92 then [CHR 0x5C, CHR 0x5C]
      else if n = 10 then CHR 0x5C # ''n''
      else if n = 13 then CHR 0x5C # ''r''
      else if n = 9 then CHR 0x5C # ''t''
      else if n = 8 then CHR 0x5C # ''b''
      else if n = 12 then CHR 0x5C # ''f''
      else if 32 \<le> n \<and> n \<le> 126 then [char_of n]
      else if n < 0x10000 then CHR 0x5C # CHR ''u'' # hexed 4 n
      else CHR 0x5C # CHR ''u'' # hexed 4 (0xD800 + (n - 0x10000) div 1024) @
           CHR 0x5C # CHR ''u'' # hexed 4 (0xDC00 + (n - 0x10000) mod 1024))"

definition quote_codes :: "codes \<Rightarrow> string" where
  "quote_codes s = CHR 0x22 # concat (map esc_code s) @ [CHR 0x22]"

definition dumps_pair :: "codes \<Rightarrow> codes \<Rightarrow> string" where
  "dumps_pair a b = CHR ''['' # quote_codes a @ '', '' @ quote_codes b @ '']''"

section \<open>Base64\<close>

definition b64_char :: "nat \<Rightarrow> char" where
  "b64_char n = (if n < 26 then char_of (65 + n) else if n < 52 then char_of (71 + n)
     else if n < 62 then char_of (n - 4) else if n = 62 then CHR ''-'' else CHR ''_'')"

fun urlsafe_b64encode :: "nat list \<Rightarrow> string" where
  "urlsafe_b64encode [] = []"
| "urlsafe_b64encode [a] = [b64_char (a div 4), b64_char (a mod 4 * 16), CHR ''='', CHR ''='']"
| "urlsafe_b64encode [a, b] =
     [b64_char (a div 4), b64_char (a mod 4 * 16 + b div 16), b64_char (b mod 16 * 4), CHR ''='']"
| "urlsafe_b64encode (a # b # c # bs) =
     b64_char (a div 4) # b64_char (a mod 4 * 16 + b div 16) # b64_char (b mod 16 * 4 + c div 64) #
     b64_char (c mod 64) # urlsafe_b64encode bs"

text \<open>The value of a character after \<open>-\<close> and \<open>_\<close> have been translated to \<open>+\<close> and \<open>/\<close>.\<close>

definition b64_value :: "char \<Rightarrow> nat option" where
  "b64_value c = (let k = of_char c in
     if 65 \<le> k \<and> k \<le> 90 then Some (k - 65)
     else if 97 \<le> k \<and> k \<le> 122 then Some (k - 71)
     else if 48 \<le> k \<and> k \<le> 57 then Some (k + 4)
     else if k = 43 \<or> k = 45 then Some 62
     else if k = 47 \<or> k = 95 then Some 63
     else None)"

text \<open>The loop of \<open>binascii.a2b_base64\<close>: the position in the group of four, the bits left over
  from the last character, and the padding characters seen since.\<close>

fun a2b_base64 :: "nat \<Rightarrow> nat \<Rightarrow> nat \<Rightarrow> string \<Rightarrow> nat list option" where
  "a2b_base64 quad left pads [] = (if quad = 0 then Some [] else None)"
| "a2b_base64 quad left pads (c # cs) =
     (if c = CHR ''='' then
        (if 2 \<le> quad \<and> 4 \<le> quad + Suc pads then Some []
         else a2b_base64 quad left (if 2 \<le> quad then Suc pads else pads) cs)
      else case b64_value c of
          None \<Rightarrow> a2b_base64 quad left pads cs
        | Some v \<Rightarrow>
            (if quad = 0 then a2b_base64 1 v 0 cs
             else if quad = 1
               then map_option (Cons (left * 4 + v div 16)) (a2b_base64 2 (v mod 16) 0 cs)
             else if quad = 2
               then map_option (Cons (left * 16 + v div 4)) (a2b_base64 3 (v mod 4) 0 cs)
             else map_option (Cons (left * 64 + v)) (a2b_base64 0 0 0 cs)))"

definition urlsafe_b64decode :: "string \<Rightarrow> nat list option" where
  "urlsafe_b64decode s = a2b_base64 0 0 0 s"

section \<open>UTF-8\<close>

definition cont_byte :: "nat \<Rightarrow> bool" where
  "cont_byte b = (0x80 \<le> b \<and> b \<le> 0xBF)"

definition surrogate :: "nat \<Rightarrow> bool" where
  "surrogate n = (0xD800 \<le> n \<and> n \<le> 0xDFFF)"

text \<open>The first character of a byte string and the bytes after it.\<close>

definition utf8_head :: "nat list \<Rightarrow> (nat \<times> nat list) option" where
  "utf8_head s = (case s of
      [] \<Rightarrow> None
    | a # r \<Rightarrow>
        if a < 0x80 then Some (a, r)
        else if 0xC2 \<le> a \<and> a \<le> 0xDF then (case r of
            b # r' \<Rightarrow> if cont_byte b then Some ((a - 0xC0) * 64 + (b - 0x80), r') else None
          | _ \<Rightarrow> None)
        else if 0xE0 \<le> a \<and> a \<le> 0xEF then (case r of
            b # c # r' \<Rightarrow>
              (let n = (a - 0xE0) * 4096 + (b - 0x80) * 64 + (c - 0x80) in
               if cont_byte b \<and> cont_byte c \<and> 0x800 \<le> n \<and> \<not> surrogate n then Some (n, r') else None)
          | _ \<Rightarrow> None)
        else if 0xF0 \<le> a \<and> a \<le> 0xF4 then (case r of
            b # c # d # r' \<Rightarrow>
              (let n = (a - 0xF0) * 262144 + (b - 0x80) * 4096 + (c - 0x80) * 64 + (d - 0x80) in
               if cont_byte b \<and> cont_byte c \<and> cont_byte d \<and> 0x10000 \<le> n \<and> n < 0x110000
               then Some (n, r') else None)
          | _ \<Rightarrow> None)
        else None)"

lemma utf8_head_shorter: "utf8_head s = Some (n, r) \<Longrightarrow> length r < length s"
  by (auto simp: utf8_head_def Let_def split: list.splits if_splits)

function utf8_decode :: "nat list \<Rightarrow> codes option" where
  "utf8_decode s = (if s = [] then Some [] else case utf8_head s of
      None \<Rightarrow> None
    | Some (n, r) \<Rightarrow> map_option (Cons n) (utf8_decode r))"
  by pat_completeness auto
termination by (relation "measure length") (auto dest: utf8_head_shorter)

declare utf8_decode.simps [simp del]

section \<open>The JSON reader\<close>

definition json_space :: "nat \<Rightarrow> bool" where
  "json_space n = (n = 32 \<or> n = 9 \<or> n = 10 \<or> n = 13)"

definition skip :: "codes \<Rightarrow> codes" where
  "skip s = dropWhile json_space s"

definition hex_code :: "nat \<Rightarrow> nat option" where
  "hex_code n = (if n < 128 then hex_value (char_of n) else None)"

fun read_hex :: "nat \<Rightarrow> nat \<Rightarrow> codes \<Rightarrow> (nat \<times> codes) option" where
  "read_hex 0 acc s = Some (acc, s)"
| "read_hex (Suc w) acc [] = None"
| "read_hex (Suc w) acc (n # s) =
     (case hex_code n of None \<Rightarrow> None | Some v \<Rightarrow> read_hex w (16 * acc + v) s)"

text \<open>What follows a backslash; two escapes of a surrogate pair are one character.\<close>

definition read_unicode :: "codes \<Rightarrow> (nat \<times> codes) option" where
  "read_unicode s = (case read_hex 4 0 s of
      None \<Rightarrow> None
    | Some (v, r) \<Rightarrow>
        (if 0xD800 \<le> v \<and> v \<le> 0xDBFF then
           (case r of
              x # y # r' \<Rightarrow>
                if x = 92 \<and> y = 117 then
                  (case read_hex 4 0 r' of
                     None \<Rightarrow> None
                   | Some (v', r'') \<Rightarrow>
                       if 0xDC00 \<le> v' \<and> v' \<le> 0xDFFF
                       then Some (0x10000 + (v - 0xD800) * 1024 + (v' - 0xDC00), r'')
                       else Some (v, r))
                else Some (v, r)
            | _ \<Rightarrow> Some (v, r))
         else Some (v, r)))"

definition read_escape :: "codes \<Rightarrow> (nat \<times> codes) option" where
  "read_escape s = (case s of
      [] \<Rightarrow> None
    | e # r \<Rightarrow>
        if e = 117 then read_unicode r
        else if e = 34 \<or> e = 92 \<or> e = 47 then Some (e, r)
        else if e = 98 then Some (8, r)
        else if e = 102 then Some (12, r)
        else if e = 110 then Some (10, r)
        else if e = 114 then Some (13, r)
        else if e = 116 then Some (9, r)
        else None)"

lemma read_hex_shorter: "read_hex w acc s = Some (v, r) \<Longrightarrow> length r \<le> length s"
  by (induction w acc s rule: read_hex.induct) (auto split: option.splits)

lemma read_escape_shorter: "read_escape s = Some (v, r) \<Longrightarrow> length r < length s"
  by (auto simp: read_escape_def read_unicode_def split: list.splits if_splits option.splits
      dest!: read_hex_shorter)

text \<open>A string from behind its opening quote, and what follows its closing quote.\<close>

function scan_string :: "codes \<Rightarrow> (codes \<times> codes) option" where
  "scan_string s = (case s of
      [] \<Rightarrow> None
    | c # r \<Rightarrow>
        if c = 34 then Some ([], r)
        else if c = 92 then (case read_escape r of
            None \<Rightarrow> None
          | Some (n, r') \<Rightarrow> map_option (apfst (Cons n)) (scan_string r'))
        else if c < 32 then None
        else map_option (apfst (Cons c)) (scan_string r))"
  by pat_completeness auto
termination by (relation "measure length") (auto dest: read_escape_shorter)

declare scan_string.simps [simp del]

definition expect :: "nat \<Rightarrow> codes \<Rightarrow> codes option" where
  "expect n s = (case skip s of [] \<Rightarrow> None | c # r \<Rightarrow> if c = n then Some r else None)"

definition read_string :: "codes \<Rightarrow> (codes \<times> codes) option" where
  "read_string s = (case expect 34 s of None \<Rightarrow> None | Some r \<Rightarrow> scan_string r)"

text \<open>\<open>json.loads\<close> followed by the test for a list of two strings.\<close>

definition loads_pair :: "codes \<Rightarrow> (codes \<times> codes) option" where
  "loads_pair s = (case expect 91 s of None \<Rightarrow> None | Some s1 \<Rightarrow>
     case read_string s1 of None \<Rightarrow> None | Some (a, s2) \<Rightarrow>
     case expect 44 s2 of None \<Rightarrow> None | Some s3 \<Rightarrow>
     case read_string s3 of None \<Rightarrow> None | Some (b, s4) \<Rightarrow>
     case expect 93 s4 of None \<Rightarrow> None | Some s5 \<Rightarrow>
     if skip s5 = [] then Some (a, b) else None)"

section \<open>The cursor and the page size\<close>

definition DEFAULT_PAGE_SIZE :: nat where
  "DEFAULT_PAGE_SIZE = 20"

definition MAX_PAGE_SIZE :: nat where
  "MAX_PAGE_SIZE = 100"

definition encode_cursor :: "codes \<Rightarrow> codes \<Rightarrow> string" where
  "encode_cursor sort_by row_id = urlsafe_b64encode (codes (dumps_pair sort_by row_id))"

definition decode_cursor :: "string \<Rightarrow> exn + (codes \<times> codes)" where
  "decode_cursor cursor =
     (let decoded =
        (if list_all (\<lambda>c. (of_char c :: nat) < 128) cursor
         then case urlsafe_b64decode cursor of
             None \<Rightarrow> None
           | Some bs \<Rightarrow> (case utf8_decode bs of None \<Rightarrow> None | Some s \<Rightarrow> loads_pair s)
         else None)
      in case decoded of None \<Rightarrow> Inl (ValueError ''malformed cursor'') | Some p \<Rightarrow> Inr p)"

text \<open>\<open>int(text)\<close>: surrounding white space, a sign, and at most 4300 digits with single
  underscores between them.\<close>

definition dec_value :: "char \<Rightarrow> nat option" where
  "dec_value c = (let k = of_char c in if 48 \<le> k \<and> k \<le> 57 then Some (k - 48) else None)"

fun dec_digits :: "nat \<Rightarrow> string \<Rightarrow> nat option" where
  "dec_digits acc [] = None"
| "dec_digits acc (c # cs) = (case dec_value c of
      None \<Rightarrow> None
    | Some v \<Rightarrow> (case cs of
        [] \<Rightarrow> Some (10 * acc + v)
      | c' # cs' \<Rightarrow> if c' = CHR ''_'' then dec_digits (10 * acc + v) cs'
          else dec_digits (10 * acc + v) (c' # cs')))"

definition int_of_text :: "string \<Rightarrow> int option" where
  "int_of_text text =
     (let t = strip is_space text;
          body = (case t of [] \<Rightarrow> [] | c # cs \<Rightarrow> if c = CHR ''-'' \<or> c = CHR ''+'' then cs else t);
          negative = (case t of [] \<Rightarrow> False | c # cs \<Rightarrow> c = CHR ''-'')
      in if 4300 < count_if (\<lambda>c. dec_value c \<noteq> None) body then None
         else map_option (\<lambda>n. if negative then - int n else int n) (dec_digits 0 body))"

definition parse_limit :: "string option \<Rightarrow> exn + nat" where
  "parse_limit raw_limit = (case raw_limit of
      None \<Rightarrow> Inr DEFAULT_PAGE_SIZE
    | Some text \<Rightarrow> (case int_of_text text of
          None \<Rightarrow> Inl (ValueError ''limit must be an integer'')
        | Some limit \<Rightarrow>
            if limit < 1 then Inl (ValueError ''limit must be at least 1'')
            else Inr (min (nat limit) MAX_PAGE_SIZE)))"

section \<open>Base64 round trip\<close>

lemma b64_value_char: "n < 64 \<Longrightarrow> b64_value (b64_char n) = Some n"
  and b64_char_pad: "n < 64 \<Longrightarrow> b64_char n \<noteq> CHR ''=''"
proof -
  assume n: "n < 64"
  have m: "k mod 256 = k" if "k < 256" for k :: nat using that by simp
  show v: "b64_value (b64_char n) = Some n"
    using n by (auto simp: b64_value_def b64_char_def Let_def m)
  show "b64_char n \<noteq> CHR ''=''"
  proof
    assume "b64_char n = CHR ''=''"
    then have "b64_value (b64_char n) = b64_value CHR ''=''" by simp
    also have "\<dots> = None" by (simp add: b64_value_def)
    finally show False using v by simp
  qed
qed

lemma a2b_char:
  assumes "v < 64"
  shows "a2b_base64 0 left pads (b64_char v # cs) = a2b_base64 (Suc 0) v 0 cs"
    "a2b_base64 (Suc 0) left pads (b64_char v # cs) =
       map_option (Cons (left * 4 + v div 16)) (a2b_base64 2 (v mod 16) 0 cs)"
    "a2b_base64 2 left pads (b64_char v # cs) =
       map_option (Cons (left * 16 + v div 4)) (a2b_base64 3 (v mod 4) 0 cs)"
    "a2b_base64 3 left pads (b64_char v # cs) = map_option (Cons (left * 64 + v)) (a2b_base64 0 0 0 cs)"
  using assms by (simp_all add: b64_value_char b64_char_pad)

lemma a2b_pad:
  "a2b_base64 0 left pads [] = Some []" "a2b_base64 2 left 0 ''=='' = Some []"
  "a2b_base64 3 left 0 ''='' = Some []"
  by simp_all

declare a2b_base64.simps [simp del]

lemma b64_join:
  assumes "a < 256" "b < 256" "c < 256"
  shows "a div 4 < 64" "a mod 4 * 16 + b div 16 < 64" "b mod 16 * 4 + c div 64 < 64" "c mod 64 < 64"
    "a div 4 * 4 + (a mod 4 * 16 + b div 16) div 16 = a"
    "(a mod 4 * 16 + b div 16) mod 16 * 16 + (b mod 16 * 4 + c div 64) div 4 = b"
    "(b mod 16 * 4 + c div 64) mod 4 * 64 + c mod 64 = (c :: nat)"
proof -
  have j: "(x * 16 + k) div 16 = x" "(x * 16 + k) mod 16 = k" if "k < 16" for x k :: nat
    using that by simp_all
  have j': "(x * 4 + k) div 4 = x" "(x * 4 + k) mod 4 = k" if "k < 4" for x k :: nat
    using that by simp_all
  have k: "b div 16 < 16" "c div 64 < 4" using assms by auto
  show "a div 4 < 64" "a mod 4 * 16 + b div 16 < 64" "b mod 16 * 4 + c div 64 < 64" "c mod 64 < 64"
    using assms by auto
  show "a div 4 * 4 + (a mod 4 * 16 + b div 16) div 16 = a" by (simp add: j[OF k(1)])
  show "(a mod 4 * 16 + b div 16) mod 16 * 16 + (b mod 16 * 4 + c div 64) div 4 = b"
    by (simp only: j[OF k(1)] j'[OF k(2)]) simp
  show "(b mod 16 * 4 + c div 64) mod 4 * 64 + c mod 64 = c" by (simp only: j'[OF k(2)]) simp
qed

lemma urlsafe_b64_roundtrip:
  "list_all (\<lambda>b. b < 256) bs \<Longrightarrow> a2b_base64 0 left pads (urlsafe_b64encode bs) = Some bs"
proof (induction bs arbitrary: left pads rule: urlsafe_b64encode.induct)
  case (2 a)
  then show ?case using b64_join[of a 0 0] by (simp add: a2b_char a2b_pad)
next
  case (3 a b)
  then show ?case using b64_join[of a b 0] by (simp add: a2b_char a2b_pad)
next
  case (4 a b c bs)
  have l: "a < 256" "b < 256" "c < 256" and bs: "list_all (\<lambda>b. b < 256) bs" using 4(2) by auto
  note j = b64_join[OF l]
  show ?case
    unfolding urlsafe_b64encode.simps a2b_char(1)[OF j(1)] a2b_char(2)[OF j(2)] a2b_char(3)[OF j(3)]
      a2b_char(4)[OF j(4)] j(5-7) 4(1)[OF bs] by simp
qed (simp add: a2b_pad)

section \<open>The text survives\<close>

lemma utf8_ascii: "list_all (\<lambda>n. n < 128) s \<Longrightarrow> utf8_decode s = Some s"
proof (induction s)
  case (Cons a s)
  then show ?case by (subst utf8_decode.simps) (simp add: utf8_head_def)
qed (simp add: utf8_decode.simps)

lemma hex_code_char: "hex_code (of_char (hex_char n)) = Some (n mod 16)"
proof -
  have "(if n mod 16 < 10 then 48 + n mod 16 else 87 + n mod 16) < 128"
    using mod_less_divisor[of 16 n] by auto
  then have "(of_char (hex_char n) :: nat) < 128" by (simp add: hex_char_def)
  then show ?thesis by (simp add: hex_code_def)
qed

lemma read_hex_add: "read_hex (a + b) acc s = (case read_hex a acc s of
    None \<Rightarrow> None | Some (v, r) \<Rightarrow> read_hex b v r)"
  by (induction a acc s rule: read_hex.induct) (auto split: option.splits)

lemma read_hex_hexed:
  "read_hex w acc (codes (hexed w n) @ s) = Some (16 ^ w * acc + n mod 16 ^ w, s)"
proof (induction w arbitrary: n s)
  case (Suc w)
  have "n mod 16 ^ Suc w = 16 * (n div 16 mod 16 ^ w) + n mod 16"
    unfolding power_Suc by (rule mod_mult2_eq)
  moreover have "read_hex (Suc w) acc (codes (hexed (Suc w) n) @ s) =
      Some (16 * (16 ^ w * acc + n div 16 mod 16 ^ w) + n mod 16, s)"
    using read_hex_add[of w 1 acc "codes (hexed (Suc w) n) @ s"] Suc[of "n div 16"]
    by (simp add: codes_def hex_code_char)
  ultimately show ?case by (simp add: algebra_simps)
qed (simp add: codes_def)

text \<open>Characters a database text can hold: every code point that is not a surrogate.\<close>

definition storable :: "nat \<Rightarrow> bool" where
  "storable n = (n < 0x110000 \<and> \<not> surrogate n)"

lemma codes_append [simp]: "codes (a @ b) = codes a @ codes b"
  and codes_Cons [simp]: "codes (c # a) = of_char c # codes a"
  and codes_Nil [simp]: "codes [] = []"
  by (simp_all add: codes_def)

lemma read_unicode_plain:
  assumes "n < 0x10000" "\<not> surrogate n"
  shows "read_unicode (codes (hexed 4 n) @ s) = Some (n, s)"
  using assms read_hex_hexed[of 4 0 n s] by (auto simp: read_unicode_def surrogate_def)

lemma read_unicode_pair:
  assumes "0x10000 \<le> n" "n < 0x110000"
  shows "read_unicode (codes (hexed 4 (0xD800 + (n - 0x10000) div 1024) @
      CHR 0x5C # CHR ''u'' # hexed 4 (0xDC00 + (n - 0x10000) mod 1024)) @ s) = Some (n, s)"
proof -
  define m where "m = n - 0x10000"
  have m: "m < 0x100000" "n = 0x10000 + m" using assms by (auto simp: m_def)
  have h: "m div 1024 < 1024" "m mod 1024 < 1024" using m(1) by auto
  have "m div 1024 * 1024 + m mod 1024 = m" by simp
  then show ?thesis
    unfolding m_def[symmetric]
    using h read_hex_hexed[of 4 0 "0xD800 + m div 1024"] read_hex_hexed[of 4 0 "0xDC00 + m mod 1024" s]
    by (simp add: read_unicode_def m(2))
qed

lemma scan_esc:
  assumes "storable n"
  shows "scan_string (codes (esc_code n) @ s) = map_option (apfst (Cons n)) (scan_string s)"
proof -
  have u: "scan_string (92 # 117 # r) = (case read_unicode r of
      None \<Rightarrow> None | Some (n, r') \<Rightarrow> map_option (apfst (Cons n)) (scan_string r'))" for r
    by (subst scan_string.simps) (simp add: read_escape_def)
  have e: "scan_string (92 # e # r) = map_option (apfst (Cons v)) (scan_string r)"
    if "(e, v) \<in> {(34, 34), (92, 92), (110, 10), (114, 13), (116, 9), (98, 8), (102, 12)}" for e v r
    using that by (subst scan_string.simps) (auto simp: read_escape_def)
  have p: "scan_string (c # r) = map_option (apfst (Cons c)) (scan_string r)"
    if "c \<noteq> 34" "c \<noteq> 92" "32 \<le> c" for c r
    using that by (subst scan_string.simps) simp
  consider "n \<in> {34, 92, 10, 13, 9, 8, 12}"
    | "n \<notin> {34, 92, 10, 13, 9, 8, 12}" "32 \<le> n \<and> n \<le> 126"
    | "n \<notin> {34, 92, 10, 13, 9, 8, 12}" "\<not> (32 \<le> n \<and> n \<le> 126)" "n < 0x10000"
    | "0x10000 \<le> n" by fastforce
  then show ?thesis
  proof cases
    case 1 then show ?thesis by (auto simp: esc_code_def e)
  next
    case 2 then show ?thesis by (simp add: esc_code_def p)
  next
    case 3
    then show ?thesis using assms read_unicode_plain[of n s] by (auto simp: esc_code_def u storable_def)
  next
    case 4
    then show ?thesis using assms read_unicode_pair[of n s]
      by (simp add: esc_code_def u storable_def)
  qed
qed

lemma scan_quoted:
  "list_all storable a \<Longrightarrow>
   scan_string (codes (concat (map esc_code a)) @ 34 # s) = Some (a, s)"
proof (induction a)
  case Nil
  then show ?case by (subst scan_string.simps) simp
next
  case (Cons n a)
  then show ?case using scan_esc[of n "codes (concat (map esc_code a)) @ 34 # s"] by simp
qed

lemma read_quoted:
  "list_all storable a \<Longrightarrow> read_string (codes (quote_codes a) @ s) = Some (a, s)"
  by (simp add: read_string_def expect_def skip_def json_space_def quote_codes_def scan_quoted)

lemma read_quoted_space:
  "list_all storable a \<Longrightarrow> read_string (32 # codes (quote_codes a) @ s) = Some (a, s)"
  by (simp add: read_string_def expect_def skip_def json_space_def quote_codes_def scan_quoted)

lemma loads_dumps:
  assumes "list_all storable a" "list_all storable b"
  shows "loads_pair (codes (dumps_pair a b)) = Some (a, b)"
  using assms read_quoted[of a "44 # 32 # codes (quote_codes b) @ [93]"] read_quoted_space[of b "[93]"]
  by (simp add: loads_pair_def dumps_pair_def expect_def skip_def json_space_def)

section \<open>Properties\<close>

lemma cursor_bytes:
  assumes "list_all (\<lambda>c. (of_char c :: nat) < 128) s"
  shows "urlsafe_b64decode (urlsafe_b64encode (codes s)) = Some (codes s)"
    "utf8_decode (codes s) = Some (codes s)"
proof -
  have a: "list_all (\<lambda>b. b < 256) (codes s)" "list_all (\<lambda>b. b < 128) (codes s)"
    using assms by (auto simp: codes_def list_all_iff)
  show "urlsafe_b64decode (urlsafe_b64encode (codes s)) = Some (codes s)"
    unfolding urlsafe_b64decode_def by (rule urlsafe_b64_roundtrip[OF a(1)])
  show "utf8_decode (codes s) = Some (codes s)" by (rule utf8_ascii[OF a(2)])
qed

lemma ascii_hexed: "list_all (\<lambda>c. (of_char c :: nat) < 128) (hexed w n)"
proof -
  have "(of_char (hex_char n) :: nat) < 128" for n
  proof -
    have "(if n mod 16 < 10 then 48 + n mod 16 else 87 + n mod 16) < 128"
      using mod_less_divisor[of 16 n] by auto
    then show ?thesis by (simp add: hex_char_def)
  qed
  then show ?thesis by (induction w arbitrary: n) auto
qed

lemma ascii_dumps: "list_all (\<lambda>c. (of_char c :: nat) < 128) (dumps_pair a b)"
proof -
  have e: "list_all (\<lambda>c. (of_char c :: nat) < 128) (esc_code n)" for n
    by (auto simp: esc_code_def ascii_hexed)
  have "list_all (\<lambda>c. (of_char c :: nat) < 128) (quote_codes s)" for s
    using e by (induction s) (auto simp: quote_codes_def)
  then show ?thesis by (simp add: dumps_pair_def)
qed

lemma ascii_b64: "list_all (\<lambda>c. (of_char c :: nat) < 128) (urlsafe_b64encode bs)"
proof -
  have "(of_char (b64_char n) :: nat) < 128" for n
    by (auto simp: b64_char_def)
  then show ?thesis by (induction bs rule: urlsafe_b64encode.induct) auto
qed

lemma decode_encode_cursor:
  assumes "list_all storable a" "list_all storable b"
  shows "decode_cursor (encode_cursor a b) = Inr (a, b)"
  using loads_dumps[OF assms] cursor_bytes[OF ascii_dumps, of a b] ascii_b64
  by (simp add: decode_cursor_def encode_cursor_def)

text \<open>A cursor is opaque but exact: the two texts it was made of, whatever characters a stored
  text may hold, are read back from it, and its own characters are plain ASCII.\<close>

theorem cursor_roundtrip:
  assumes "list_all storable a" "list_all storable b"
  shows "decode_cursor (encode_cursor a b) = Inr (a, b) \<and>
    list_all (\<lambda>c. (of_char c :: nat) < 128) (encode_cursor a b)"
  using decode_encode_cursor[OF assms] ascii_b64 by (simp add: encode_cursor_def)

text \<open>A name with an accent, a line break and a character outside the basic plane.\<close>

theorem cursor_roundtrip_witness:
  "decode_cursor (encode_cursor [0xE9, 10, 0x1F600, 34] (codes ''7'')) = Inr ([0xE9, 10, 0x1F600, 34], codes ''7'')"
  using cursor_roundtrip[of "[0xE9, 10, 0x1F600, 34]" "codes ''7''"]
  by (simp add: storable_def surrogate_def codes_def)

text \<open>The page size is at least one and at most a hundred.\<close>

lemma parse_limit_bounds: "parse_limit v = Inr n \<Longrightarrow> 1 \<le> n \<and> n \<le> MAX_PAGE_SIZE"
  by (auto simp: parse_limit_def DEFAULT_PAGE_SIZE_def MAX_PAGE_SIZE_def split: option.splits if_splits)

section \<open>Reading back an instant\<close>

text \<open>The inverse of \<open>isoformat\<close> on its own output, \<open>YYYY-MM-DDTHH:MM:SS[.ffffff]+00:00\<close>.\<close>

fun read_num :: "nat \<Rightarrow> nat \<Rightarrow> string \<Rightarrow> (nat \<times> string) option" where
  "read_num 0 acc s = Some (acc, s)"
| "read_num (Suc w) acc [] = None"
| "read_num (Suc w) acc (c # s) =
     (case dec_value c of None \<Rightarrow> None | Some v \<Rightarrow> read_num w (10 * acc + v) s)"

lemma read_num_add: "read_num (a + b) acc s = (case read_num a acc s of
    None \<Rightarrow> None | Some (v, r) \<Rightarrow> read_num b v r)"
  by (induction a acc s rule: read_num.induct) (auto split: option.splits)

lemma dec_value_char: "dec_value (digit_char n) = Some (n mod 10)"
proof -
  have "(48 + n mod 10) mod 256 = 48 + n mod 10" using mod_less_divisor[of 10 n] by simp
  then show ?thesis by (simp add: dec_value_def digit_char_def Let_def)
qed

lemma read_num_padded: "read_num w acc (padded w n @ s) = Some (10 ^ w * acc + n mod 10 ^ w, s)"
proof (induction w arbitrary: n s)
  case (Suc w)
  have "n mod 10 ^ Suc w = 10 * (n div 10 mod 10 ^ w) + n mod 10"
    unfolding power_Suc by (rule mod_mult2_eq)
  moreover have "read_num (Suc w) acc (padded (Suc w) n @ s) =
      Some (10 * (10 ^ w * acc + n div 10 mod 10 ^ w) + n mod 10, s)"
    using read_num_add[of w 1 acc "padded (Suc w) n @ s"] Suc[of "n div 10"]
    by (simp add: dec_value_char)
  ultimately show ?case by (simp add: algebra_simps)
qed simp

definition read_char :: "char \<Rightarrow> string \<Rightarrow> string option" where
  "read_char c s = (case s of [] \<Rightarrow> None | x # r \<Rightarrow> if x = c then Some r else None)"

lemma read_char_simps [simp]: "read_char c (c # s) = Some s"
  by (simp add: read_char_def)

definition read_date :: "string \<Rightarrow> (date \<times> string) option" where
  "read_date s =
     Option.bind (read_num 4 0 s) (\<lambda>(y, s). Option.bind (read_char CHR ''-'' s) (\<lambda>s.
     Option.bind (read_num 2 0 s) (\<lambda>(m, s). Option.bind (read_char CHR ''-'' s) (\<lambda>s.
     Option.bind (read_num 2 0 s) (\<lambda>(d, s).
       let days = days_of (int y) (int m) (int d) in
       if 1 \<le> y \<and> civil days = (int y, int m, int d) then Some (days, s) else None)))))"

definition read_fraction :: "string \<Rightarrow> (nat \<times> string) option" where
  "read_fraction s = (case read_char CHR ''.'' s of None \<Rightarrow> Some (0, s) | Some r \<Rightarrow> read_num 6 0 r)"

definition read_time :: "string \<Rightarrow> (time_of_day \<times> string) option" where
  "read_time s =
     Option.bind (read_num 2 0 s) (\<lambda>(h, s). Option.bind (read_char CHR '':'' s) (\<lambda>s.
     Option.bind (read_num 2 0 s) (\<lambda>(m, s). Option.bind (read_char CHR '':'' s) (\<lambda>s.
     Option.bind (read_num 2 0 s) (\<lambda>(sec, s). Option.bind (read_fraction s) (\<lambda>(us, s).
       if h < 24 \<and> m < 60 \<and> sec < 60
       then Some (int h * hour + int m * minute + int sec * second + int us, s) else None))))))"

definition read_iso :: "string \<Rightarrow> instant option" where
  "read_iso s =
     Option.bind (read_date s) (\<lambda>(days, s). Option.bind (read_char CHR ''T'' s) (\<lambda>s.
     Option.bind (read_time s) (\<lambda>(t, s).
       if s = ''+00:00'' then Some (days * day + t) else None)))"

text \<open>\<open>datetime.fromisoformat\<close>: the other forms it accepts are the parameter \<open>others\<close>.\<close>

definition fromisoformat :: "(codes \<Rightarrow> instant option) \<Rightarrow> codes \<Rightarrow> instant option" where
  "fromisoformat others s =
     (case (if list_all (\<lambda>n. n < 128) s then read_iso (map char_of s) else None) of
        Some t \<Rightarrow> Some t
      | None \<Rightarrow> others s)"

text \<open>The instants a datetime can hold.\<close>

definition datetime_ok :: "instant \<Rightarrow> bool" where
  "datetime_ok t = (case civil (t div day) of (y, m, d) \<Rightarrow> 1 \<le> y \<and> y \<le> 9999)"

lemma read_date_iso:
  assumes "civil days = (y, m, d)" "1 \<le> y" "y \<le> 9999"
  shows "read_date (iso_date days @ s) = Some (days, s)"
proof -
  note c = days_of_civil[OF assms(1)]
  have n: "nat y mod 10 ^ 4 = nat y" "nat m mod 10 ^ 2 = nat m" "nat d mod 10 ^ 2 = nat d"
    using c assms(2,3) by auto
  have i: "int (nat y) = y" "int (nat m) = m" "int (nat d) = d" using c assms(2) by auto
  have "1 \<le> nat y" using assms(2) by simp
  then show ?thesis
    by (simp only: iso_date_def assms(1) prod.case append_assoc append_Cons append_Nil read_date_def
        read_num_padded n mult_0_right add_0_left Option.bind.bind_lunit read_char_simps Let_def i c(1)
        if_True simp_thms)
qed

lemma read_time_iso:
  assumes "0 \<le> t" "t < day" "s = [] \<or> (\<exists>r. s = CHR ''+'' # r)"
  shows "read_time (iso_time t @ s) = Some (t, s)"
proof -
  define h m sec us where "h = t div hour" and "m = t mod hour div minute"
    and "sec = t mod minute div second" and "us = t mod second"
  have b: "0 \<le> h \<and> h < 24" "0 \<le> m \<and> m < 60" "0 \<le> sec \<and> sec < 60" "0 \<le> us \<and> us < 1000000"
    using assms(1,2) by (auto simp: h_def m_def sec_def us_def)
  have n: "nat h mod 10 ^ 2 = nat h" "nat m mod 10 ^ 2 = nat m" "nat sec mod 10 ^ 2 = nat sec"
    "nat us mod 10 ^ 6 = nat us" using b by auto
  have i: "int (nat h) = h" "int (nat m) = m" "int (nat sec) = sec" "int (nat us) = us" using b by auto
  have l: "nat h < 24" "nat m < 60" "nat sec < 60" using b by auto
  have t: "h * hour + m * minute + sec * second + us = t"
  proof -
    have "t mod hour mod minute = t mod minute" "t mod minute mod second = t mod second"
      by (rule mod_mod_cancel; simp)+
    then have "t mod hour = m * minute + t mod minute" "t mod minute = sec * second + us"
      using div_mult_mod_eq[of "t mod hour" minute] div_mult_mod_eq[of "t mod minute" second]
      by (simp_all only: m_def sec_def us_def)
    then show ?thesis using div_mult_mod_eq[of t hour] by (simp only: h_def)
  qed
  have fr: "read_fraction ((if us = 0 then [] else CHR ''.'' # padded 6 (nat us)) @ s) = Some (nat us, s)"
  proof (cases "us = 0")
    case True
    then show ?thesis using assms(3) by (auto simp: read_fraction_def read_char_def)
  next
    case False
    then show ?thesis
      by (simp only: if_False append_assoc append_Cons append_Nil read_fraction_def read_char_simps
          option.case read_num_padded n mult_0_right add_0_left)
  qed
  show ?thesis
    unfolding iso_time_def h_def[symmetric] m_def[symmetric] sec_def[symmetric] us_def[symmetric]
    by (simp only: append_assoc append_Cons append_Nil read_time_def read_num_padded n mult_0_right
        add_0_left Option.bind.bind_lunit prod.case read_char_simps fr l simp_thms if_True i t)
qed

lemma read_iso_instant:
  assumes "datetime_ok t"
  shows "read_iso (iso_instant t) = Some t"
proof -
  obtain y m d where c: "civil (t div day) = (y, m, d)" by (cases "civil (t div day)") auto
  then have y: "1 \<le> y" "y \<le> 9999" using assms by (auto simp: datetime_ok_def)
  have s: "t div day * day + t mod day = t" by simp
  have tm: "read_time (iso_time (t mod day) @ ''+00:00'') = Some (t mod day, ''+00:00'')"
    by (rule read_time_iso) auto
  show ?thesis
    by (simp only: read_iso_def iso_instant_def append_assoc append_Cons append_Nil
        read_date_iso[OF c y] Option.bind.bind_lunit prod.case read_char_simps tm simp_thms if_True s)
qed

lemma ascii_iso: "list_all (\<lambda>c. (of_char c :: nat) < 128) (iso_instant t)"
proof -
  have "(of_char (digit_char n) :: nat) < 128" for n
  proof -
    have "48 + n mod 10 < 128" using mod_less_divisor[of 10 n] by simp
    then show ?thesis by (simp add: digit_char_def)
  qed
  then have "list_all (\<lambda>c. (of_char c :: nat) < 128) (padded w n)" for w n
    by (induction w arbitrary: n) auto
  then show ?thesis by (auto simp: iso_instant_def iso_date_def iso_time_def split: prod.splits)
qed

lemma char_of_codes: "map char_of (codes s) = s"
  by (simp add: codes_def comp_def)

lemma fromisoformat_iso:
  "datetime_ok t \<Longrightarrow> fromisoformat others (codes (iso_instant t)) = Some t"
  using ascii_iso[of t]
  by (simp add: fromisoformat_def char_of_codes read_iso_instant) (simp add: codes_def list.pred_map comp_def)

end
