(* ===== verification/Rate_Limit.thy ===== *)
theory Rate_Limit
  imports Complex_Main Constants Uuids
begin

text \<open>
  \<open>core/rate_limit.py\<close>: the token bucket that a Lua script keeps in Redis, the check that fails open
  when Redis cannot be asked, and the two throttles of booking creation.

  The script runs atomically, so a bucket sees a sequence of checks.  Numbers are rationals: the
  rounding of binary floating point is left out.  A key lives until its expiry on the clock of the
  Redis server; the time of a check is the clock of the application process that makes it.
\<close>

section \<open>The bucket\<close>

record bucket =
  bt_tokens :: rat
  bt_last_refill :: rat
  bt_expires :: rat          \<comment> \<open>on the server's clock\<close>

record limiter =
  lm_capacity :: int
  lm_window :: int           \<comment> \<open>seconds\<close>

definition refill_rate :: "limiter \<Rightarrow> rat" where
  "refill_rate l = of_int (lm_capacity l) / of_int (lm_window l)"

definition ttl_seconds :: "limiter \<Rightarrow> int" where
  "ttl_seconds l = lm_window l * 2"

type_synonym redis = "string \<Rightarrow> bucket option"

text \<open>What a check leaves in the bucket before the request is taken out.\<close>

definition refilled :: "limiter \<Rightarrow> bucket option \<Rightarrow> rat \<Rightarrow> rat" where
  "refilled l b now = (case b of
      None \<Rightarrow> of_int (lm_capacity l)
    | Some v \<Rightarrow> min (of_int (lm_capacity l))
        (bt_tokens v + max 0 (now - bt_last_refill v) * refill_rate l))"

definition live_bucket :: "redis \<Rightarrow> string \<Rightarrow> rat \<Rightarrow> bucket option" where
  "live_bucket rd key server_now = (case rd key of
      None \<Rightarrow> None
    | Some v \<Rightarrow> if bt_expires v \<le> server_now then None else Some v)"

text \<open>The script: whether the request is allowed, and the seconds to wait when it is not.\<close>

definition token_bucket_lua ::
  "limiter \<Rightarrow> string \<Rightarrow> rat \<Rightarrow> rat \<Rightarrow> int \<Rightarrow> redis \<Rightarrow> (bool \<times> int) \<times> redis" where
  "token_bucket_lua l key server_now now requested rd =
     (let tokens = refilled l (live_bucket rd key server_now) now;
          allowed = (of_int requested \<le> tokens);
          left = (if allowed then tokens - of_int requested else tokens);
          retry_after = (if \<not> allowed \<and> 0 < refill_rate l
             then \<lceil>(of_int requested - left) / refill_rate l\<rceil> else 0)
      in ((allowed, retry_after),
          rd(key \<mapsto> \<lparr> bt_tokens = left, bt_last_refill = now,
                      bt_expires = server_now + of_int (ttl_seconds l) \<rparr>)))"

text \<open>Redis answers, cannot be reached, or runs the script and the answer is lost.\<close>

datatype redis_health = Redis_up | Redis_down | Reply_lost

definition check_bucket ::
  "limiter \<Rightarrow> redis_health \<Rightarrow> string \<Rightarrow> rat \<Rightarrow> rat \<Rightarrow> redis \<Rightarrow> (bool \<times> int) \<times> redis" where
  "check_bucket l h key server_now now rd = (case h of
      Redis_up \<Rightarrow> token_bucket_lua l key server_now now 1 rd
    | Redis_down \<Rightarrow> ((True, 0), rd)
    | Reply_lost \<Rightarrow> ((True, 0), snd (token_bucket_lua l key server_now now 1 rd)))"

section \<open>The throttles\<close>

record throttle_answer =
  th_allowed :: bool
  th_cause :: "string option"
  th_wait :: "int option"

definition pass :: throttle_answer where
  "pass = \<lparr> th_allowed = True, th_cause = None, th_wait = None \<rparr>"

definition answer_of :: "string \<Rightarrow> bool \<times> int \<Rightarrow> throttle_answer" where
  "answer_of cause r =
     (if fst r then pass
      else \<lparr> th_allowed = False, th_cause = Some cause, th_wait = Some (snd r) \<rparr>)"

definition booking_create_limiter :: limiter where
  "booking_create_limiter = \<lparr> lm_capacity = RATE_LIMIT_BOOKING_CREATE_CAPACITY,
     lm_window = RATE_LIMIT_BOOKING_CREATE_WINDOW_SECONDS \<rparr>"

definition per_ip_limiter :: limiter where
  "per_ip_limiter = \<lparr> lm_capacity = RATE_LIMIT_PER_IP_CAPACITY,
     lm_window = RATE_LIMIT_PER_IP_WINDOW_SECONDS \<rparr>"

text \<open>\<open>client_ip\<close>: the source address of the connection, empty when there is none.\<close>

definition client_ip :: "string option \<Rightarrow> string" where
  "client_ip remote_addr = (case remote_addr of None \<Rightarrow> '''' | Some a \<Rightarrow> a)"

definition principal_allow_request ::
  "bool \<Rightarrow> string \<Rightarrow> uuid option \<Rightarrow> redis_health \<Rightarrow> rat \<Rightarrow> rat \<Rightarrow> redis \<Rightarrow> throttle_answer \<times> redis" where
  "principal_allow_request enabled verb user h server_now now rd =
     (if \<not> enabled \<or> verb \<noteq> ''POST'' then (pass, rd)
      else case user of
          None \<Rightarrow> (pass, rd)
        | Some u \<Rightarrow>
            (case check_bucket booking_create_limiter h (''ratelimit:booking_create:'' @ uuid_text u)
                    server_now now rd of
               (r, rd') \<Rightarrow> (answer_of ''per_principal_token_bucket'' r, rd')))"

definition per_ip_allow_request ::
  "bool \<Rightarrow> string \<Rightarrow> string option \<Rightarrow> redis_health \<Rightarrow> rat \<Rightarrow> rat \<Rightarrow> redis \<Rightarrow> throttle_answer \<times> redis" where
  "per_ip_allow_request enabled verb remote_addr h server_now now rd =
     (if \<not> enabled \<or> verb \<noteq> ''POST'' then (pass, rd)
      else if client_ip remote_addr = '''' then (pass, rd)
      else (case check_bucket per_ip_limiter h (''ratelimit:per_ip:'' @ client_ip remote_addr)
                   server_now now rd of
               (r, rd') \<Rightarrow> (answer_of ''per_ip_token_bucket'' r, rd')))"

section \<open>A run of checks of one key\<close>

text \<open>Checks at the given instants of the server's and the application's clock.\<close>

fun checks_on :: "limiter \<Rightarrow> string \<Rightarrow> (rat \<times> rat) list \<Rightarrow> redis \<Rightarrow> bool list \<times> redis" where
  "checks_on l key [] rd = ([], rd)"
| "checks_on l key ((s, t) # ts) rd =
     (case token_bucket_lua l key s t 1 rd of
        ((a, w), rd') \<Rightarrow> (case checks_on l key ts rd' of (as, rd'') \<Rightarrow> (a # as, rd'')))"

text \<open>The two clocks agree.\<close>

abbreviation in_step :: "rat list \<Rightarrow> (rat \<times> rat) list" where
  "in_step ts \<equiv> map (\<lambda>t. (t, t)) ts"

section \<open>The level of a bucket\<close>

text \<open>A limiter as the source configures it, and a bucket as the script leaves it when the clocks agree.\<close>

definition limiter_ok :: "limiter \<Rightarrow> bool" where
  "limiter_ok l = (1 \<le> lm_capacity l \<and> 0 < lm_window l)"

definition bucket_ok :: "limiter \<Rightarrow> string \<Rightarrow> rat \<Rightarrow> redis \<Rightarrow> bool" where
  "bucket_ok l key now rd = (case rd key of
      None \<Rightarrow> True
    | Some b \<Rightarrow> 0 \<le> bt_tokens b \<and> bt_tokens b \<le> of_int (lm_capacity l) \<and> bt_last_refill b \<le> now \<and>
        bt_expires b = bt_last_refill b + of_int (ttl_seconds l))"

definition level :: "limiter \<Rightarrow> string \<Rightarrow> redis \<Rightarrow> rat \<Rightarrow> rat" where
  "level l key rd now = refilled l (live_bucket rd key now) now"

lemma refill_rate_pos: "limiter_ok l \<Longrightarrow> 0 < refill_rate l"
  by (simp add: limiter_ok_def refill_rate_def)

lemma rate_window: "limiter_ok l \<Longrightarrow> refill_rate l * of_int (lm_window l) = of_int (lm_capacity l)"
  by (simp add: limiter_ok_def refill_rate_def)

lemma level_bounds:
  assumes "limiter_ok l" "bucket_ok l key now rd"
  shows "0 \<le> level l key rd now" "level l key rd now \<le> of_int (lm_capacity l)"
  using assms refill_rate_pos[OF assms(1)]
  by (auto simp: level_def refilled_def live_bucket_def bucket_ok_def limiter_ok_def
      split: option.splits)

lemma check_step:
  assumes "token_bucket_lua l key now now 1 rd = ((a, w), rd')"
  shows "a \<longleftrightarrow> 1 \<le> level l key rd now"
    and "rd' key = Some \<lparr> bt_tokens = level l key rd now - (if a then 1 else 0),
           bt_last_refill = now, bt_expires = now + of_int (ttl_seconds l) \<rparr>"
    and "\<not> a \<Longrightarrow> 0 < refill_rate l \<Longrightarrow> w = \<lceil>(1 - level l key rd now) / refill_rate l\<rceil>"
  using assms by (auto simp: token_bucket_lua_def Let_def level_def split: if_splits)

lemma check_keeps_ok:
  assumes "limiter_ok l" "bucket_ok l key now rd"
    "token_bucket_lua l key now now 1 rd = ((a, w), rd')" "now \<le> later"
  shows "bucket_ok l key later rd'"
  using check_step(1,2)[OF assms(3)] level_bounds[OF assms(1,2)] assms(4)
  by (auto simp: bucket_ok_def)

text \<open>After a check the level grows at the refill rate, up to the capacity; a bucket that has
  expired is one that would have been full.\<close>

lemma level_later:
  assumes "limiter_ok l" "bucket_ok l key now rd"
    "token_bucket_lua l key now now 1 rd = ((a, w), rd')" "now \<le> later"
  shows "level l key rd' later = min (of_int (lm_capacity l))
    (level l key rd now - (if a then 1 else 0) + (later - now) * refill_rate l)"
proof -
  let ?c = "of_int (lm_capacity l) :: rat" and ?v = "level l key rd now - (if a then 1 else 0)"
  have b: "rd' key = Some \<lparr> bt_tokens = ?v, bt_last_refill = now,
      bt_expires = now + of_int (ttl_seconds l) \<rparr>" by (rule check_step(2)[OF assms(3)])
  have v: "0 \<le> ?v" using check_step(1)[OF assms(3)] level_bounds[OF assms(1,2)] by auto
  show ?thesis
  proof (cases "now + of_int (ttl_seconds l) \<le> later")
    case True
    then have "of_int (lm_window l) * 2 \<le> later - now"
      by (simp add: ttl_seconds_def)
    then have "(of_int (lm_window l) * 2) * refill_rate l \<le> (later - now) * refill_rate l"
      using refill_rate_pos[OF assms(1)] by (simp add: mult_right_mono)
    then have "2 * ?c \<le> (later - now) * refill_rate l"
      using rate_window[OF assms(1)] by (simp add: mult.commute mult.left_commute)
    then have "?c \<le> ?v + (later - now) * refill_rate l"
      using v assms(1) by (simp add: limiter_ok_def)
    then show ?thesis using True b
      by (simp add: level_def refilled_def live_bucket_def min_def)
  next
    case False
    then show ?thesis using b assms(4)
      by (simp add: level_def refilled_def live_bucket_def max_def)
  qed
qed

lemma allowed_within_level:
  assumes "limiter_ok l" "bucket_ok l key t rd" "sorted (t # ts)"
    "checks_on l key (in_step (t # ts)) rd = (as, rd')"
  shows "of_nat (count_if (\<lambda>a. a) as) \<le> level l key rd t + refill_rate l * (last (t # ts) - t)"
  using assms
proof (induction ts arbitrary: t rd as rd')
  case Nil
  then show ?case using level_bounds[OF Nil(1,2)]
    by (auto split: prod.splits dest: check_step(1))
next
  case (Cons u ts)
  obtain a w rd1 where c: "token_bucket_lua l key t t 1 rd = ((a, w), rd1)"
    by (metis prod.exhaust)
  obtain as1 rd2 where r: "checks_on l key (in_step (u # ts)) rd1 = (as1, rd2)" by fastforce
  have as: "as = a # as1" using Cons.prems(4) c r by simp
  have tu: "t \<le> u" "sorted (u # ts)" using Cons.prems(3) by auto
  have ok: "bucket_ok l key u rd1" by (rule check_keeps_ok[OF Cons.prems(1,2) c tu(1)])
  have "of_nat (count_if (\<lambda>a. a) as1) \<le> level l key rd1 u + refill_rate l * (last (u # ts) - u)"
    by (rule Cons.IH[OF Cons.prems(1) ok tu(2) r])
  also have "\<dots> \<le> level l key rd t - (if a then 1 else 0) + (u - t) * refill_rate l
      + refill_rate l * (last (u # ts) - u)"
    unfolding level_later[OF Cons.prems(1,2) c tu(1)] by simp
  finally have bound: "of_nat (count_if (\<lambda>a. a) as1) \<le> level l key rd t - (if a then 1 else 0)
      + (u - t) * refill_rate l + refill_rate l * (last (u # ts) - u)" .
  define x where "x = last (u # ts)"
  have "last (t # u # ts) = x" by (simp add: x_def)
  then show ?case using bound unfolding x_def[symmetric] by (cases a) (simp_all add: as algebra_simps)
qed

section \<open>Properties\<close>

text \<open>C39: on a clock that does not go back, the requests of one principal that a bucket allows in
  any stretch of time are at most its capacity plus what the refill rate adds in that time,
  whatever the earlier checks left in the bucket and whether or not its key expired.\<close>

theorem token_bucket_limits_any_stretch:
  assumes "limiter_ok l" "bucket_ok l key t rd" "sorted (t # ts)"
    "checks_on l key (in_step (t # ts)) rd = (as, rd')"
  shows "of_nat (count_if (\<lambda>a. a) as) \<le> of_int (lm_capacity l) + refill_rate l * (last (t # ts) - t)"
  using allowed_within_level[OF assms] level_bounds(2)[OF assms(1,2)] by simp

text \<open>The advertised wait is exact in whole seconds: a refused request is allowed when it is
  repeated that many seconds later, and still refused more than one second before that.\<close>

theorem retry_after_is_exact:
  assumes "limiter_ok l" "bucket_ok l key now rd"
    "token_bucket_lua l key now now 1 rd = ((False, w), rd')" "now \<le> later"
  shows "0 < w \<and> (now + of_int w \<le> later \<longrightarrow> fst (fst (token_bucket_lua l key later later 1 rd'))) \<and>
    (later \<le> now + of_int (w - 1) \<longrightarrow> \<not> fst (fst (token_bucket_lua l key later later 1 rd')))"
proof -
  let ?v = "level l key rd now" and ?r = "refill_rate l"
  have r: "0 < ?r" by (rule refill_rate_pos[OF assms(1)])
  have v: "0 \<le> ?v" "?v < 1" using level_bounds[OF assms(1,2)] check_step(1)[OF assms(3)] by auto
  have w: "w = \<lceil>(1 - ?v) / ?r\<rceil>" using check_step(3)[OF assms(3)] r by simp
  have pos: "0 < (1 - ?v) / ?r" using r v by simp
  have lv: "level l key rd' later = min (of_int (lm_capacity l)) (?v + (later - now) * ?r)"
    using level_later[OF assms(1-4)] by simp
  have a: "fst (fst (token_bucket_lua l key later later 1 rd')) \<longleftrightarrow> 1 \<le> level l key rd' later"
    using check_step(1) by (metis prod.collapse)
  have cap: "1 \<le> (of_int (lm_capacity l) :: rat)" using assms(1) by (simp add: limiter_ok_def)
  have iff: "1 \<le> level l key rd' later \<longleftrightarrow> (1 - ?v) / ?r \<le> later - now"
    unfolding lv pos_divide_le_eq[OF r] using cap by auto
  have "0 < w" unfolding w using pos by (simp add: less_ceiling_iff)
  moreover have "1 \<le> level l key rd' later" if "now + of_int w \<le> later"
    unfolding iff using that le_of_int_ceiling[of "(1 - ?v) / ?r"] unfolding w by linarith
  moreover have "\<not> 1 \<le> level l key rd' later" if "later \<le> now + of_int (w - 1)"
    unfolding iff using that ceiling_correct[of "(1 - ?v) / ?r"] unfolding w by linarith
  ultimately show ?thesis unfolding a by blast
qed

text \<open>The limit rests on that clock. When two application processes whose clocks differ by a
  time in which two tokens come in take turns, nothing is ever refused, however many requests come
  at one instant: the earlier clock sets the refill time back and the later one is credited again.\<close>

theorem diverging_clocks_lift_the_limit:
  assumes "limiter_ok l" "2 \<le> lm_capacity l" "2 \<le> \<delta> * refill_rate l"
    "case rd key of None \<Rightarrow> True
     | Some b \<Rightarrow> 0 \<le> bt_tokens b \<and> bt_last_refill b = s \<and> s < bt_expires b"
  shows "list_all (\<lambda>a. a) (fst (checks_on l key (concat (replicate n [(s, s + \<delta>), (s, s)])) rd))"
  using assms(4)
proof (induction n arbitrary: rd)
  case (Suc n)
  have pos: "0 < refill_rate l" by (rule refill_rate_pos[OF assms(1)])
  have "0 < \<delta> * refill_rate l" using assms(3) by linarith
  then have d: "0 < \<delta>" using pos by (rule zero_less_mult_pos2)
  have ttl: "0 < (of_int (ttl_seconds l) :: rat)" using assms(1) by (simp add: limiter_ok_def ttl_seconds_def)
  obtain a w rd1 where c1: "token_bucket_lua l key s (s + \<delta>) 1 rd = ((a, w), rd1)"
    by (metis prod.exhaust)
  have two: "2 \<le> refilled l (live_bucket rd key s) (s + \<delta>)"
    using Suc.prems assms(2,3) d
    by (auto simp: refilled_def live_bucket_def split: option.splits)
  have a: "a" "rd1 key = Some \<lparr> bt_tokens = refilled l (live_bucket rd key s) (s + \<delta>) - 1,
      bt_last_refill = s + \<delta>, bt_expires = s + of_int (ttl_seconds l) \<rparr>"
    using c1 two by (auto simp: token_bucket_lua_def Let_def)
  obtain a' w' rd2 where c2: "token_bucket_lua l key s s 1 rd1 = ((a', w'), rd2)"
    by (metis prod.exhaust)
  have one: "1 \<le> refilled l (live_bucket rd1 key s) s"
    using two a(2) ttl d assms(2) by (simp add: refilled_def live_bucket_def max_def)
  have a': "a'" "rd2 key = Some \<lparr> bt_tokens = refilled l (live_bucket rd1 key s) s - 1,
      bt_last_refill = s, bt_expires = s + of_int (ttl_seconds l) \<rparr>"
    using c2 one by (auto simp: token_bucket_lua_def Let_def)
  have "list_all (\<lambda>a. a) (fst (checks_on l key (concat (replicate n [(s, s + \<delta>), (s, s)])) rd2))"
    by (rule Suc.IH) (use a'(2) one ttl in simp)
  then show ?case using c1 c2 a(1) a'(1) by (auto split: prod.splits)
qed simp

text \<open>A booking is never refused because Redis is unavailable: when it cannot be asked or its
  answer is lost both throttles let the request through; other methods are never throttled.\<close>

theorem throttles_fail_open:
  assumes "h \<noteq> Redis_up \<or> verb \<noteq> ''POST''"
  shows "th_allowed (fst (principal_allow_request enabled verb user h sn now rd)) \<and>
    th_allowed (fst (per_ip_allow_request enabled verb ip h sn now rd))"
  using assms
  by (cases h) (auto simp: principal_allow_request_def per_ip_allow_request_def check_bucket_def
      answer_of_def pass_def split: option.splits prod.splits)

section \<open>Witnesses\<close>

lemma booking_limiter_ok: "limiter_ok booking_create_limiter"
  by (simp add: limiter_ok_def booking_create_limiter_def RATE_LIMIT_BOOKING_CREATE_CAPACITY_def
      RATE_LIMIT_BOOKING_CREATE_WINDOW_SECONDS_def)

text \<open>Twelve requests within a second: ten pass, two are refused.\<close>

theorem token_bucket_limits_any_stretch_witness:
  "\<exists>as rd'. checks_on booking_create_limiter ''k'' (in_step (0 # replicate 11 1)) (\<lambda>_. None) = (as, rd') \<and>
     of_nat (count_if (\<lambda>a. a) as) \<le> (10 + 1 / 6 :: rat)"
proof -
  obtain as rd' where c: "checks_on booking_create_limiter ''k'' (in_step (0 # replicate 11 1))
      (\<lambda>_. None) = (as, rd')" by fastforce
  have "bucket_ok booking_create_limiter ''k'' 0 (\<lambda>_. None)" by (simp add: bucket_ok_def)
  from token_bucket_limits_any_stretch[OF booking_limiter_ok this _ c] show ?thesis
    using c by (auto simp: booking_create_limiter_def refill_rate_def
        RATE_LIMIT_BOOKING_CREATE_CAPACITY_def RATE_LIMIT_BOOKING_CREATE_WINDOW_SECONDS_def)
qed

definition drained :: redis where
  "drained = (\<lambda>_. Some \<lparr> bt_tokens = 0, bt_last_refill = 0, bt_expires = 120 \<rparr>)"

theorem retry_after_is_exact_witness:
  "\<exists>rd'. token_bucket_lua booking_create_limiter ''k'' 0 0 1 drained = ((False, 6), rd') \<and>
     fst (fst (token_bucket_lua booking_create_limiter ''k'' 6 6 1 rd')) \<and>
     \<not> fst (fst (token_bucket_lua booking_create_limiter ''k'' 5 5 1 rd'))"
proof -
  have ok: "bucket_ok booking_create_limiter ''k'' 0 drained"
    by (simp add: bucket_ok_def drained_def ttl_seconds_def booking_create_limiter_def
        RATE_LIMIT_BOOKING_CREATE_CAPACITY_def RATE_LIMIT_BOOKING_CREATE_WINDOW_SECONDS_def)
  obtain rd' where c: "token_bucket_lua booking_create_limiter ''k'' 0 0 1 drained = ((False, 6), rd')"
    by (simp add: token_bucket_lua_def Let_def refilled_def live_bucket_def drained_def refill_rate_def
        booking_create_limiter_def RATE_LIMIT_BOOKING_CREATE_CAPACITY_def
        RATE_LIMIT_BOOKING_CREATE_WINDOW_SECONDS_def)
  show ?thesis
    using c retry_after_is_exact[OF booking_limiter_ok ok c, of 6]
      retry_after_is_exact[OF booking_limiter_ok ok c, of 5] by auto
qed

theorem diverging_clocks_lift_the_limit_witness:
  "list_all (\<lambda>a. a) (fst (checks_on booking_create_limiter ''k''
     (concat (replicate 1000 [(0, 12), (0, 0)])) (\<lambda>_. None)))"
  using diverging_clocks_lift_the_limit[OF booking_limiter_ok, where \<delta> = 12 and rd = "\<lambda>_. None"
      and key = "''k''" and s = 0 and n = 1000]
  by (simp add: booking_create_limiter_def refill_rate_def RATE_LIMIT_BOOKING_CREATE_CAPACITY_def
      RATE_LIMIT_BOOKING_CREATE_WINDOW_SECONDS_def)

theorem throttles_fail_open_witness:
  "th_allowed (fst (principal_allow_request True ''POST'' (Some 1) Redis_down 0 0 drained)) \<and>
   \<not> th_allowed (fst (principal_allow_request True ''POST'' (Some 1) Redis_up 0 0 drained))"
proof
  show "th_allowed (fst (principal_allow_request True ''POST'' (Some 1) Redis_down 0 0 drained))"
    using throttles_fail_open[of Redis_down "''POST''"] by simp
  show "\<not> th_allowed (fst (principal_allow_request True ''POST'' (Some 1) Redis_up 0 0 drained))"
    by (simp add: principal_allow_request_def check_bucket_def answer_of_def token_bucket_lua_def
        Let_def refilled_def live_bucket_def drained_def refill_rate_def booking_create_limiter_def
        RATE_LIMIT_BOOKING_CREATE_CAPACITY_def RATE_LIMIT_BOOKING_CREATE_WINDOW_SECONDS_def)
qed

end
