(* ===== verification/Api.thy ===== *)
theory Api
  imports Authorization Idempotency Uuids Keyset Pagination Rate_Limit
begin

text \<open>
  What the endpoints share: the request as a view sees it, the \<open>Idempotency-Key\<close> header, the body
  that is fingerprinted, the answer of a protected write, and the translation of an exception into
  a response (\<open>core/views.py\<close>, \<open>core/error_handlers.py\<close> and the helpers that the view modules
  repeat).

  The framework parses a request body into JSON, validates the declared fields of a serializer and
  formats instants: \<open>drf\<close> holds these functions as parameters.  A view is a function on the
  database like a service; what it raises goes through the exception handler.
\<close>

section \<open>Requests and replies\<close>

record request =
  rq_user :: app_user
  rq_key_header :: "string option"
  rq_request_id :: string
  rq_data :: json

record reply =
  re_status :: int
  re_body :: json
  re_replay :: bool          \<comment> \<open>\<open>Idempotent-Replay: true\<close>\<close>

text \<open>The validated fields of each serializer, or the error details.\<close>

record preview_fields =
  pf_resource :: uuid
  pf_timezone :: string
  pf_local_start :: time_of_day
  pf_local_end :: time_of_day
  pf_weekday :: int
  pf_start_date :: date
  pf_count :: int

record drf =
  df_time :: "instant \<Rightarrow> string"
  df_clock :: "time_of_day \<Rightarrow> string"
  df_slot :: "json \<Rightarrow> json + (uuid \<times> instant \<times> instant)"       \<comment> \<open>\<open>resource_id\<close>, \<open>start\<close>, \<open>end\<close>\<close>
  df_range :: "json \<Rightarrow> json + (instant \<times> instant)"            \<comment> \<open>\<open>start\<close>, \<open>end\<close>\<close>
  df_reason :: "json \<Rightarrow> json + string option"                \<comment> \<open>optional \<open>reason\<close>\<close>
  df_required_reason :: "json \<Rightarrow> json + string"
  df_preview :: "json \<Rightarrow> json + preview_fields"
  df_confirm :: "json \<Rightarrow> json + (string \<times> date list \<times> date list)"
  df_user_id :: "json \<Rightarrow> json + uuid"

definition valid :: "json + 'a \<Rightarrow> 'a svc" where
  "valid v = (case v of Inl details \<Rightarrow> raise (DRFValidationError details) | Inr x \<Rightarrow> ret x)"

definition lift :: "exn + 'a \<Rightarrow> 'a svc" where
  "lift v = (case v of Inl e \<Rightarrow> raise e | Inr x \<Rightarrow> ret x)"

text \<open>\<open>get(...)\<close> whose \<open>DoesNotExist\<close> becomes \<open>NotFoundError\<close>.\<close>

definition get_or_404 :: "(db \<Rightarrow> 'r list) \<Rightarrow> ('r \<Rightarrow> bool) \<Rightarrow> 'r svc" where
  "get_or_404 get P d = (case find P (get d) of None \<Rightarrow> (Inl NotFoundError, d) | Some r \<Rightarrow> (Inr r, d))"

definition ensure :: "bool \<Rightarrow> exn \<Rightarrow> unit svc" where
  "ensure b e = (if b then ret () else raise e)"

text \<open>A value that views read from the database without changing it.\<close>

definition ensure_db :: "(db \<Rightarrow> bool) \<Rightarrow> exn \<Rightarrow> unit svc" where
  "ensure_db P e d = (if P d then (Inr (), d) else (Inl e, d))"

section \<open>Protected writes\<close>

definition require_idempotency_key :: "request \<Rightarrow> uuid svc" where
  "require_idempotency_key rq = (case rq_key_header rq of
      None \<Rightarrow> raise (PolicyValidationError ''Idempotency-Key'' ''header is required'')
    | Some text \<Rightarrow>
        if text = '''' then raise (PolicyValidationError ''Idempotency-Key'' ''header is required'')
        else (case parse_uuid text of
            None \<Rightarrow> raise (PolicyValidationError ''Idempotency-Key'' ''must be a valid UUID'')
          | Some key \<Rightarrow> ret key))"

text \<open>\<open>dict(request.data)\<close>: an object as it is, a list only when every element is a pair (a
  two-character string and an object with two keys are pairs as well).\<close>

fun pair_of_json :: "json \<Rightarrow> (string \<times> json) option" where
  "pair_of_json (JArr [JStr k, v]) = Some (k, v)"
| "pair_of_json (JStr [a, b]) = Some ([a], JStr [b])"
| "pair_of_json (JObj [(k, v), (k', v')]) = Some (k, JStr k')"
| "pair_of_json _ = None"

definition put :: "string \<Rightarrow> json \<Rightarrow> (string \<times> json) list \<Rightarrow> (string \<times> json) list" where
  "put k v ps = (if k \<in> fst ` set ps then map (\<lambda>p. if fst p = k then (k, v) else p) ps else ps @ [(k, v)])"

definition dict_of_data :: "json \<Rightarrow> (string \<times> json) list svc" where
  "dict_of_data data = (case data of
      JObj ps \<Rightarrow> ret ps
    | JArr vs \<Rightarrow> (if list_all (\<lambda>v. pair_of_json v \<noteq> None) vs
        then ret (fold (\<lambda>(k, v). put k v) (List.map_filter pair_of_json vs) [])
        else raise (TypeError ''cannot convert dictionary update sequence''))
    | JStr s \<Rightarrow> if s = '''' then ret [] else raise (ValueError ''dictionary update sequence'')
    | _ \<Rightarrow> raise (TypeError ''object is not iterable''))"

text \<open>\<open>{"booking_id": str(pk), **dict(request.data)}\<close>.\<close>

definition with_id :: "string \<Rightarrow> uuid \<Rightarrow> (string \<times> json) list \<Rightarrow> json" where
  "with_id name pk ps = JObj (fold (\<lambda>(k, v). put k v) ps [(name, JStr (uuid_text pk))])"

definition to_reply :: "write_result \<Rightarrow> reply" where
  "to_reply r = \<lparr> re_status = ir_status r, re_body = ir_body r, re_replay = ir_is_replay r \<rparr>"

definition write_request_of ::
  "request \<Rightarrow> uuid \<Rightarrow> string \<Rightarrow> json \<Rightarrow> actor_type \<Rightarrow> string option \<Rightarrow> write_request" where
  "write_request_of rq key endpoint body actor reason =
     \<lparr> iq_user = au_id (rq_user rq), iq_key = key, iq_endpoint = endpoint, iq_body = body,
       iq_request_id = Some (rq_request_id rq), iq_actor_type = actor, iq_reason = reason \<rparr>"

definition answer_write :: "env \<Rightarrow> write_request \<Rightarrow> (int \<times> json) svc \<Rightarrow> reply svc" where
  "answer_write env wr perform_write =
     bind_svc (run_idempotent_write env wr perform_write) (\<lambda>r. ret (to_reply r))"

text \<open>A header or query parameter that is present and not empty.\<close>

definition given :: "string option \<Rightarrow> string option" where
  "given v = (case v of None \<Rightarrow> None | Some t \<Rightarrow> if t = '''' then None else Some t)"

definition plain_reply :: "int \<Rightarrow> json \<Rightarrow> reply" where
  "plain_reply st b = \<lparr> re_status = st, re_body = b, re_replay = False \<rparr>"

section \<open>Rendering\<close>

definition opt_uuid :: "uuid option \<Rightarrow> json" where
  "opt_uuid v = (case v of None \<Rightarrow> JNull | Some u \<Rightarrow> JStr (uuid_text u))"

definition opt_json :: "('a \<Rightarrow> json) \<Rightarrow> 'a option \<Rightarrow> json" where
  "opt_json f v = (case v of None \<Rightarrow> JNull | Some x \<Rightarrow> f x)"

fun booking_status_text :: "booking_status \<Rightarrow> string" where
  "booking_status_text Confirmed = ''confirmed''"
| "booking_status_text Held = ''held''"
| "booking_status_text Cancelled = ''cancelled''"

text \<open>\<open>dt.isoformat().replace("+00:00", "Z")\<close>.\<close>

definition iso_z :: "instant \<Rightarrow> string" where
  "iso_z t = iso_date (t div day) @ ''T'' @ iso_time (t mod day) @ ''Z''"

section \<open>From an exception to a response\<close>

definition handler500 :: "string option \<Rightarrow> http_response" where
  "handler500 request_id = error_response 500 ''internal_error'' ''An unexpected error occurred.'' None request_id"

definition handler404 :: "string option \<Rightarrow> http_response" where
  "handler404 request_id =
     error_response 404 ''not_found'' ''The requested resource was not found.'' None request_id"

section \<open>How a view goes on\<close>

lemma get_or_404_cases:
  obtains (none) "find P (get d) = None" "get_or_404 get P d = (Inl NotFoundError, d)"
  | (some) r where "find P (get d) = Some r" "get_or_404 get P d = (Inr r, d)"
  by (cases "find P (get d)") (auto simp: get_or_404_def)

lemma get_or_404_found [simp]: "find P (get d) = Some r \<Longrightarrow> get_or_404 get P d = (Inr r, d)"
  by (simp add: get_or_404_def)

lemma get_or_404_missing [simp]: "find P (get d) = None \<Longrightarrow> get_or_404 get P d = (Inl NotFoundError, d)"
  by (simp add: get_or_404_def)

lemma ensure_simps [simp]:
  "b \<Longrightarrow> ensure b e d = (Inr (), d)" "\<not> b \<Longrightarrow> ensure b e d = (Inl e, d)"
  "P d \<Longrightarrow> ensure_db P e d = (Inr (), d)" "\<not> P d \<Longrightarrow> ensure_db P e d = (Inl e, d)"
  by (simp_all add: ensure_def ensure_db_def)

lemma lift_simps [simp]: "lift (Inr x) d = (Inr x, d)" "lift (Inl e) d = (Inl e, d)"
  by (simp_all add: lift_def)

lemma valid_simps [simp]: "valid (Inr x) d = (Inr x, d)" "valid (Inl e) d = (Inl (DRFValidationError e), d)"
  by (simp_all add: valid_def)

text \<open>The reads of a view leave the database alone.\<close>

definition pure_svc :: "'a svc \<Rightarrow> bool" where
  "pure_svc m = (\<forall>d. snd (m d) = d)"

named_theorems pure_intros \<open>steps that only read\<close>

lemma pure_ret [pure_intros]: "pure_svc (ret x)" and pure_raise [pure_intros]: "pure_svc (raise e)"
  and pure_query [pure_intros]: "pure_svc (query f)" and pure_lift [pure_intros]: "pure_svc (lift v)"
  and pure_valid [pure_intros]: "pure_svc (valid w)" and pure_ensure [pure_intros]: "pure_svc (ensure b e)"
  and pure_ensure_db [pure_intros]: "pure_svc (ensure_db P e)"
  and pure_get [pure_intros]: "pure_svc (get_or_404 get Q)"
  and pure_key [pure_intros]: "pure_svc (require_idempotency_key rq)"
  and pure_dict [pure_intros]: "pure_svc (dict_of_data data)"
  by (auto simp: pure_svc_def ret_def raise_def query_def lift_def valid_def ensure_def ensure_db_def
      get_or_404_def require_idempotency_key_def dict_of_data_def split: sum.splits option.splits
      json.splits)

lemma pure_bind [pure_intros]:
  "pure_svc m \<Longrightarrow> (\<And>x. pure_svc (f x)) \<Longrightarrow> pure_svc (bind_svc m f)"
  by (auto simp: pure_svc_def bind_svc_def split: prod.splits sum.splits) (metis snd_conv)+

lemma pure_then [pure_intros]: "pure_svc m \<Longrightarrow> pure_svc k \<Longrightarrow> pure_svc (then_svc m k)"
  unfolding then_svc_def by (rule pure_bind)

lemma pure_get_row [pure_intros]: "pure_svc (get_row get P)"
  by (auto simp: pure_svc_def get_row_def split: option.splits)

lemma pure_svcD: "pure_svc m \<Longrightarrow> m d = (r, d') \<Longrightarrow> d' = d"
  by (metis pure_svc_def snd_conv)

lemma pure_bind_cases:
  assumes "bind_svc m f d = (r, d')" "pure_svc m"
  obtains (err) e where "m d = (Inl e, d)" "r = Inl e" "d' = d"
  | (val) x where "m d = (Inr x, d)" "f x d = (r, d')"
  using assms(1)
proof (cases rule: bind_svc_cases)
  case (err e)
  then show ?thesis using that(1) pure_svcD[OF assms(2)] by blast
next
  case (val x d1)
  then show ?thesis using that(2) pure_svcD[OF assms(2)] by blast
qed

lemma pure_then_cases:
  assumes "then_svc m k d = (r, d')" "pure_svc m"
  obtains (err) e where "m d = (Inl e, d)" "r = Inl e" "d' = d"
  | (val) x where "m d = (Inr x, d)" "k d = (r, d')"
  using assms unfolding then_svc_def by (elim pure_bind_cases) auto

lemma safe_pure: "pure_svc m \<Longrightarrow> safe m"
  by (auto simp: pure_svc_def safe_def keeps_def)

lemma safe_answer_write:
  assumes "keeps tx_ok w"
  shows "safe (answer_write env wr w)"
  unfolding answer_write_def by (intro inv_intros assms)

end
