(* ===== verification/Metrics.thy ===== *)
theory Metrics
  imports Checks Api "HOL-Library.AList"
begin

text \<open>
  \<open>core/metrics.py\<close> and the \<open>MetricsMiddleware\<close> of \<open>core/middleware.py\<close>: one row per request, and
  the rates and percentiles computed from those rows over a sliding window.  A rate or percentile
  is an exact rational here; \<open>float_json\<close> is how the server renders the double.
\<close>

section \<open>One row per request\<close>

definition booking_write_path_markers :: "string list" where
  "booking_write_path_markers = [''/bookings'', ''/recurring-series'', ''/waitlist-offers'']"

definition classify_metric_type :: "string \<Rightarrow> string \<Rightarrow> int \<Rightarrow> metric_type" where
  "classify_metric_type path verb status_code =
     (if status_code = 429 then Rate_limited
      else if status_code = 401 then Auth_failure
      else if verb = ''GET'' \<and> text_contains ''/availability'' path then Availability_read
      else if verb \<in> {''POST'', ''PATCH''} \<and>
              list_ex (\<lambda>marker. text_contains marker path) booking_write_path_markers
      then Booking_write
      else Other_metric)"

definition record_request_metric ::
  "env \<Rightarrow> metric_type \<Rightarrow> string \<Rightarrow> string \<Rightarrow> int \<Rightarrow> int option \<Rightarrow> string option \<Rightarrow> uuid option
     \<Rightarrow> unit svc" where
  "record_request_metric env ty verb path status_code duration_ms c who =
     run_stmt env OnMetric (\<lambda>d. (Inr (), d\<lparr> metrics := metrics d @
       [\<lparr> rm_type = ty, rm_method = verb, rm_path = path, rm_status = status_code,
          rm_duration_ms = duration_ms, rm_cause = c, rm_principal = who,
          rm_recorded_at = ev_db_now env \<rparr>] \<rparr>))"

text \<open>\<open>int(x * 1000)\<close> for an elapsed time, which cuts towards zero.\<close>

definition duration_ms :: "instant \<Rightarrow> instant \<Rightarrow> int" where
  "duration_ms started ended =
     (if started \<le> ended then (ended - started) div 1000 else - ((started - ended) div 1000))"

text \<open>The middleware around a call that gave a response: its status and the cause the exception
  handler left on it.\<close>

definition metrics_middleware ::
  "env \<Rightarrow> instant \<Rightarrow> string \<Rightarrow> string \<Rightarrow> uuid option \<Rightarrow> int \<times> string option \<Rightarrow> unit svc" where
  "metrics_middleware env started verb path who answer =
     record_request_metric env (classify_metric_type path verb (fst answer)) verb path (fst answer)
       (Some (duration_ms started (ev_py_now env))) (snd answer) who"

section \<open>Reads over the window\<close>

definition recent :: "instant \<Rightarrow> int \<Rightarrow> db \<Rightarrow> request_metric list" where
  "recent now window d = filter (\<lambda>m. now - window * second \<le> rm_recorded_at m) (metrics d)"

text \<open>PostgreSQL's \<open>percentile_cont\<close>: the two neighbours of the position, interpolated.\<close>

definition percentile_cont :: "rat \<Rightarrow> int list \<Rightarrow> rat option" where
  "percentile_cont p xs = (if xs = [] then None else
     let ys = sort xs; pos = p * of_nat (length ys - 1); i = nat \<lfloor>pos\<rfloor>; j = nat \<lceil>pos\<rceil>
     in Some (of_int (ys ! i) + (pos - of_nat i) * of_int (ys ! j - ys ! i)))"

definition p95_duration_ms :: "instant \<Rightarrow> metric_type \<Rightarrow> db \<Rightarrow> rat option" where
  "p95_duration_ms now ty d = percentile_cont (95 / 100)
     (List.map_filter rm_duration_ms
        (filter (\<lambda>m. rm_type m = ty) (recent now METRICS_WINDOW_SECONDS d)))"

text \<open>\<open>{(row["cause"] or "unknown"): row["count"] for row in rows}\<close>.\<close>

definition cause_label :: "string option \<Rightarrow> string" where
  "cause_label c = (case c of None \<Rightarrow> ''unknown'' | Some t \<Rightarrow> if t = '''' then ''unknown'' else t)"

definition count_by_cause :: "request_metric list \<Rightarrow> (string \<times> nat) list" where
  "count_by_cause rows = fold (\<lambda>c. AList.update (cause_label c) (count_if (\<lambda>m. rm_cause m = c) rows))
     (remdups (map rm_cause rows)) []"

definition counts_json :: "(string \<times> nat) list \<Rightarrow> json" where
  "counts_json ps = JObj (map (\<lambda>(k, n). (k, JNum (int n))) ps)"

definition rate :: "nat \<Rightarrow> nat \<Rightarrow> rat" where
  "rate n m = (if m = 0 then 0 else of_nat n / of_nat m)"

definition error_rate_by_cause :: "(rat \<Rightarrow> json) \<Rightarrow> instant \<Rightarrow> db \<Rightarrow> json" where
  "error_rate_by_cause float_json now d =
     (let rows = recent now METRICS_WINDOW_SECONDS d;
          by_cause = count_by_cause (filter (\<lambda>m. rm_status m = 503) rows);
          total_503 = sum_list (map snd by_cause)
      in JObj [(''window_seconds'', JNum METRICS_WINDOW_SECONDS),
           (''total_requests'', JNum (int (length rows))), (''total_503'', JNum (int total_503)),
           (''rate'', float_json (rate total_503 (length rows))), (''by_cause'', counts_json by_cause)])"

definition auth_failure_rate_by_shape :: "instant \<Rightarrow> db \<Rightarrow> json" where
  "auth_failure_rate_by_shape now d =
     (let by_shape = count_by_cause (filter (\<lambda>m. rm_type m = Auth_failure)
            (recent now METRICS_WINDOW_SECONDS d))
      in JObj [(''window_seconds'', JNum METRICS_WINDOW_SECONDS),
           (''total'', JNum (int (sum_list (map snd by_shape)))), (''by_shape'', counts_json by_shape)])"

text \<open>The broker answers a ping or the connection fails.\<close>

definition redis_availability :: "redis_health \<Rightarrow> bool" where
  "redis_availability h = (h = Redis_up)"

definition idempotency_key_stats :: "db \<Rightarrow> json" where
  "idempotency_key_stats d =
     (let hb = find (\<lambda>h. oh_name h = ''idempotency_cleanup'') (heartbeats d)
      in JObj [(''total_keys'', JNum (int (length (keys d)))),
           (''cleanup_last_run_at'', opt_json (\<lambda>h. JStr (iso_z (oh_last_run_at h))) hb),
           (''cleanup_findings'', opt_json oh_findings hb)])"

definition audit_actor_unknown_since :: "instant \<Rightarrow> db \<Rightarrow> nat" where
  "audit_actor_unknown_since cutoff d =
     count_if (\<lambda>a. al_actor_type a = Actor_unknown \<and> cutoff \<le> al_occurred_at a) (audit d)"

definition audit_actor_unknown_count :: "instant \<Rightarrow> db \<Rightarrow> nat" where
  "audit_actor_unknown_count now = audit_actor_unknown_since (now - METRICS_WINDOW_SECONDS * second)"

definition top_principals :: "request_metric list \<Rightarrow> (uuid \<times> nat) list" where
  "top_principals limited = take 10 (order_by (\<lambda>a b. snd b \<le> snd a)
     (map (\<lambda>p. (p, count_if (\<lambda>m. rm_principal m = Some p) limited))
        (remdups (List.map_filter rm_principal limited))))"

definition rate_limit_metric_slot :: "(rat \<Rightarrow> json) \<Rightarrow> instant \<Rightarrow> db \<Rightarrow> json" where
  "rate_limit_metric_slot float_json now d =
     (let rows = recent now METRICS_WINDOW_SECONDS d; limited = filter (\<lambda>m. rm_status m = 429) rows
      in JObj [(''available'', JBool True), (''window_seconds'', JNum METRICS_WINDOW_SECONDS),
           (''total_requests'', JNum (int (length rows))), (''total_429'', JNum (int (length limited))),
           (''rate'', float_json (rate (length limited) (length rows))),
           (''by_cause'', counts_json (count_by_cause limited)),
           (''top_principals'', JArr (map (\<lambda>(p, n). JObj [(''principal_id'', JStr (uuid_text p)),
              (''count'', JNum (int n))]) (top_principals limited)))])"

definition prune_old_request_metrics :: "env \<Rightarrow> nat svc" where
  "prune_old_request_metrics env = run_stmt env OnMetric (\<lambda>d.
     let old = (\<lambda>m. rm_recorded_at m < ev_py_now env - REQUEST_METRIC_RETENTION_HOURS * hour)
     in (Inr (count_if old (metrics d)), d\<lparr> metrics := del_rows old (metrics d) \<rparr>))"

lemma safe_metrics [inv_intros]:
  "safe (record_request_metric env ty verb path st ms c p)" "safe (prune_old_request_metrics env)"
  by (auto simp: safe_def keeps_def record_request_metric_def prune_old_request_metrics_def
      run_stmt_def Let_def split: option.splits)

end
