(* ===== verification/Alerting.thy ===== *)
theory Alerting
  imports Metrics Waitlist_Services Series_Tasks Notifications
begin

text \<open>
  \<open>core/alerting.py\<close> and its tasks in \<open>core/tasks.py\<close>: eight signals read from what the other parts
  already write, each fired and resolved on its own, at most one open alert per key, one mail per
  firing.  The mail backend is a parameter, as in \<open>Notifications\<close>; so is the text of the identity
  column of \<open>audit_log\<close>, which no other part reads.
\<close>

section \<open>Firing and resolving\<close>

fun ALERT_SEVERITY :: "alert_key \<Rightarrow> alert_severity" where
  "ALERT_SEVERITY (Alert_check Schema_assertion) = Sev_1"
| "ALERT_SEVERITY (Alert_check Reconciliation) = Sev_1"
| "ALERT_SEVERITY (Alert_check Hold_reaper) = Sev_2"
| "ALERT_SEVERITY (Alert_check Offer_cascade) = Sev_2"
| "ALERT_SEVERITY (Alert_check Series_materialization) = Sev_2"
| "ALERT_SEVERITY (Alert_check Tzdata_rematerialization) = Sev_2"
| "ALERT_SEVERITY Audit_actor_unknown = Sev_3"
| "ALERT_SEVERITY Gist_write_throughput = Sev_3"

definition open_alert :: "alert_key \<Rightarrow> alert_event \<Rightarrow> bool" where
  "open_alert k a = (av_key a = k \<and> av_resolved_at a = None)"

definition new_alert :: "env \<Rightarrow> alert_key \<Rightarrow> string \<Rightarrow> json \<Rightarrow> alert_event" where
  "new_alert env k message context = \<lparr> av_id = ev_uuid env, av_key = k,
     av_severity = ALERT_SEVERITY k, av_message = message, av_context = context,
     av_fired_at = ev_db_now env, av_resolved_at = None, av_email_status = Pending,
     av_email_attempts = 0, av_email_last_error = None, av_email_sent_at = None \<rparr>"

definition resolve_alert :: "env \<Rightarrow> alert_event \<Rightarrow> nat svc" where
  "resolve_alert env e = autocommit env (update_alerts env (\<lambda>a. av_id a = av_id e)
     (\<lambda>a. a\<lparr> av_resolved_at := Some (ev_py_now env) \<rparr>))"

definition dispatch_alert_email :: "env \<Rightarrow> alert_event \<Rightarrow> unit svc" where
  "dispatch_alert_email env e = send_now env (AlertEmailTask (av_id e))"

definition fire_or_resolve ::
  "env \<Rightarrow> alert_key \<Rightarrow> bool \<Rightarrow> string \<Rightarrow> json \<Rightarrow> alert_event option svc" where
  "fire_or_resolve env k active message context =
     bind_svc (query (\<lambda>d. find (open_alert k) (alerts d))) (\<lambda>open_event.
       if \<not> active then (case open_event of
            None \<Rightarrow> ret None
          | Some e \<Rightarrow> then_svc (resolve_alert env e) (ret None))
       else if open_event \<noteq> None then ret None
       else bind_svc (autocommit env (insert_alert env (new_alert env k message context))) (\<lambda>event.
            then_svc (dispatch_alert_email env event) (ret (Some event))))"

section \<open>The eight signals\<close>

record signal =
  sg_key :: alert_key
  sg_active :: "db \<Rightarrow> bool"
  sg_message :: "db \<Rightarrow> string"
  sg_context :: "db \<Rightarrow> json"

definition last_failed :: "check_name \<Rightarrow> db \<Rightarrow> bool" where
  "last_failed c d = (case latest_run c d of None \<Rightarrow> False | Some r \<Rightarrow> cr_status r = Check_fail)"

definition latest_findings :: "check_name \<Rightarrow> db \<Rightarrow> json" where
  "latest_findings c d = opt_json cr_findings (latest_run c d)"

fun json_get :: "string \<Rightarrow> json \<Rightarrow> json" where
  "json_get k (JObj ps) = (case map_of ps k of None \<Rightarrow> JNull | Some v \<Rightarrow> v)"
| "json_get k _ = JNull"

definition schema_assertion_signal :: "instant \<Rightarrow> signal" where
  "schema_assertion_signal now =
     \<lparr> sg_key = Alert_check Schema_assertion,
       sg_active = (\<lambda>d. last_failed Schema_assertion d \<or> schema_assertion_heartbeat_is_stale now d),
       sg_message = (\<lambda>d. if last_failed Schema_assertion d then SCHEMA_ASSERTION_FAILURE_MESSAGE
          else ''schema_assertion has not had a successful run in '' @
            int_text SCHEMA_ASSERTION_STALE_THRESHOLD_SECONDS @ ''s.''),
       sg_context = (\<lambda>d. JObj [(''failing'', JBool (last_failed Schema_assertion d)),
          (''stale'', JBool (schema_assertion_heartbeat_is_stale now d)),
          (''findings'', latest_findings Schema_assertion d)]) \<rparr>"

definition reconciliation_signal :: signal where
  "reconciliation_signal =
     \<lparr> sg_key = Alert_check Reconciliation, sg_active = last_failed Reconciliation,
       sg_message = (\<lambda>d. RECONCILIATION_FAILURE_MESSAGE),
       sg_context = (\<lambda>d. JObj [(''overlaps_found'',
          json_get ''overlaps_found'' (latest_findings Reconciliation d))]) \<rparr>"

definition hold_reaper_signal :: "instant \<Rightarrow> signal" where
  "hold_reaper_signal now =
     \<lparr> sg_key = Alert_check Hold_reaper, sg_active = hold_reaper_heartbeat_is_stale now,
       sg_message = (\<lambda>d. ''hold_reaper has not had a successful run in 90s.''),
       sg_context = (\<lambda>d. JObj [(''stale'', JBool (hold_reaper_heartbeat_is_stale now d))]) \<rparr>"

definition offer_cascade_signal :: "instant \<Rightarrow> signal" where
  "offer_cascade_signal now =
     \<lparr> sg_key = Alert_check Offer_cascade,
       sg_active = (\<lambda>d. 0 < length (count_stuck_held_bookings now d)),
       sg_message = (\<lambda>d. ''One or more holds are sitting past expires_at plus grace with no '' @
          ''corresponding offer cascade '' @ em_dash @ '' both reclamation mechanisms '' @
          ''(cleanup-on-write, the reaper) appear to have failed to reach them.''),
       sg_context = (\<lambda>d. JObj
          [(''stuck_held_bookings'', JNum (int (length (count_stuck_held_bookings now d)))),
           (''stuck_booking_ids'', JArr (map (\<lambda>i. JStr (uuid_text i)) (count_stuck_held_bookings now d))),
           (''grace_seconds'', JNum OFFER_CASCADE_STUCK_HOLD_GRACE_SECONDS)]) \<rparr>"

definition series_materialization_signal :: "instant \<Rightarrow> signal" where
  "series_materialization_signal now =
     \<lparr> sg_key = Alert_check Series_materialization,
       sg_active = series_materialization_heartbeat_is_stale now,
       sg_message = (\<lambda>d. ''series_materialization has not had a successful run in 2x its interval.''),
       sg_context = (\<lambda>d. JObj [(''stale'', JBool (series_materialization_heartbeat_is_stale now d))]) \<rparr>"

definition tzdata_rematerialization_signal :: "instant \<Rightarrow> signal" where
  "tzdata_rematerialization_signal now =
     \<lparr> sg_key = Alert_check Tzdata_rematerialization,
       sg_active = (\<lambda>d. last_failed Tzdata_rematerialization d \<or>
          tzdata_rematerialization_heartbeat_is_stale now d),
       sg_message = (\<lambda>d. ''tzdata_rematerialization failed on its last run, or has not run since '' @
          ''the installed tzdata version changed.''),
       sg_context = (\<lambda>d. JObj [(''failing'', JBool (last_failed Tzdata_rematerialization d)),
          (''stale'', JBool (tzdata_rematerialization_heartbeat_is_stale now d)),
          (''findings'', latest_findings Tzdata_rematerialization d)]) \<rparr>"

text \<open>\<open>ident\<close> gives the identity of the row at a position of the trail.\<close>

definition audit_actor_unknown_signal :: "(nat \<Rightarrow> string) \<Rightarrow> instant \<Rightarrow> signal" where
  "audit_actor_unknown_signal ident now =
     (let cutoff = now - AUDIT_ACTOR_UNKNOWN_LOOKBACK_SECONDS * second in
      \<lparr> sg_key = Audit_actor_unknown, sg_active = (\<lambda>d. 0 < audit_actor_unknown_since cutoff d),
        sg_message = (\<lambda>d. ''One or more audit_log rows were written with actor_type='' @
          quoted ''unknown'' @ '' '' @ em_dash @ '' a '' @
          ''write reached the database with no app.actor_type session variable set '' @
          ''(kairos.core.models.AuditActorType docstring: '' @
          quoted ''a write arriving with no actor set is a bug'' @
          ''). Find the writer that bypassed apply_write_path_session_settings.''),
        sg_context = (\<lambda>d. JObj [(''count'', JNum (int (audit_actor_unknown_since cutoff d))),
          (''sample_audit_log_ids'', JArr (map (\<lambda>(i, a). JStr (ident i)) (take 20
             (filter (\<lambda>(i, a). al_actor_type a = Actor_unknown \<and> cutoff \<le> al_occurred_at a)
               (enumerate 0 (audit d))))))]) \<rparr>)"

text \<open>The percentile is read over the window that ends when the query is made.\<close>

definition gist_write_throughput_signal :: "(rat \<Rightarrow> json) \<Rightarrow> instant \<Rightarrow> signal" where
  "gist_write_throughput_signal float_json query_now =
     (let p95 = p95_duration_ms query_now Booking_write in
      \<lparr> sg_key = Gist_write_throughput,
        sg_active = (\<lambda>d. case p95 d of None \<Rightarrow> False
            | Some v \<Rightarrow> of_int BOOKING_WRITE_P95_ALERT_THRESHOLD_MS < v),
        sg_message = (\<lambda>d. ''Booking-write P95 latency has crossed the GiST write-throughput '' @
          ''threshold ('' @ int_text BOOKING_WRITE_P95_ALERT_THRESHOLD_MS @ ''ms) '' @ em_dash @ '' the hot '' @
          ''resource this traffic is concentrated on may be approaching the '' @
          ''index-contention ceiling CONC-06 characterized '' @
          ''(docs/performance-baseline.md). Not a correctness incident: the '' @
          ''exclusion constraint and idempotency mechanism are unaffected.''),
        sg_context = (\<lambda>d. JObj [(''write_p95_ms'', opt_json float_json (p95 d)),
          (''threshold_ms'', JNum BOOKING_WRITE_P95_ALERT_THRESHOLD_MS)]) \<rparr>)"

definition signals :: "(nat \<Rightarrow> string) \<Rightarrow> (rat \<Rightarrow> json) \<Rightarrow> instant \<Rightarrow> instant \<Rightarrow> signal list" where
  "signals ident float_json now query_now =
     [schema_assertion_signal now, reconciliation_signal, hold_reaper_signal now,
      offer_cascade_signal now, series_materialization_signal now,
      tzdata_rematerialization_signal now, audit_actor_unknown_signal ident now,
      gist_write_throughput_signal float_json query_now]"

section \<open>An evaluation\<close>

text \<open>Each signal is read when its turn comes; the environments are those of the turns.\<close>

fun evaluate_signals :: "(nat \<Rightarrow> env) \<Rightarrow> nat \<Rightarrow> signal list \<Rightarrow> alert_event list svc" where
  "evaluate_signals envs i [] = ret []"
| "evaluate_signals envs i (s # ss) =
     bind_svc (query (\<lambda>d. (sg_active s d, sg_message s d, sg_context s d))) (\<lambda>(active, message, context).
     bind_svc (fire_or_resolve (envs i) (sg_key s) active message context) (\<lambda>event.
     bind_svc (evaluate_signals envs (Suc i) ss) (\<lambda>events.
       ret (case event of None \<Rightarrow> events | Some e \<Rightarrow> e # events))))"

definition evaluate_alerts ::
  "(nat \<Rightarrow> string) \<Rightarrow> (rat \<Rightarrow> json) \<Rightarrow> (nat \<Rightarrow> env) \<Rightarrow> instant \<Rightarrow> alert_event list svc" where
  "evaluate_alerts ident float_json envs now =
     evaluate_signals envs 0 (signals ident float_json now (ev_py_now (envs 7)))"

definition evaluate_alerts_task ::
  "(nat \<Rightarrow> string) \<Rightarrow> (rat \<Rightarrow> json) \<Rightarrow> (nat \<Rightarrow> env) \<Rightarrow> (alert_key list \<times> nat) svc" where
  "evaluate_alerts_task ident float_json envs =
     bind_svc (evaluate_alerts ident float_json envs (ev_py_now (envs 0))) (\<lambda>fired.
     bind_svc (prune_old_request_metrics (envs 8)) (\<lambda>pruned. ret (map av_key fired, pruned)))"

section \<open>Delivery of the mail\<close>

text \<open>One attempt; \<open>send_mail\<close> gets the alert, from whose fields subject and body are made, and gives the
  error text of a failed send, or nothing.\<close>

definition execute_alert_email_delivery ::
  "(nat \<Rightarrow> env) \<Rightarrow> (alert_event \<Rightarrow> string option) \<Rightarrow> uuid \<Rightarrow> unit svc" where
  "execute_alert_email_delivery envs send_mail aid =
     (let change = (\<lambda>i f. autocommit (envs i) (update_alerts (envs i) (\<lambda>a. av_id a = aid) f)) in
      bind_svc (get_row alerts (\<lambda>a. av_id a = aid)) (\<lambda>event.
      then_svc (change 0 (\<lambda>a. a\<lparr> av_email_attempts := av_email_attempts a + 1 \<rparr>))
        (case send_mail event of
           Some err \<Rightarrow> then_svc (change 1 (\<lambda>a. a\<lparr> av_email_status := Failed, av_email_last_error := Some err \<rparr>))
             (raise (ValueError err))
         | None \<Rightarrow> then_svc (change 1 (\<lambda>a. a\<lparr> av_email_status := Sent,
               av_email_sent_at := Some (ev_py_now (envs 1)) \<rparr>)) (ret ()))))"

text \<open>\<open>autoretry_for=(Exception,)\<close>: the first attempt and at most \<open>n\<close> more.\<close>

fun send_alert_email_task ::
  "nat \<Rightarrow> (nat \<Rightarrow> nat \<Rightarrow> env) \<Rightarrow> (nat \<Rightarrow> alert_event \<Rightarrow> string option) \<Rightarrow> uuid \<Rightarrow> unit svc" where
  "send_alert_email_task 0 envs send_mail aid = execute_alert_email_delivery (envs 0) (send_mail 0) aid"
| "send_alert_email_task (Suc n) envs send_mail aid =
     catch_svc (execute_alert_email_delivery (envs 0) (send_mail 0) aid)
       (\<lambda>e. send_alert_email_task n (\<lambda>i. envs (Suc i)) (\<lambda>i. send_mail (Suc i)) aid)"

section \<open>Safety\<close>

lemma safe_fire_or_resolve [inv_intros]: "safe (fire_or_resolve env k active message context)"
  unfolding fire_or_resolve_def resolve_alert_def dispatch_alert_email_def
  by (intro inv_intros safe_pure[OF pure_query])

lemma safe_evaluate_signals: "safe (evaluate_signals envs i ss)"
  by (induction ss arbitrary: i) (auto intro!: inv_intros safe_pure[OF pure_query])

lemma safe_evaluate_alerts [inv_intros]: "safe (evaluate_alerts_task ident float_json envs)"
  unfolding evaluate_alerts_task_def evaluate_alerts_def
  by (intro inv_intros safe_evaluate_signals)

lemma safe_alert_delivery [inv_intros]: "safe (execute_alert_email_delivery envs send_mail aid)"
  unfolding execute_alert_email_delivery_def Let_def
  by (intro inv_intros safe_pure[OF pure_raise])

lemma safe_alert_task [inv_intros]: "safe (send_alert_email_task n envs send_mail aid)"
  by (induction n arbitrary: envs send_mail) (auto intro!: inv_intros)

end
