(* ===== verification/Operations_Api.thy ===== *)
theory Operations_Api
  imports Alerting
begin

text \<open>
  \<open>core/views.py\<close>: the gate of the operations endpoints, the latest run of each check and the
  dashboard.  \<open>float_json\<close> renders a double, \<open>health\<close> is the state of the broker at the time of the
  request.  The HTML page of the dashboard is a constant text.
\<close>

fun check_name_text :: "check_name \<Rightarrow> string" where
  "check_name_text Reconciliation = ''reconciliation''"
| "check_name_text Schema_assertion = ''schema_assertion''"
| "check_name_text Hold_reaper = ''hold_reaper''"
| "check_name_text Offer_cascade = ''offer_cascade''"
| "check_name_text Series_materialization = ''series_materialization''"
| "check_name_text Tzdata_rematerialization = ''tzdata_rematerialization''"

fun alert_key_text :: "alert_key \<Rightarrow> string" where
  "alert_key_text (Alert_check c) = check_name_text c"
| "alert_key_text Audit_actor_unknown = ''audit_actor_unknown''"
| "alert_key_text Gist_write_throughput = ''gist_write_throughput''"

fun check_status_text :: "check_status \<Rightarrow> string" where
  "check_status_text Check_pass = ''pass''"
| "check_status_text Check_fail = ''fail''"

fun severity_text :: "alert_severity \<Rightarrow> string" where
  "severity_text Sev_1 = ''sev_1''"
| "severity_text Sev_2 = ''sev_2''"
| "severity_text Sev_3 = ''sev_3''"

fun delivery_text :: "delivery_status \<Rightarrow> string" where
  "delivery_text Pending = ''pending''"
| "delivery_text Sent = ''sent''"
| "delivery_text Failed = ''failed''"

definition require_operations_or_system_admin :: "app_user \<Rightarrow> unit svc" where
  "require_operations_or_system_admin u =
     ensure (is_operations u \<or> is_system_admin u) PermissionDenied"

definition CHECKS_LATEST_ORDER :: "check_name list" where
  "CHECKS_LATEST_ORDER = [Schema_assertion, Reconciliation, Hold_reaper, Offer_cascade,
     Series_materialization, Tzdata_rematerialization]"

definition latest_check_json :: "check_name \<Rightarrow> check_run option \<Rightarrow> json" where
  "latest_check_json c latest = JObj (case latest of
      None \<Rightarrow> [(''check_name'', JStr (check_name_text c)), (''last_run_at'', JNull),
               (''status'', JNull), (''findings'', JObj [])]
    | Some r \<Rightarrow> [(''check_name'', JStr (check_name_text c)),
               (''last_run_at'', JStr (iso_z (cr_run_at r))),
               (''status'', JStr (check_status_text (cr_status r))), (''findings'', cr_findings r)])"

definition latest_checks :: "db \<Rightarrow> json" where
  "latest_checks d = JArr (map (\<lambda>c. latest_check_json c (latest_run c d)) CHECKS_LATEST_ORDER)"

definition checks_latest_view :: "request \<Rightarrow> reply svc" where
  "checks_latest_view rq = then_svc (require_operations_or_system_admin (rq_user rq))
     (bind_svc (query latest_checks) (\<lambda>cs. ret (plain_reply 200 (JObj [(''checks'', cs)]))))"

definition open_alert_json :: "alert_event \<Rightarrow> json" where
  "open_alert_json a = JObj [(''alert_key'', JStr (alert_key_text (av_key a))),
     (''severity'', JStr (severity_text (av_severity a))), (''message'', JStr (av_message a)),
     (''context'', av_context a), (''fired_at'', JStr (iso_z (av_fired_at a))),
     (''email_status'', JStr (delivery_text (av_email_status a)))]"

definition open_alerts :: "db \<Rightarrow> alert_event list" where
  "open_alerts d = order_by (\<lambda>a b. av_fired_at b \<le> av_fired_at a)
     (filter (\<lambda>a. av_resolved_at a = None) (alerts d))"

definition dashboard_metrics :: "(rat \<Rightarrow> json) \<Rightarrow> redis_health \<Rightarrow> instant \<Rightarrow> db \<Rightarrow> json" where
  "dashboard_metrics float_json health now d = JObj
     [(''window_seconds'', JNum METRICS_WINDOW_SECONDS),
      (''booking_write_p95_ms'', opt_json float_json (p95_duration_ms now Booking_write d)),
      (''availability_read_p95_ms'', opt_json float_json (p95_duration_ms now Availability_read d)),
      (''error_503'', error_rate_by_cause float_json now d),
      (''auth_failures'', auth_failure_rate_by_shape now d),
      (''redis_available'', JBool (redis_availability health)),
      (''idempotency'', idempotency_key_stats d),
      (''audit_actor_unknown_count'', JNum (int (audit_actor_unknown_count now d))),
      (''rate_limiting'', rate_limit_metric_slot float_json now d)]"

definition dashboard_view ::
  "(rat \<Rightarrow> json) \<Rightarrow> redis_health \<Rightarrow> env \<Rightarrow> request \<Rightarrow> reply svc" where
  "dashboard_view float_json health env rq =
     then_svc (require_operations_or_system_admin (rq_user rq))
       (bind_svc (query (\<lambda>d. JObj
          [(''checks'', latest_checks d), (''open_alerts'', JArr (map open_alert_json (open_alerts d))),
           (''metrics'', dashboard_metrics float_json health (ev_py_now env) d)]))
        (\<lambda>body. ret (plain_reply 200 body)))"

lemma pure_operations_views:
  "pure_svc (checks_latest_view rq)" "pure_svc (dashboard_view float_json health env rq)"
  unfolding checks_latest_view_def dashboard_view_def require_operations_or_system_admin_def
  by (intro pure_intros)+

end
