(* ===== verification/Booking_Api.thy ===== *)
theory Booking_Api
  imports Api Recurring_Series
begin

text \<open>
  \<open>bookings/serializers.py\<close> and \<open>bookings/views.py\<close>: the policy a range must meet, the views that
  create, edit and cancel bookings under an idempotency key, the reads (detail, history, list), and
  the preview, confirm and cancellation of a series.
\<close>

section \<open>Policy\<close>

definition validate_range_policy :: "env \<Rightarrow> resource \<Rightarrow> instant \<Rightarrow> instant \<Rightarrow> unit svc" where
  "validate_range_policy env res s e =
     (if e \<le> s then raise (PolicyValidationError ''end'' ''must be after start'')
      else case ev_zone env (rs_timezone res) of
          None \<Rightarrow> raise (ValueError ''no time zone found'')
        | Some z \<Rightarrow>
            (let local_start_time = time_of (from_utc z s); local_end_time = time_of (from_utc z e) in
             if \<not> (rs_bookable_start res \<le> local_start_time \<and> local_end_time \<le> rs_bookable_end res)
             then raise (PolicyValidationError ''start'' ''outside the resource's bookable hours'')
             else if (case rs_max_duration res of None \<Rightarrow> False | Some m \<Rightarrow> m * minute < e - s)
             then raise (PolicyValidationError ''end'' ''exceeds the resource's maximum booking duration'')
             else if s < ev_py_now env
             then raise (PolicyValidationError ''start'' ''must not be in the past'')
             else if ev_py_now env + MAX_ADVANCE_HORIZON_DAYS * day < s
             then raise (PolicyValidationError ''start'' ''must be within 365 days'')
             else ret ()))"

text \<open>The resource lookup of the create, join and preview serializers: a missing, inactive or hidden
  resource is one and the same error.\<close>

definition bookable_resource :: "app_user \<Rightarrow> uuid \<Rightarrow> resource svc" where
  "bookable_resource u rid = bind_svc (get_or_404 resources (\<lambda>r. rs_id r = rid)) (\<lambda>res.
     then_svc (ensure (rs_status res = Resource_active) NotFoundError)
       (then_svc (ensure_db (can_view_resource u res) NotFoundError) (ret res)))"

definition create_serializer :: "env \<Rightarrow> drf \<Rightarrow> app_user \<Rightarrow> json \<Rightarrow> (resource \<times> instant \<times> instant) svc" where
  "create_serializer env f u data = bind_svc (valid (df_slot f data)) (\<lambda>(rid, s, e).
     bind_svc (bookable_resource u rid) (\<lambda>res.
       then_svc (validate_range_policy env res s e) (ret (res, s, e))))"

text \<open>The resource that \<open>select_related\<close> brings along; the foreign key guarantees it.\<close>

definition resource_of :: "uuid \<Rightarrow> resource svc" where
  "resource_of rid = get_row resources (\<lambda>r. rs_id r = rid)"

definition edit_serializer :: "env \<Rightarrow> drf \<Rightarrow> booking \<Rightarrow> json \<Rightarrow> (instant \<times> instant) svc" where
  "edit_serializer env f b data = bind_svc (valid (df_range f data)) (\<lambda>(s, e).
     bind_svc (resource_of (bk_resource b)) (\<lambda>res.
       then_svc (validate_range_policy env res s e) (ret (s, e))))"

definition cancel_serializer :: "drf \<Rightarrow> bool \<Rightarrow> json \<Rightarrow> string option svc" where
  "cancel_serializer f is_owner data = bind_svc (valid (df_reason f data)) (\<lambda>reason.
     then_svc (ensure (is_owner \<or> (reason \<noteq> None \<and> reason \<noteq> Some ''''))
         (PolicyValidationError ''reason'' ''required for an administrative override'')) (ret reason))"

definition preview_serializer :: "env \<Rightarrow> drf \<Rightarrow> app_user \<Rightarrow> json \<Rightarrow> preview_request svc" where
  "preview_serializer env f u data = bind_svc (valid (df_preview f data)) (\<lambda>p.
     bind_svc (bookable_resource u (pf_resource p)) (\<lambda>res.
       then_svc (lift (validate_iana_zone (ev_zone env) (pf_timezone p)))
        (then_svc (ensure (pf_local_start p < pf_local_end p)
            (PolicyValidationError ''local_end_time'' ''must be after local_start_time''))
         (ret \<lparr> pq_user = au_id u, pq_resource = rs_id res, pq_timezone = pf_timezone p,
                pq_local_start = pf_local_start p, pq_local_end = pf_local_end p,
                pq_weekday = pf_weekday p, pq_start_date = pf_start_date p, pq_count = pf_count p \<rparr>))))"

section \<open>The response of a booking\<close>

definition booking_fields :: "drf \<Rightarrow> booking \<Rightarrow> (string \<times> json) list" where
  "booking_fields f b =
     [(''id'', JStr (uuid_text (bk_id b))),
      (''resource_id'', JStr (uuid_text (bk_resource b))),
      (''user_id'', JStr (uuid_text (bk_user b))),
      (''start'', JStr (df_time f (lo (bk_range b)))),
      (''end'', JStr (df_time f (hi (bk_range b)))),
      (''status'', JStr (booking_status_text (bk_status b))),
      (''series_id'', opt_uuid (bk_series b)),
      (''created_at'', JStr (df_time f (bk_created_at b))),
      (''cancelled_at'', opt_json (\<lambda>t. JStr (df_time f t)) (bk_cancelled_at b)),
      (''cancelled_by'', opt_uuid (bk_cancelled_by b)),
      (''cancellation_reason'', opt_json JStr (bk_reason b))]"

definition booking_response :: "drf \<Rightarrow> booking \<Rightarrow> json" where
  "booking_response f b = JObj (booking_fields f b)"

section \<open>Create, edit and cancel\<close>

definition create_view :: "env \<Rightarrow> drf \<Rightarrow> request \<Rightarrow> reply svc" where
  "create_view env f rq = bind_svc (require_idempotency_key rq) (\<lambda>key.
     bind_svc (create_serializer env f (rq_user rq) (rq_data rq)) (\<lambda>(res, s, e).
     bind_svc (dict_of_data (rq_data rq)) (\<lambda>body.
       answer_write env (write_request_of rq key ''POST /api/v1/bookings'' (JObj body) Actor_user None)
         (bind_svc (create_booking env
            \<lparr> cq_resource = rs_id res, cq_user = au_id (rq_user rq), cq_start = s, cq_end = e,
              cq_request_id = rq_request_id rq, cq_series = None, cq_actor_type = Actor_user,
              cq_status = Confirmed \<rparr>)
            (\<lambda>b. ret (201, booking_response f b))))))"

definition edit_view :: "env \<Rightarrow> drf \<Rightarrow> request \<Rightarrow> uuid \<Rightarrow> reply svc" where
  "edit_view env f rq pk = bind_svc (require_idempotency_key rq) (\<lambda>key.
     bind_svc (get_or_404 bookings (\<lambda>b. bk_id b = pk)) (\<lambda>b.
     then_svc (ensure (can_edit_booking (rq_user rq) b) NotFoundError)
    (bind_svc (edit_serializer env f b (rq_data rq)) (\<lambda>(s, e).
     bind_svc (dict_of_data (rq_data rq)) (\<lambda>body.
       answer_write env (write_request_of rq key (''PATCH /api/v1/bookings/'' @ uuid_text pk)
           (with_id ''booking_id'' pk body) Actor_user None)
         (bind_svc (edit_booking env
            \<lparr> eq_booking = b, eq_start = s, eq_end = e, eq_request_id = rq_request_id rq,
              eq_actor_type = Actor_user \<rparr>)
            (\<lambda>b'. ret (200, booking_response f b'))))))))"

definition override_actor :: "bool \<Rightarrow> actor_type" where
  "override_actor is_override = (if is_override then Actor_admin else Actor_user)"

definition cancel_view :: "env \<Rightarrow> drf \<Rightarrow> request \<Rightarrow> uuid \<Rightarrow> reply svc" where
  "cancel_view env f rq pk = bind_svc (require_idempotency_key rq) (\<lambda>key.
     bind_svc (get_or_404 bookings (\<lambda>b. bk_id b = pk)) (\<lambda>b.
     bind_svc (query (can_cancel_booking (rq_user rq) b)) (\<lambda>(allowed, is_override).
     then_svc (ensure allowed NotFoundError)
    (bind_svc (cancel_serializer f (\<not> is_override) (rq_data rq)) (\<lambda>reason.
     bind_svc (dict_of_data (rq_data rq)) (\<lambda>body.
       answer_write env (write_request_of rq key (''POST /api/v1/bookings/'' @ uuid_text pk @ ''/cancel'')
           (with_id ''booking_id'' pk body) (override_actor is_override) reason)
         (bind_svc (cancel_booking env
            \<lparr> xq_booking = b, xq_actor = au_id (rq_user rq), xq_actor_type = override_actor is_override,
              xq_reason = reason, xq_request_id = rq_request_id rq \<rparr>)
            (\<lambda>(b', _). ret (200, booking_response f b')))))))))"

section \<open>Detail and history\<close>

definition detail_view :: "drf \<Rightarrow> request \<Rightarrow> uuid \<Rightarrow> reply svc" where
  "detail_view f rq pk = bind_svc (get_or_404 bookings (\<lambda>b. bk_id b = pk)) (\<lambda>b.
     then_svc (ensure_db (can_view_booking (rq_user rq) b) NotFoundError)
       (ret (plain_reply 200 (booking_response f b))))"

text \<open>\<open>_compute_changes\<close>: the fields that differ, a missing side as null.\<close>

definition side :: "(string \<times> json) list \<Rightarrow> string \<Rightarrow> json" where
  "side ps k = (case map_of ps k of None \<Rightarrow> JNull | Some v \<Rightarrow> v)"

definition compute_changes ::
  "(string \<times> json) list option \<Rightarrow> (string \<times> json) list option \<Rightarrow> (string \<times> json) list" where
  "compute_changes before after =
     (let b = (case before of None \<Rightarrow> [] | Some ps \<Rightarrow> ps); a = (case after of None \<Rightarrow> [] | Some ps \<Rightarrow> ps) in
      map (\<lambda>k. (k, JArr [side b k, side a k]))
        (filter (\<lambda>k. side b k \<noteq> side a k) (remdups (map fst b @ map fst a))))"

fun action_text :: "audit_action \<Rightarrow> string" where
  "action_text Audit_insert = ''insert''"
| "action_text Audit_update = ''update''"
| "action_text Audit_delete = ''delete''"

fun actor_type_text :: "actor_type \<Rightarrow> string" where
  "actor_type_text Actor_user = ''user''"
| "actor_type_text Actor_admin = ''admin''"
| "actor_type_text Actor_system = ''system''"
| "actor_type_text Actor_unknown = ''unknown''"

text \<open>\<open>snapshot\<close> is the database's \<open>to_jsonb\<close> of a row, which the audit trigger stores.\<close>

definition event_json ::
  "(entity \<Rightarrow> (string \<times> json) list) \<Rightarrow> (uuid \<Rightarrow> string option) \<Rightarrow> audit_log \<Rightarrow> json" where
  "event_json snapshot display_names e = JObj
     [(''occurred_at'', JStr (iso_z (al_occurred_at e))),
      (''action'', JStr (action_text (al_action e))),
      (''actor'', JObj [(''id'', opt_uuid (al_actor_id e)),
          (''display_name'', (case al_actor_id e of None \<Rightarrow> JNull | Some u \<Rightarrow> opt_json JStr (display_names u))),
          (''type'', JStr (actor_type_text (al_actor_type e)))]),
      (''reason'', opt_json JStr (al_reason e)),
      (''request_id'', opt_json JStr (al_request_id e)),
      (''changes'', JObj (compute_changes (map_option snapshot (al_before e))
          (map_option snapshot (al_after e))))]"

definition display_name :: "db \<Rightarrow> uuid \<Rightarrow> string option" where
  "display_name d u = map_option au_name (find (\<lambda>r. au_id r = u) (users d))"

text \<open>The trail is kept in the order of its identity column; the order by \<open>occurred_at\<close> keeps that
  order among rows of one instant.\<close>

definition booking_events :: "uuid \<Rightarrow> db \<Rightarrow> audit_log list" where
  "booking_events pk d = order_by (\<lambda>a b. al_occurred_at a \<le> al_occurred_at b)
     (filter (\<lambda>e. al_entity_type e = ''booking'' \<and> al_entity_id e = pk) (audit d))"

definition history_view ::
  "(entity \<Rightarrow> (string \<times> json) list) \<Rightarrow> request \<Rightarrow> uuid \<Rightarrow> reply svc" where
  "history_view snapshot rq pk = bind_svc (get_or_404 bookings (\<lambda>b. bk_id b = pk)) (\<lambda>b.
     then_svc (ensure_db (can_view_booking (rq_user rq) b) NotFoundError)
       (bind_svc (query (\<lambda>d. map (event_json snapshot (display_name d)) (booking_events pk d))) (\<lambda>events.
          ret (plain_reply 200 (JObj [(''booking_id'', JStr (uuid_text pk)), (''events'', JArr events)])))))"

section \<open>The list\<close>

record list_params =
  lp_resource :: "string option"
  lp_status :: "string option"
  lp_time :: "string option"
  lp_limit :: "string option"
  lp_cursor :: "string option"

definition page_limit :: "string option \<Rightarrow> nat svc" where
  "page_limit v = (case parse_limit v of
      Inl (ValueError msg) \<Rightarrow> raise (PolicyValidationError ''limit'' msg)
    | Inl e \<Rightarrow> raise e
    | Inr n \<Rightarrow> ret n)"

definition list_scope :: "app_user \<Rightarrow> string option \<Rightarrow> (booking \<Rightarrow> bool) svc" where
  "list_scope u resource_id = (case given resource_id of
      None \<Rightarrow> ret (\<lambda>b. bk_user b = au_id u)
    | Some t \<Rightarrow> (case parse_uuid t of
          None \<Rightarrow> raise (PolicyValidationError ''resource_id'' ''must be a valid UUID'')
        | Some rid \<Rightarrow>
            then_svc (ensure_db (\<lambda>d. can_administer_resource u rid d \<or> is_operations u) PermissionDenied)
              (ret (\<lambda>b. bk_resource b = rid))))"

definition status_filter :: "string option \<Rightarrow> (booking \<Rightarrow> bool) svc" where
  "status_filter v = (case v of
      None \<Rightarrow> ret (\<lambda>_. True)
    | Some t \<Rightarrow> if t = ''confirmed'' then ret (\<lambda>b. bk_status b = Confirmed)
        else if t = ''cancelled'' then ret (\<lambda>b. bk_status b = Cancelled)
        else raise (PolicyValidationError ''status'' ''must be one of ['cancelled', 'confirmed']''))"

definition time_filter :: "env \<Rightarrow> string option \<Rightarrow> ((booking \<Rightarrow> bool) \<times> bool) svc" where
  "time_filter env v = (let t = (case v of None \<Rightarrow> ''all'' | Some t \<Rightarrow> t) in
     if t = ''all'' then ret (\<lambda>_. True, False)
     else if t = ''upcoming'' then ret (\<lambda>b. ev_py_now env \<le> bk_starts_at b, False)
     else if t = ''past'' then ret (\<lambda>b. bk_starts_at b < ev_py_now env, True)
     else raise (PolicyValidationError ''time'' ''must be one of ['all', 'past', 'upcoming']''))"

text \<open>The key of the list and its two directions.\<close>

definition booking_key :: "booking \<Rightarrow> instant \<times> uuid" where
  "booking_key b = (bk_starts_at b, bk_id b)"

definition key_asc :: "instant \<times> uuid \<Rightarrow> instant \<times> uuid \<Rightarrow> bool" where
  "key_asc a b = (fst a < fst b \<or> (fst a = fst b \<and> snd a < snd b))"

definition key_desc :: "instant \<times> uuid \<Rightarrow> instant \<times> uuid \<Rightarrow> bool" where
  "key_desc a b = (fst b < fst a \<or> (fst a = fst b \<and> snd a < snd b))"

definition time_cursor :: "instant \<times> uuid \<Rightarrow> string" where
  "time_cursor k = encode_cursor (codes (iso_instant (fst k))) (codes (uuid_text (snd k)))"

text \<open>The identifier of a cursor is first read by the filter, where a bad one is an error of the
  object-relational mapper that nothing translates.\<close>

definition read_time_cursor ::
  "(codes \<Rightarrow> instant option) \<Rightarrow> string \<Rightarrow> exn + (instant \<times> uuid)" where
  "read_time_cursor others text = (case decode_cursor text of
      Inl e \<Rightarrow> Inl (PolicyValidationError ''cursor'' ''malformed cursor'')
    | Inr (sort_text, id_text) \<Rightarrow> (case fromisoformat others sort_text of
          None \<Rightarrow> Inl (PolicyValidationError ''cursor'' ''malformed cursor'')
        | Some t \<Rightarrow>
            (case (if list_all (\<lambda>n. n < 256) id_text then parse_uuid (map char_of id_text) else None) of
               None \<Rightarrow> Inl DjangoValidationError
             | Some u \<Rightarrow> Inr (t, u))))"

definition bookings_page ::
  "(codes \<Rightarrow> instant option) \<Rightarrow> bool \<Rightarrow> nat \<Rightarrow> string option \<Rightarrow> booking list
     \<Rightarrow> exn + (booking list \<times> string option)" where
  "bookings_page others descending limit cursor rows =
     text_page (if descending then key_desc else key_asc) booking_key time_cursor
       (read_time_cursor others) limit (given cursor) rows"

definition list_bookings ::
  "(codes \<Rightarrow> instant option) \<Rightarrow> env \<Rightarrow> app_user \<Rightarrow> list_params \<Rightarrow> (booking list \<times> string option) svc" where
  "list_bookings others env u p =
     bind_svc (list_scope u (lp_resource p)) (\<lambda>in_scope.
     bind_svc (status_filter (lp_status p)) (\<lambda>has_status.
     bind_svc (time_filter env (lp_time p)) (\<lambda>(in_time, descending).
     bind_svc (page_limit (lp_limit p)) (\<lambda>limit.
     bind_svc (query (\<lambda>d. bookings_page others descending limit (lp_cursor p)
        (filter (\<lambda>b. bk_status b \<noteq> Held \<and> in_scope b \<and> has_status b \<and> in_time b) (bookings d)))) lift))))"

definition list_view ::
  "(codes \<Rightarrow> instant option) \<Rightarrow> env \<Rightarrow> drf \<Rightarrow> request \<Rightarrow> list_params \<Rightarrow> reply svc" where
  "list_view others env f rq p = bind_svc (list_bookings others env (rq_user rq) p) (\<lambda>(rows, next_cursor).
     ret (plain_reply 200 (JObj [(''data'', JArr (map (booking_response f) rows)),
       (''next_cursor'', opt_json JStr next_cursor)])))"

section \<open>Series\<close>

definition slot_json :: "date \<times> instant \<times> instant \<Rightarrow> (string \<times> json) list" where
  "slot_json = (\<lambda>(dt, s, e). [(''occurrence_date'', JStr (iso_date dt)),
     (''start'', JStr (iso_z s)), (''end'', JStr (iso_z e))])"

fun issue_text :: "tz_issue \<Rightarrow> string" where
  "issue_text Nonexistent_local_time = ''nonexistent_local_time''"
| "issue_text Ambiguous_local_time = ''ambiguous_local_time''"

fun explanation :: "tz_issue \<Rightarrow> string" where
  "explanation Nonexistent_local_time =
     ''Local time does not exist due to a DST transition; shifted forward by the transition gap.''"
| "explanation Ambiguous_local_time =
     ''Local time occurs twice due to a DST transition; the first (pre-transition) instance was used.''"

definition adjustment_json :: "date \<times> time_adjustment \<Rightarrow> json" where
  "adjustment_json = (\<lambda>(dt, a). JObj [(''occurrence_date'', JStr (iso_date dt)),
     (''issue'', JStr (issue_text (ta_issue a))),
     (''requested_local'', JStr (iso_time (ta_requested_local a))),
     (''adjusted_local'', JStr (iso_time (ta_adjusted_local a))),
     (''explanation'', JStr (explanation (ta_issue a)))])"

definition preview_response :: "preview_result \<Rightarrow> json" where
  "preview_response r = JObj
     [(''preview_token'', JStr (pr_token r)), (''resource_id'', JStr (uuid_text (pr_resource r))),
      (''tzdata_version'', JStr (pr_tzdata_version r)),
      (''would_create'', JArr (map (JObj \<circ> slot_json) (pr_would_create r))),
      (''conflicts'', JArr (map (\<lambda>x. JObj (slot_json x @ [(''reason'', JStr ''slot_unavailable'')]))
         (pr_conflicts r))),
      (''time_adjustments'', JArr (map adjustment_json (pr_adjustments r)))]"

definition preview_view ::
  "(preview_claims \<Rightarrow> string) \<Rightarrow> env \<Rightarrow> drf \<Rightarrow> request \<Rightarrow> reply svc" where
  "preview_view encode env f rq =
     bind_svc (preview_serializer env f (rq_user rq) (rq_data rq)) (\<lambda>req.
     bind_svc (preview_recurring_series encode env req) (\<lambda>r.
       ret (plain_reply 200 (preview_response r))))"

definition confirm_response :: "confirm_outcome \<Rightarrow> json" where
  "confirm_response o' = JObj
     [(''series_id'', JStr (uuid_text (co_series o'))),
      (''created'', JArr (map (\<lambda>(b, dt, s, e). JObj ((''booking_id'', JStr (uuid_text b)) # slot_json (dt, s, e)))
         (co_created o'))),
      (''conflicts'', JArr (map (\<lambda>(dt, ack). JObj [(''occurrence_date'', JStr (iso_date dt)),
          (''reason'', JStr ''slot_unavailable''), (''acknowledged'', JBool ack)]) (co_conflicts o')))]"

text \<open>The claim, the occurrences and the outcome are separate transactions: \<open>env\<close> is the environment
  of the claim, \<open>envs i\<close> that of turn \<open>i\<close>, \<open>env'\<close> that of the outcome.\<close>

definition confirm_view ::
  "(int \<Rightarrow> string \<Rightarrow> preview_claims option) \<Rightarrow> env \<Rightarrow> (nat \<Rightarrow> env) \<Rightarrow> env \<Rightarrow> drf \<Rightarrow> request \<Rightarrow> reply svc" where
  "confirm_view decode env envs env' f rq = bind_svc (require_idempotency_key rq) (\<lambda>key.
     bind_svc (valid (df_confirm f (rq_data rq))) (\<lambda>(token, conflicts, adjustments).
     bind_svc (decode_preview_token decode env token (au_id (rq_user rq))) (\<lambda>decoded.
     then_svc (check_acknowledged decoded conflicts adjustments)
    (bind_svc (dict_of_data (rq_data rq)) (\<lambda>body.
     bind_svc (run_idempotent_recurring_confirm env env'
         (write_request_of rq key ''POST /api/v1/bookings/recurring'' (JObj body) Actor_user None)
         (bind_svc (confirm_recurring_series envs (au_id (rq_user rq)) decoded (rq_request_id rq))
            (\<lambda>out. ret (207, confirm_response out)))) (\<lambda>r. ret (to_reply r)))))))"

definition cancel_series_view :: "env \<Rightarrow> drf \<Rightarrow> request \<Rightarrow> uuid \<Rightarrow> reply svc" where
  "cancel_series_view env f rq pk = bind_svc (require_idempotency_key rq) (\<lambda>key.
     bind_svc (get_or_404 series (\<lambda>s. se_id s = pk)) (\<lambda>ser.
     bind_svc (query (can_cancel_series (rq_user rq) ser)) (\<lambda>(allowed, is_override).
     then_svc (ensure allowed NotFoundError)
    (bind_svc (cancel_serializer f (\<not> is_override) (rq_data rq)) (\<lambda>reason.
     bind_svc (dict_of_data (rq_data rq)) (\<lambda>body.
       answer_write env
           (write_request_of rq key (''POST /api/v1/recurring-series/'' @ uuid_text pk @ ''/cancel'')
             (with_id ''series_id'' pk body) (override_actor is_override) None)
         (bind_svc (cancel_recurring_series env
            \<lparr> sq_series = se_id ser, sq_actor = au_id (rq_user rq),
              sq_actor_type = override_actor is_override, sq_reason = reason,
              sq_request_id = rq_request_id rq \<rparr>)
            (\<lambda>(ids, past). ret (200, JObj
              [(''series_id'', JStr (uuid_text (se_id ser))),
               (''cancelled_booking_ids'', JArr (map (\<lambda>i. JStr (uuid_text i)) ids)),
               (''occurrences_already_past'', JNum (int past))])))))))))"

section \<open>The reads leave the database alone\<close>

lemma pure_range_policy [pure_intros]: "pure_svc (validate_range_policy env res s e)"
  by (auto simp: validate_range_policy_def Let_def intro!: pure_intros split: option.split)

lemma pure_booking_serializers [pure_intros]:
  "pure_svc (bookable_resource u rid)" "pure_svc (create_serializer env f u data)"
  "pure_svc (edit_serializer env f b data)" "pure_svc (cancel_serializer f is_owner data)"
  "pure_svc (preview_serializer env f u data)" "pure_svc (resource_of rid)"
  unfolding bookable_resource_def create_serializer_def edit_serializer_def cancel_serializer_def
    preview_serializer_def resource_of_def
  by (auto simp: split_beta intro!: pure_intros)

lemma pure_series_reads [pure_intros]:
  "pure_svc (expand_in env tz ls le st n)" "pure_svc (preview_recurring_series encode env pq)"
  "pure_svc (decode_preview_token decode env token u)" "pure_svc (check_acknowledged c ds es)"
  unfolding preview_recurring_series_def decode_preview_token_def check_acknowledged_def expand_in_def Let_def
  by (auto intro!: pure_intros split: option.split sum.split)

lemma pure_list_bookings [pure_intros]: "pure_svc (list_bookings others env u p)"
proof -
  have "pure_svc (list_scope u r)" "pure_svc (status_filter v)" "pure_svc (time_filter env v)"
    "pure_svc (page_limit v)" for r v
    unfolding list_scope_def status_filter_def time_filter_def page_limit_def Let_def
    by (auto intro!: pure_intros split: option.split sum.split exn.split)
  then show ?thesis unfolding list_bookings_def by (auto simp: split_beta intro!: pure_intros)
qed

lemma pure_booking_reads [pure_intros]:
  "pure_svc (detail_view f rq pk)" "pure_svc (history_view snapshot rq pk)"
  "pure_svc (list_view others env f rq p)" "pure_svc (preview_view encode env f rq)"
  unfolding detail_view_def history_view_def list_view_def preview_view_def
  by (auto simp: split_beta intro!: pure_intros)

end
