(* ===== verification/Waitlist_Api.thy ===== *)
theory Waitlist_Api
  imports Booking_Api Waitlist_Services
begin

text \<open>
  \<open>waitlist/serializers.py\<close> and \<open>waitlist/views.py\<close>: joining, listing and leaving the waitlist with
  queue positions and active offers, and the confirmation and decline of an offer.
\<close>

section \<open>Serializers\<close>

definition join_serializer :: "drf \<Rightarrow> app_user \<Rightarrow> json \<Rightarrow> (resource \<times> instant \<times> instant) svc" where
  "join_serializer f u data = bind_svc (valid (df_slot f data)) (\<lambda>(rid, s, e).
     bind_svc (bookable_resource u rid) (\<lambda>res.
       then_svc (ensure (s < e) (PolicyValidationError ''end'' ''must be after start''))
         (then_svc (ensure_db (\<lambda>d. \<not> slot_is_free (rs_id res) s e d) SlotAlreadyAvailableError)
            (ret (res, s, e)))))"

fun entry_status_text :: "entry_status \<Rightarrow> string" where
  "entry_status_text Waiting = ''waiting''"
| "entry_status_text Offered = ''offered''"
| "entry_status_text Fulfilled = ''fulfilled''"
| "entry_status_text Entry_expired = ''expired''"
| "entry_status_text Entry_cancelled = ''cancelled''"

fun offer_status_text :: "offer_status \<Rightarrow> string" where
  "offer_status_text Offer_active = ''active''"
| "offer_status_text Offer_confirmed = ''confirmed''"
| "offer_status_text Offer_expired = ''expired''"
| "offer_status_text Offer_declined = ''declined''"

definition waiting_queue :: "uuid \<Rightarrow> db \<Rightarrow> waitlist_entry list" where
  "waiting_queue res d =
     order_by entry_before (filter (\<lambda>w. we_resource w = res \<and> we_status w = Waiting) (entries d))"

text \<open>One query per resource that has a waiting entry on the page.\<close>

definition queue_positions :: "waitlist_entry list \<Rightarrow> db \<Rightarrow> uuid \<Rightarrow> nat option" where
  "queue_positions page d = map_of (concat (map
     (\<lambda>res. zip (map we_id (waiting_queue res d)) [1 ..< length (waiting_queue res d) + 1])
     (remdups (map we_resource (filter (\<lambda>w. we_status w = Waiting) page)))))"

definition active_offers :: "waitlist_entry list \<Rightarrow> db \<Rightarrow> uuid \<Rightarrow> waitlist_offer option" where
  "active_offers page d i = find (\<lambda>w. wo_entry w = i)
     (rev (filter (\<lambda>w. wo_entry w \<in> List.set (map we_id page) \<and> wo_status w = Offer_active) (offers d)))"

definition entry_response ::
  "drf \<Rightarrow> (uuid \<Rightarrow> nat option) \<Rightarrow> (uuid \<Rightarrow> waitlist_offer option) \<Rightarrow> waitlist_entry \<Rightarrow> json" where
  "entry_response f positions active w = JObj
     [(''id'', JStr (uuid_text (we_id w))),
      (''resource_id'', JStr (uuid_text (we_resource w))),
      (''start'', JStr (df_time f (lo (we_range w)))),
      (''end'', JStr (df_time f (hi (we_range w)))),
      (''status'', JStr (entry_status_text (we_status w))),
      (''joined_at'', JStr (df_time f (we_joined_at w))),
      (''queue_position'', opt_json (\<lambda>n. JNum (int n)) (positions (we_id w))),
      (''active_offer'', opt_json (\<lambda>x. JObj [(''id'', JStr (uuid_text (wo_id x))),
          (''expires_at'', JStr (iso_z (wo_expires_at x)))]) (active (we_id w)))]"

definition one_entry_response :: "drf \<Rightarrow> waitlist_entry \<Rightarrow> db \<Rightarrow> json" where
  "one_entry_response f w d = entry_response f (queue_positions [w] d) (active_offers [w] d) w"

definition offer_response :: "drf \<Rightarrow> waitlist_offer \<Rightarrow> json" where
  "offer_response f w = JObj
     [(''id'', JStr (uuid_text (wo_id w))),
      (''waitlist_entry_id'', JStr (uuid_text (wo_entry w))),
      (''hold_booking_id'', JStr (uuid_text (wo_hold w))),
      (''resource_id'', JStr (uuid_text (wo_resource w))),
      (''start'', JStr (df_time f (lo (wo_range w)))),
      (''end'', JStr (df_time f (hi (wo_range w)))),
      (''status'', JStr (offer_status_text (wo_status w))),
      (''expires_at'', JStr (df_time f (wo_expires_at w))),
      (''created_at'', JStr (df_time f (wo_created_at w)))]"

section \<open>Entries\<close>

definition join_view :: "env \<Rightarrow> drf \<Rightarrow> request \<Rightarrow> reply svc" where
  "join_view env f rq = bind_svc (require_idempotency_key rq) (\<lambda>key.
     bind_svc (join_serializer f (rq_user rq) (rq_data rq)) (\<lambda>(res, s, e).
     bind_svc (dict_of_data (rq_data rq)) (\<lambda>body.
       answer_write env (write_request_of rq key ''POST /api/v1/waitlist-entries'' (JObj body) Actor_user None)
         (bind_svc (join_waitlist env
            \<lparr> jq_resource = rs_id res, jq_user = au_id (rq_user rq), jq_start = s, jq_end = e,
              jq_request_id = rq_request_id rq \<rparr>)
            (\<lambda>w. bind_svc (query (one_entry_response f w)) (\<lambda>j. ret (201, j)))))))"

definition entry_time_key :: "waitlist_entry \<Rightarrow> instant \<times> uuid" where
  "entry_time_key w = (we_joined_at w, we_id w)"

definition entries_page ::
  "(codes \<Rightarrow> instant option) \<Rightarrow> nat \<Rightarrow> string option \<Rightarrow> waitlist_entry list
     \<Rightarrow> exn + (waitlist_entry list \<times> string option)" where
  "entries_page others limit cursor rows =
     text_page key_asc entry_time_key time_cursor (read_time_cursor others) limit (given cursor) rows"

definition entry_status_filter :: "string option \<Rightarrow> (waitlist_entry \<Rightarrow> bool) svc" where
  "entry_status_filter v = (case v of
      None \<Rightarrow> ret (\<lambda>_. True)
    | Some t \<Rightarrow>
        if t \<in> List.set (map entry_status_text [Waiting, Offered, Fulfilled, Entry_expired, Entry_cancelled])
        then ret (\<lambda>w. entry_status_text (we_status w) = t)
        else raise (PolicyValidationError ''status''
          ''must be one of ['cancelled', 'expired', 'fulfilled', 'offered', 'waiting']''))"

definition list_entries ::
  "(codes \<Rightarrow> instant option) \<Rightarrow> app_user \<Rightarrow> list_params \<Rightarrow> (waitlist_entry list \<times> string option) svc" where
  "list_entries others u p =
     bind_svc (entry_status_filter (lp_status p)) (\<lambda>has_status.
     bind_svc (page_limit (lp_limit p)) (\<lambda>limit.
     bind_svc (query (\<lambda>d. entries_page others limit (lp_cursor p)
        (filter (\<lambda>w. we_user w = au_id u \<and> has_status w) (entries d)))) lift))"

definition list_entries_view ::
  "(codes \<Rightarrow> instant option) \<Rightarrow> drf \<Rightarrow> request \<Rightarrow> list_params \<Rightarrow> reply svc" where
  "list_entries_view others f rq p = bind_svc (list_entries others (rq_user rq) p) (\<lambda>(rows, next_cursor).
     bind_svc (query (\<lambda>d. map (entry_response f (queue_positions rows d) (active_offers rows d)) rows))
       (\<lambda>data. ret (plain_reply 200 (JObj [(''data'', JArr data),
          (''next_cursor'', opt_json JStr next_cursor)]))))"

definition cancel_entry_view :: "env \<Rightarrow> drf \<Rightarrow> request \<Rightarrow> uuid \<Rightarrow> reply svc" where
  "cancel_entry_view env f rq pk = bind_svc (require_idempotency_key rq) (\<lambda>key.
     bind_svc (get_or_404 entries (\<lambda>w. we_id w = pk)) (\<lambda>w.
     then_svc (ensure (we_user w = au_id (rq_user rq)) NotFoundError)
    (bind_svc (dict_of_data (rq_data rq)) (\<lambda>body.
       answer_write env
           (write_request_of rq key (''POST /api/v1/waitlist-entries/'' @ uuid_text pk @ ''/cancel'')
             (with_id ''entry_id'' pk body) Actor_user None)
         (bind_svc (cancel_waitlist_entry env
            \<lparr> wq_entry = we_id w, wq_actor = au_id (rq_user rq), wq_request_id = rq_request_id rq,
              wq_actor_type = Actor_user \<rparr>)
            (\<lambda>(w', _). bind_svc (query (one_entry_response f w')) (\<lambda>j. ret (200, j))))))))"

section \<open>Offers\<close>

text \<open>The entry comes with the offer; the foreign key guarantees it.\<close>

definition get_offer_for_owner :: "uuid \<Rightarrow> app_user \<Rightarrow> waitlist_offer svc" where
  "get_offer_for_owner pk u = bind_svc (get_or_404 offers (\<lambda>w. wo_id w = pk)) (\<lambda>offer.
     bind_svc (get_row entries (\<lambda>w. we_id w = wo_entry offer)) (\<lambda>entry.
       then_svc (ensure (we_user entry = au_id u) NotFoundError) (ret offer)))"

definition offer_write ::
  "env \<Rightarrow> request \<Rightarrow> uuid \<Rightarrow> string \<Rightarrow> (waitlist_offer \<Rightarrow> (int \<times> json) svc) \<Rightarrow> reply svc" where
  "offer_write env rq pk verb perform = bind_svc (require_idempotency_key rq) (\<lambda>key.
     bind_svc (get_offer_for_owner pk (rq_user rq)) (\<lambda>offer.
     bind_svc (dict_of_data (rq_data rq)) (\<lambda>body.
       answer_write env
           (write_request_of rq key (''POST /api/v1/waitlist-offers/'' @ uuid_text pk @ verb)
             (with_id ''offer_id'' pk body) Actor_user None) (perform offer))))"

definition offer_request_of :: "request \<Rightarrow> waitlist_offer \<Rightarrow> offer_request" where
  "offer_request_of rq offer = \<lparr> fq_offer = offer, fq_user = au_id (rq_user rq),
     fq_request_id = rq_request_id rq, fq_actor_type = Actor_user \<rparr>"

definition confirm_offer_view :: "env \<Rightarrow> drf \<Rightarrow> request \<Rightarrow> uuid \<Rightarrow> reply svc" where
  "confirm_offer_view env f rq pk = offer_write env rq pk ''/confirm'' (\<lambda>offer.
     bind_svc (accept_offer env (offer_request_of rq offer)) (\<lambda>b.
       ret (201, JObj (put ''waitlist_offer_id'' (JStr (uuid_text (wo_id offer))) (booking_fields f b)))))"

definition decline_offer_view :: "env \<Rightarrow> drf \<Rightarrow> request \<Rightarrow> uuid \<Rightarrow> reply svc" where
  "decline_offer_view env f rq pk = offer_write env rq pk ''/decline'' (\<lambda>offer.
     bind_svc (decline_offer env (offer_request_of rq offer)) (\<lambda>w. ret (200, offer_response f w)))"

section \<open>The reads leave the database alone\<close>

lemma pure_waitlist_reads [pure_intros]:
  "pure_svc (join_serializer f u data)" "pure_svc (get_offer_for_owner pk u)"
  "pure_svc (list_entries_view others f rq p)"
proof -
  have "pure_svc (entry_status_filter v)" "pure_svc (page_limit v)" for v
    unfolding entry_status_filter_def page_limit_def
    by (auto intro!: pure_intros split: option.split sum.split exn.split)
  then show "pure_svc (list_entries_view others f rq p)"
    unfolding list_entries_view_def list_entries_def by (auto simp: split_beta intro!: pure_intros)
  show "pure_svc (join_serializer f u data)" "pure_svc (get_offer_for_owner pk u)"
    unfolding join_serializer_def get_offer_for_owner_def by (auto simp: split_beta intro!: pure_intros)
qed

end
