(* ===== verification/Resource_Api.thy ===== *)
theory Resource_Api
  imports Waitlist_Api Resource_Services Checks
begin

text \<open>
  \<open>resources/serializers.py\<close> and \<open>resources/views.py\<close>: the list and the details of resources, their
  administration, the availability calendar with its masking of held slots, and the utilization
  report.

  \<open>parse_date\<close> and \<open>parse_datetime\<close> are the framework's and so are the validators of declared fields;
  the rows of \<open>user_group\<close>, which nothing in the source writes, are a list of identifiers.
\<close>

section \<open>Serializers\<close>

record resource_fields =
  xf_name :: string
  xf_category :: string
  xf_timezone :: string
  xf_bookable_start :: time_of_day
  xf_bookable_end :: time_of_day
  xf_max_duration :: "int option"
  xf_policy :: offboarding_policy
  xf_restricted_group :: "uuid option"

record resource_changes =
  xc_name :: "string option"
  xc_bookable_start :: "time_of_day option"
  xc_bookable_end :: "time_of_day option"
  xc_max_duration :: "int option option"      \<comment> \<open>present or not\<close>
  xc_policy :: "offboarding_policy option"
  xc_status :: "resource_status option"

record resource_forms =
  fr_create :: "json \<Rightarrow> json + resource_fields"
  fr_update :: "json \<Rightarrow> json + resource_changes"
  fr_errors :: "(string \<times> string) list \<Rightarrow> json"      \<comment> \<open>details of field errors\<close>

definition validate_bookable_window ::
  "resource_forms \<Rightarrow> time_of_day \<Rightarrow> time_of_day \<Rightarrow> unit svc" where
  "validate_bookable_window fr s e = ensure (s < e)
     (DRFValidationError (fr_errors fr [(''bookable_end_time'', ''must be after bookable_start_time'')]))"

fun exn_text :: "exn \<Rightarrow> string" where
  "exn_text (PolicyValidationError f i) = f @ '': '' @ i"
| "exn_text _ = ''''"

definition validate_timezone :: "env \<Rightarrow> string \<Rightarrow> (string \<times> string) list" where
  "validate_timezone env value = (case validate_iana_zone (ev_zone env) value of
      Inl e \<Rightarrow> [(''timezone'', exn_text e)] | Inr _ \<Rightarrow> [])"

definition validate_restricted_group :: "uuid list \<Rightarrow> uuid option \<Rightarrow> (string \<times> string) list" where
  "validate_restricted_group groups v = (case v of
      None \<Rightarrow> [] | Some g \<Rightarrow> if g \<in> List.set groups then [] else [(''restricted_group_id'', ''no such group'')])"

definition resource_create_serializer ::
  "env \<Rightarrow> resource_forms \<Rightarrow> uuid list \<Rightarrow> json \<Rightarrow> resource_fields svc" where
  "resource_create_serializer env fr groups data = bind_svc (valid (fr_create fr data)) (\<lambda>x.
     let errors = validate_timezone env (xf_timezone x) @ validate_restricted_group groups (xf_restricted_group x)
     in then_svc (ensure (errors = []) (DRFValidationError (fr_errors fr errors)))
          (then_svc (validate_bookable_window fr (xf_bookable_start x) (xf_bookable_end x)) (ret x)))"

definition resource_update_serializer ::
  "resource_forms \<Rightarrow> resource \<Rightarrow> json \<Rightarrow> resource_changes svc" where
  "resource_update_serializer fr res data = bind_svc (valid (fr_update fr data)) (\<lambda>x.
     then_svc (validate_bookable_window fr (opt_set (xc_bookable_start x) (rs_bookable_start res))
         (opt_set (xc_bookable_end x) (rs_bookable_end res))) (ret x))"

fun policy_text :: "offboarding_policy \<Rightarrow> string" where
  "policy_text Transfer = ''transfer''"
| "policy_text Cancel_and_notify = ''cancel_and_notify''"
| "policy_text Retain = ''retain''"

fun resource_status_text :: "resource_status \<Rightarrow> string" where
  "resource_status_text Resource_active = ''active''"
| "resource_status_text Resource_inactive = ''inactive''"

definition resource_response :: "drf \<Rightarrow> resource \<Rightarrow> json" where
  "resource_response f r = JObj
     [(''id'', JStr (uuid_text (rs_id r))), (''name'', JStr (rs_name r)),
      (''category'', JStr (rs_category r)), (''timezone'', JStr (rs_timezone r)),
      (''bookable_start_time'', JStr (df_clock f (rs_bookable_start r))),
      (''bookable_end_time'', JStr (df_clock f (rs_bookable_end r))),
      (''max_booking_duration_minutes'', opt_json JNum (rs_max_duration r)),
      (''offboarding_policy'', JStr (policy_text (rs_policy r))),
      (''status'', JStr (resource_status_text (rs_status r))),
      (''created_by'', JStr (uuid_text (rs_created_by r))),
      (''created_at'', JStr (df_time f (rs_created_at r)))]"

section \<open>The collection\<close>

definition create_resource_view ::
  "env \<Rightarrow> drf \<Rightarrow> resource_forms \<Rightarrow> uuid list \<Rightarrow> request \<Rightarrow> reply svc" where
  "create_resource_view env f fr groups rq =
     then_svc (ensure (is_system_admin (rq_user rq)) PermissionDenied)
    (bind_svc (resource_create_serializer env fr groups (rq_data rq)) (\<lambda>x.
     bind_svc (create_resource env
        \<lparr> rc_actor = au_id (rq_user rq), rc_request_id = rq_request_id rq, rc_name = xf_name x,
          rc_category = xf_category x, rc_timezone = xf_timezone x,
          rc_bookable_start = xf_bookable_start x, rc_bookable_end = xf_bookable_end x,
          rc_max_duration = xf_max_duration x, rc_policy = xf_policy x,
          rc_restricted_group = xf_restricted_group x \<rparr>)
       (\<lambda>r. ret (plain_reply 201 (resource_response f r)))))"

text \<open>Names are compared by the database's collation: \<open>name_lt\<close>.\<close>

definition resource_key :: "resource \<Rightarrow> codes \<times> uuid" where
  "resource_key r = (codes (rs_name r), rs_id r)"

definition name_key_lt :: "(codes \<Rightarrow> codes \<Rightarrow> bool) \<Rightarrow> codes \<times> uuid \<Rightarrow> codes \<times> uuid \<Rightarrow> bool" where
  "name_key_lt name_lt a b = (name_lt (fst a) (fst b) \<or> (fst a = fst b \<and> snd a < snd b))"

definition name_cursor :: "codes \<times> uuid \<Rightarrow> string" where
  "name_cursor k = encode_cursor (fst k) (codes (uuid_text (snd k)))"

definition read_name_cursor :: "string \<Rightarrow> exn + (codes \<times> uuid)" where
  "read_name_cursor text = (case decode_cursor text of
      Inl e \<Rightarrow> Inl (PolicyValidationError ''cursor'' ''malformed cursor'')
    | Inr (name, id_text) \<Rightarrow>
        (case (if list_all (\<lambda>n. n < 256) id_text then parse_uuid (map char_of id_text) else None) of
           None \<Rightarrow> Inl DjangoValidationError
         | Some u \<Rightarrow> Inr (name, u)))"

definition resources_page ::
  "(codes \<Rightarrow> codes \<Rightarrow> bool) \<Rightarrow> nat \<Rightarrow> string option \<Rightarrow> resource list
     \<Rightarrow> exn + (resource list \<times> string option)" where
  "resources_page name_lt limit cursor rows =
     text_page (name_key_lt name_lt) resource_key name_cursor read_name_cursor limit (given cursor) rows"

definition list_resources_view ::
  "(codes \<Rightarrow> codes \<Rightarrow> bool) \<Rightarrow> drf \<Rightarrow> request \<Rightarrow> string option \<Rightarrow> string option \<Rightarrow> reply svc" where
  "list_resources_view name_lt f rq raw_limit cursor = bind_svc (page_limit raw_limit) (\<lambda>limit.
     bind_svc (query (\<lambda>d. resources_page name_lt limit cursor (visible_resources_queryset (rq_user rq) d))) (\<lambda>page.
     bind_svc (lift page) (\<lambda>(rows, next_cursor).
       ret (plain_reply 200 (JObj [(''data'', JArr (map (resource_response f) rows)),
         (''next_cursor'', opt_json JStr next_cursor)])))))"

section \<open>One resource\<close>

definition resource_detail_view :: "drf \<Rightarrow> request \<Rightarrow> uuid \<Rightarrow> reply svc" where
  "resource_detail_view f rq pk = bind_svc (get_or_404 resources (\<lambda>r. rs_id r = pk)) (\<lambda>r.
     then_svc (ensure_db (can_view_resource (rq_user rq) r) NotFoundError)
       (ret (plain_reply 200 (resource_response f r))))"

text \<open>The gate of the administrative endpoints of one resource.\<close>

definition administered_resource :: "request \<Rightarrow> uuid \<Rightarrow> resource svc" where
  "administered_resource rq pk = bind_svc (get_or_404 resources (\<lambda>r. rs_id r = pk)) (\<lambda>r.
     then_svc (ensure_db (can_administer_resource (rq_user rq) (rs_id r)) PermissionDenied) (ret r))"

definition update_resource_view ::
  "env \<Rightarrow> drf \<Rightarrow> resource_forms \<Rightarrow> request \<Rightarrow> uuid \<Rightarrow> reply svc" where
  "update_resource_view env f fr rq pk = bind_svc (administered_resource rq pk) (\<lambda>r.
     bind_svc (resource_update_serializer fr r (rq_data rq)) (\<lambda>x.
     bind_svc (update_resource env
        \<lparr> ru_resource = rs_id r, ru_actor = au_id (rq_user rq), ru_request_id = rq_request_id rq,
          ru_name = xc_name x, ru_bookable_start = xc_bookable_start x,
          ru_bookable_end = xc_bookable_end x,
          ru_max_duration = (case xc_max_duration x of None \<Rightarrow> None | Some v \<Rightarrow> v),
          ru_max_duration_set = (xc_max_duration x \<noteq> None),
          ru_policy = xc_policy x, ru_status = xc_status x \<rparr>)
       (\<lambda>r'. ret (plain_reply 200 (resource_response f r')))))"

definition grant_view :: "env \<Rightarrow> drf \<Rightarrow> request \<Rightarrow> uuid \<Rightarrow> reply svc" where
  "grant_view env f rq pk = bind_svc (administered_resource rq pk) (\<lambda>r.
     bind_svc (valid (df_user_id f (rq_data rq))) (\<lambda>grantee_id.
     bind_svc (query (\<lambda>d. find (\<lambda>u. au_id u = grantee_id) (users d))) (\<lambda>grantee.
       case grantee of
         None \<Rightarrow> raise (PolicyValidationError ''user_id'' ''no such user'')
       | Some u \<Rightarrow> bind_svc (grant_resource_admin env
            \<lparr> gr_resource = rs_id r, gr_grantee = au_id u, gr_actor = au_id (rq_user rq),
              gr_request_id = rq_request_id rq \<rparr>)
           (\<lambda>g. ret (plain_reply 201 (JObj [(''resource_id'', JStr (uuid_text (rs_id r))),
               (''user_id'', JStr (uuid_text (au_id u))),
               (''granted_at'', JStr (iso_z (ra_granted_at g))),
               (''granted_by'', JStr (uuid_text (au_id (rq_user rq))))]))))))"

definition revoke_view :: "env \<Rightarrow> request \<Rightarrow> uuid \<Rightarrow> uuid \<Rightarrow> reply svc" where
  "revoke_view env rq pk user_id = bind_svc (administered_resource rq pk) (\<lambda>r.
     then_svc (revoke_resource_admin env
        \<lparr> rv_resource = rs_id r, rv_user = user_id, rv_actor = au_id (rq_user rq),
          rv_request_id = rq_request_id rq \<rparr>)
       (ret (plain_reply 204 JNull)))"

section \<open>Availability\<close>

text \<open>The framework's parsers: an error message for a well-formed date that does not exist, nothing
  for a text of another form; a naive datetime is one in UTC.\<close>

record boundary_parsers =
  bp_date :: "string \<Rightarrow> string + date option"
  bp_datetime :: "string \<Rightarrow> string + instant option"
  bp_repr :: "string \<Rightarrow> string"

definition parse_boundary_datetime :: "boundary_parsers \<Rightarrow> string \<Rightarrow> string + instant" where
  "parse_boundary_datetime bp value = (case bp_date bp value of
      Inl msg \<Rightarrow> Inl msg
    | Inr (Some dt) \<Rightarrow> Inr (dt * day)
    | Inr None \<Rightarrow> (case bp_datetime bp value of
          Inl msg \<Rightarrow> Inl msg
        | Inr None \<Rightarrow> Inl (bp_repr bp value @ '' is not a valid date or datetime'')
        | Inr (Some t) \<Rightarrow> Inr t))"

definition boundary :: "boundary_parsers \<Rightarrow> string \<Rightarrow> string \<Rightarrow> instant svc" where
  "boundary bp name value = (case parse_boundary_datetime bp value of
      Inl msg \<Rightarrow> raise (PolicyValidationError name msg) | Inr t \<Rightarrow> ret t)"

definition required :: "string \<Rightarrow> string option \<Rightarrow> string svc" where
  "required name v = (case given v of
      None \<Rightarrow> raise (PolicyValidationError name ''is required'') | Some t \<Rightarrow> ret t)"

definition query_window ::
  "boundary_parsers \<Rightarrow> string option \<Rightarrow> string option \<Rightarrow> (instant \<times> instant) svc" where
  "query_window bp from_param to_param =
     bind_svc (required ''from'' from_param) (\<lambda>a. bind_svc (required ''to'' to_param) (\<lambda>b.
     bind_svc (boundary bp ''from'' a) (\<lambda>from_dt. bind_svc (boundary bp ''to'' b) (\<lambda>to_dt.
     then_svc (ensure (from_dt < to_dt) (PolicyValidationError ''to'' ''must be after from''))
       (ret (from_dt, to_dt))))))"

definition privileged :: "app_user \<Rightarrow> uuid \<Rightarrow> db \<Rightarrow> bool" where
  "privileged u res d = (can_administer_resource u res d \<or> is_operations u)"

definition reveals :: "app_user \<Rightarrow> bool \<Rightarrow> booking \<Rightarrow> bool" where
  "reveals u priv b = (bk_status b \<noteq> Held \<and> (bk_user b = au_id u \<or> priv))"

definition busy_block :: "(uuid \<Rightarrow> string option) \<Rightarrow> app_user \<Rightarrow> bool \<Rightarrow> booking \<Rightarrow> json" where
  "busy_block display_names u priv b = JObj
     ([(''start'', JStr (iso_z (lo (bk_range b)))), (''end'', JStr (iso_z (hi (bk_range b))))] @
      (if reveals u priv b
       then [(''booking_id'', JStr (uuid_text (bk_id b))),
             (''owner'', JObj [(''id'', JStr (uuid_text (bk_user b))),
                (''display_name'', opt_json JStr (display_names (bk_user b)))])]
       else []))"

definition busy_bookings :: "uuid \<Rightarrow> instant \<Rightarrow> instant \<Rightarrow> db \<Rightarrow> booking list" where
  "busy_bookings res s e d = order_by (\<lambda>a b. bk_starts_at a \<le> bk_starts_at b)
     (filter (\<lambda>b. bk_resource b = res \<and> active_status (bk_status b) \<and> overlaps (bk_range b) (TR s e))
       (bookings d))"

definition busy_blocks :: "app_user \<Rightarrow> uuid \<Rightarrow> instant \<Rightarrow> instant \<Rightarrow> db \<Rightarrow> json list" where
  "busy_blocks u res s e d =
     map (busy_block (display_name d) u (privileged u res d)) (busy_bookings res s e d)"

definition availability_view ::
  "boundary_parsers \<Rightarrow> env \<Rightarrow> request \<Rightarrow> uuid \<Rightarrow> string option \<Rightarrow> string option \<Rightarrow> reply svc" where
  "availability_view bp env rq pk from_param to_param =
     bind_svc (get_or_404 resources (\<lambda>r. rs_id r = pk)) (\<lambda>r.
     then_svc (ensure_db (can_view_resource (rq_user rq) r) NotFoundError)
    (bind_svc (query_window bp from_param to_param) (\<lambda>(from_dt, to_dt).
     then_svc (ensure (to_dt - from_dt \<le> MAX_AVAILABILITY_QUERY_DAYS * day)
         (PolicyValidationError ''to'' ''range must not exceed 92 days''))
    (bind_svc (query (busy_blocks (rq_user rq) (rs_id r) from_dt to_dt)) (\<lambda>blocks.
       ret (plain_reply 200 (JObj [(''resource_id'', JStr (uuid_text (rs_id r))),
         (''timezone'', JStr (rs_timezone r)),
         (''range'', JObj [(''from'', JStr (iso_z from_dt)), (''to'', JStr (iso_z to_dt))]),
         (''as_of'', JStr (iso_z (ev_py_now env))),
         (''data_freshness'', JStr (select_read_source current_replica_lag_seconds REPLICA_LAG_THRESHOLD_SECONDS)),
         (''busy_blocks'', JArr blocks)])))))))"

section \<open>Utilization\<close>

definition in_window :: "instant \<Rightarrow> instant \<Rightarrow> instant option \<Rightarrow> bool" where
  "in_window s e v = (case v of None \<Rightarrow> False | Some t \<Rightarrow> s \<le> t \<and> t < e)"

definition confirmed_in :: "uuid \<Rightarrow> instant \<Rightarrow> instant \<Rightarrow> db \<Rightarrow> booking list" where
  "confirmed_in res s e d = filter (\<lambda>b. bk_resource b = res \<and> bk_status b = Confirmed \<and>
     in_window s e (Some (bk_starts_at b))) (bookings d)"

definition booked_minutes :: "booking list \<Rightarrow> int" where
  "booked_minutes bs = sum_list (map (\<lambda>b. hi (bk_range b) - lo (bk_range b)) bs) div minute"

definition utilization_view ::
  "boundary_parsers \<Rightarrow> request \<Rightarrow> uuid \<Rightarrow> string option \<Rightarrow> string option \<Rightarrow> reply svc" where
  "utilization_view bp rq pk from_param to_param =
     bind_svc (get_or_404 resources (\<lambda>r. rs_id r = pk)) (\<lambda>r.
     then_svc (ensure_db (privileged (rq_user rq) (rs_id r)) PermissionDenied)
    (bind_svc (query_window bp from_param to_param) (\<lambda>(s, e).
     bind_svc (query (\<lambda>d.
       let confirmed = confirmed_in (rs_id r) s e d;
           offers_in_range = filter (\<lambda>w. wo_resource w = rs_id r \<and> in_window s e (Some (wo_created_at w))) (offers d)
       in [(''total_bookings'', JNum (int (length confirmed))),
           (''total_booked_minutes'', JNum (booked_minutes confirmed)),
           (''waitlist_joins'', JNum (int (count_if (\<lambda>w. we_resource w = rs_id r \<and>
              in_window s e (Some (we_joined_at w))) (entries d)))),
           (''cancellation_count'', JNum (int (count_if (\<lambda>b. bk_resource b = rs_id r \<and>
              in_window s e (bk_cancelled_at b)) (bookings d)))),
           (''offers_confirmed'', JNum (int (count_if (\<lambda>w. wo_status w = Offer_confirmed) offers_in_range))),
           (''offers_expired'', JNum (int (count_if (\<lambda>w. wo_status w = Offer_expired) offers_in_range)))]))
       (\<lambda>counts. ret (plain_reply 200 (JObj ([(''resource_id'', JStr (uuid_text (rs_id r))),
           (''range'', JObj [(''from'', JStr (iso_z s)), (''to'', JStr (iso_z e))])] @ counts)))))))"

section \<open>The reads leave the database alone\<close>

lemma pure_resource_serializers [pure_intros]:
  "pure_svc (resource_create_serializer env fr groups data)"
  "pure_svc (resource_update_serializer fr r data)" "pure_svc (administered_resource rq pk)"
  unfolding resource_create_serializer_def resource_update_serializer_def
    validate_bookable_window_def administered_resource_def Let_def
  by (auto intro!: pure_intros)

lemma pure_query_window [pure_intros]: "pure_svc (query_window bp a b)"
proof -
  have "pure_svc (required nm v)" "pure_svc (boundary bp nm t)" for nm v t
    unfolding required_def boundary_def by (auto intro!: pure_intros split: option.split sum.split)
  then show ?thesis unfolding query_window_def by (auto intro!: pure_intros)
qed

lemma pure_resource_reads [pure_intros]:
  "pure_svc (list_resources_view name_lt f rq raw_limit cursor)" "pure_svc (resource_detail_view f rq pk)"
  "pure_svc (availability_view bp env rq pk a b)" "pure_svc (utilization_view bp rq pk a b)"
proof -
  have l: "pure_svc (page_limit v)" for v
    unfolding page_limit_def by (auto intro!: pure_intros split: sum.split exn.split)
  show "pure_svc (list_resources_view name_lt f rq raw_limit cursor)"
    unfolding list_resources_view_def by (auto simp: split_beta intro!: pure_intros l)
  show "pure_svc (resource_detail_view f rq pk)"
    unfolding resource_detail_view_def by (auto intro!: pure_intros)
  show "pure_svc (availability_view bp env rq pk a b)" "pure_svc (utilization_view bp rq pk a b)"
    unfolding availability_view_def utilization_view_def by (auto simp: split_beta intro!: pure_intros)
qed

end
