(* ===== verification/Identity_Api.thy ===== *)
theory Identity_Api
  imports Api Offboarding Checks
begin

text \<open>
  Who a request comes from: \<open>identity/oidc.py\<close> (verification of ID tokens, the service's own session
  tokens), \<open>identity/authentication.py\<close> (the two authenticators), \<open>identity/views.py\<close> (login,
  deactivation), the dispatch of \<open>KairosAPIView\<close> in \<open>core/views.py\<close> and the request-id and CORS
  middleware of \<open>core/middleware.py\<close>.

  Signing, verification and key retrieval belong to the JWT library and the network: \<open>jwt\<close> holds
  them as parameters, each with nothing for the library's error.  A claim set is a list of
  named JSON values.
\<close>

type_synonym claims = "(string \<times> json) list"

record jwt =
  jw_unverified :: "string \<Rightarrow> claims option"                        \<comment> \<open>\<open>verify_signature: False\<close>\<close>
  jw_rs256 :: "string \<Rightarrow> string \<Rightarrow> string \<Rightarrow> string option \<Rightarrow> claims option"  \<comment> \<open>token, key, audience, issuer\<close>
  jw_hs256 :: "string \<Rightarrow> claims option"                            \<comment> \<open>with the session signing key\<close>
  jw_sign_rs256 :: "claims \<Rightarrow> string"
  jw_sign_hs256 :: "claims \<Rightarrow> string"
  jw_encode_none :: "claims \<Rightarrow> string \<Rightarrow> string option"            \<comment> \<open>\<open>algorithm="none"\<close> and a key\<close>
  jw_signing_key :: "string \<Rightarrow> string \<Rightarrow> string option"            \<comment> \<open>JWKS address and token\<close>
  jw_reachable :: "string \<Rightarrow> bool"
  jw_text :: "json \<Rightarrow> string"                                      \<comment> \<open>\<open>str(x)\<close> of what is not a string\<close>

record auth_settings =
  st_mock_enabled :: bool        \<comment> \<open>\<open>KAIROS_OIDC_MOCK_ENABLED\<close>\<close>
  st_stub_enabled :: bool        \<comment> \<open>\<open>KAIROS_DEV_AUTH_STUB_ENABLED\<close>\<close>
  st_issuer :: string
  st_client_id :: string
  st_mock_public_key :: string
  st_session_ttl :: int          \<comment> \<open>seconds\<close>

section \<open>ID tokens\<close>

definition MOCK_ISSUER :: string where "MOCK_ISSUER = ''https://mock-oidc.kairos.local''"
definition MOCK_AUDIENCE :: string where "MOCK_AUDIENCE = ''kairos-api''"

datatype oidc_failure = OIDCError string | Unreachable

record verified_identity =
  vi_subject :: string
  vi_email :: string
  vi_name :: string

fun truthy :: "json \<Rightarrow> bool" where
  "truthy JNull = False"
| "truthy (JBool b) = b"
| "truthy (JNum n) = (n \<noteq> 0)"
| "truthy (JStr s) = (s \<noteq> '''')"
| "truthy (JArr vs) = (vs \<noteq> [])"
| "truthy (JObj ps) = (ps \<noteq> [])"

definition claim_of :: "string \<Rightarrow> claims \<Rightarrow> json" where
  "claim_of k cs = (case map_of cs k of None \<Rightarrow> JNull | Some v \<Rightarrow> v)"

definition claim_text :: "jwt \<Rightarrow> json \<Rightarrow> string" where
  "claim_text j v = (case v of JStr s \<Rightarrow> s | _ \<Rightarrow> jw_text j v)"

text \<open>Whole seconds of the process clock.\<close>

definition unix_time :: "env \<Rightarrow> int" where "unix_time env = ev_py_now env div second"

definition mint_mock_id_token :: "jwt \<Rightarrow> env \<Rightarrow> string \<Rightarrow> string \<Rightarrow> string \<Rightarrow> string" where
  "mint_mock_id_token j env subject email name = jw_sign_rs256 j
     [(''iss'', JStr MOCK_ISSUER), (''sub'', JStr subject), (''aud'', JStr MOCK_AUDIENCE),
      (''email'', JStr email), (''name'', JStr name), (''iat'', JNum (unix_time env)),
      (''exp'', JNum (unix_time env + 300))]"

definition rstrip :: "char \<Rightarrow> string \<Rightarrow> string" where
  "rstrip c s = rev (dropWhile (\<lambda>x. x = c) (rev s))"

text \<open>The real provider: the key is looked up with a token re-encoded from the unverified claims.\<close>

definition fetch_jwks_public_key ::
  "jwt \<Rightarrow> auth_settings \<Rightarrow> string \<Rightarrow> claims \<Rightarrow> oidc_failure + string" where
  "fetch_jwks_public_key j st issuer unverified =
     (if issuer = '''' \<or> issuer \<noteq> st_issuer st then Inl (OIDCError ''unrecognized token issuer'')
      else let url = rstrip CHR ''/'' issuer @ ''/.well-known/jwks.json'' in
        if \<not> jw_reachable j url then Inl Unreachable
        else case jw_encode_none j unverified ''unused'' of
            None \<Rightarrow> Inl (OIDCError ''token failed signature/issuer/audience/expiry verification'')
          | Some t \<Rightarrow> (case jw_signing_key j url t of
              None \<Rightarrow> Inl (OIDCError ''token failed signature/issuer/audience/expiry verification'')
            | Some key \<Rightarrow> Inr key))"

definition decoded :: "claims option \<Rightarrow> oidc_failure + claims" where
  "decoded v = (case v of
      None \<Rightarrow> Inl (OIDCError ''token failed signature/issuer/audience/expiry verification'')
    | Some cs \<Rightarrow> Inr cs)"

definition verified_claims :: "jwt \<Rightarrow> auth_settings \<Rightarrow> string \<Rightarrow> claims \<Rightarrow> oidc_failure + claims" where
  "verified_claims j st token unverified =
     (let issuer = (if truthy (claim_of ''iss'' unverified) then claim_text j (claim_of ''iss'' unverified) else '''')
      in if issuer = MOCK_ISSUER
         then (if \<not> st_mock_enabled st then Inl (OIDCError ''mock issuer is not enabled in this environment'')
               else decoded (jw_rs256 j token (st_mock_public_key st) MOCK_AUDIENCE None))
         else (case fetch_jwks_public_key j st issuer unverified of
             Inl e \<Rightarrow> Inl e
           | Inr key \<Rightarrow> decoded (jw_rs256 j token key (st_client_id st) (Some (st_issuer st)))))"

definition verify_id_token :: "jwt \<Rightarrow> auth_settings \<Rightarrow> string \<Rightarrow> oidc_failure + verified_identity" where
  "verify_id_token j st token = (case jw_unverified j token of
      None \<Rightarrow> Inl (OIDCError ''malformed token'')
    | Some unverified \<Rightarrow> (case verified_claims j st token unverified of
        Inl e \<Rightarrow> Inl e
      | Inr cs \<Rightarrow>
          let email = claim_of ''email'' cs; subject = claim_of ''sub'' cs; name = claim_of ''name'' cs
          in if \<not> truthy email \<or> \<not> truthy subject
             then Inl (OIDCError ''token is missing required sub/email claims'')
             else Inr \<lparr> vi_subject = claim_text j subject, vi_email = claim_text j email,
                  vi_name = claim_text j (if truthy name then name else email) \<rparr>))"

section \<open>Session tokens\<close>

definition issue_session_token :: "jwt \<Rightarrow> auth_settings \<Rightarrow> env \<Rightarrow> uuid \<Rightarrow> string \<times> int" where
  "issue_session_token j st env u =
     (jw_sign_hs256 j [(''sub'', JStr (uuid_text u)), (''iat'', JNum (unix_time env)),
        (''exp'', JNum (unix_time env + st_session_ttl st))], st_session_ttl st)"

datatype token_failure = SessionTokenError | Not_a_text      \<comment> \<open>\<open>uuid.UUID\<close> of a value that is no string\<close>

definition verify_session_token :: "jwt \<Rightarrow> string \<Rightarrow> token_failure + uuid" where
  "verify_session_token j token = (case jw_hs256 j token of
      None \<Rightarrow> Inl SessionTokenError
    | Some cs \<Rightarrow> (case map_of cs ''sub'' of
        None \<Rightarrow> Inl SessionTokenError
      | Some (JStr s) \<Rightarrow> (case parse_uuid s of None \<Rightarrow> Inl SessionTokenError | Some u \<Rightarrow> Inr u)
      | Some v \<Rightarrow> Inl Not_a_text))"

section \<open>The authenticators\<close>

record headers =
  hd_authorization :: "string option"
  hd_dev_user :: "string option"
  hd_request_id :: "string option"
  hd_origin :: "string option"
  hd_preflight_method :: "string option"     \<comment> \<open>\<open>Access-Control-Request-Method\<close>\<close>
  hd_preflight_headers :: "string option"    \<comment> \<open>\<open>Access-Control-Request-Headers\<close>\<close>

definition reject_if_deactivated :: "app_user \<Rightarrow> unit svc" where
  "reject_if_deactivated u =
     ensure (au_status u \<noteq> User_deactivated) (AuthenticationFailed ''deactivated_account'')"

definition known_user :: "uuid \<Rightarrow> app_user option svc" where
  "known_user i = bind_svc (query (\<lambda>d. find (\<lambda>u. au_id u = i) (users d))) (\<lambda>u.
     case u of None \<Rightarrow> raise (AuthenticationFailed ''unknown_user'')
     | Some v \<Rightarrow> then_svc (reject_if_deactivated v) (ret (Some v)))"

definition oidc_session_authenticate :: "jwt \<Rightarrow> headers \<Rightarrow> app_user option svc" where
  "oidc_session_authenticate j h = (case hd_authorization h of
      None \<Rightarrow> ret None
    | Some value \<Rightarrow>
        if \<not> starts_with ''Bearer '' value then ret None
        else (case verify_session_token j (strip is_space (drop (length ''Bearer '') value)) of
            Inl SessionTokenError \<Rightarrow> raise (AuthenticationFailed ''invalid_session_token'')
          | Inl Not_a_text \<Rightarrow> raise (TypeError ''replace'')
          | Inr i \<Rightarrow> known_user i))"

definition stub_user_id_authenticate :: "auth_settings \<Rightarrow> headers \<Rightarrow> app_user option svc" where
  "stub_user_id_authenticate st h =
     (if \<not> st_stub_enabled st then ret None
      else case hd_dev_user h of
          None \<Rightarrow> ret None
        | Some value \<Rightarrow> (case parse_uuid value of
            None \<Rightarrow> raise (AuthenticationFailed ''malformed_dev_header'')
          | Some i \<Rightarrow> known_user i))"

section \<open>Dispatch\<close>

text \<open>The framework asks the authenticators in turn until one knows the user.\<close>

definition authenticate :: "jwt \<Rightarrow> auth_settings \<Rightarrow> headers \<Rightarrow> app_user option svc" where
  "authenticate j st h = bind_svc (oidc_session_authenticate j h) (\<lambda>u.
     case u of Some v \<Rightarrow> ret (Some v) | None \<Rightarrow> stub_user_id_authenticate st h)"

text \<open>\<open>throttled\<close>: every throttle is asked; the last one that refused left its cause on the request, and
  the longest of the waits is the one that is advertised.\<close>

definition throttled :: "throttle_answer list \<Rightarrow> unit svc" where
  "throttled answers = (case filter (\<lambda>a. \<not> th_allowed a) answers of
      [] \<Rightarrow> ret ()
    | rs \<Rightarrow> raise (Throttled
         (case List.map_filter th_wait rs of [] \<Rightarrow> None | w # ws \<Rightarrow> Some (fold max ws w))
         (case th_cause (last rs) of None \<Rightarrow> ''rate_limited'' | Some c \<Rightarrow> c)))"

definition kairos_api_view ::
  "jwt \<Rightarrow> auth_settings \<Rightarrow> headers \<Rightarrow> (app_user \<Rightarrow> throttle_answer list) \<Rightarrow> (app_user \<Rightarrow> reply svc)
     \<Rightarrow> reply svc" where
  "kairos_api_view j st h throttles handler = bind_svc (authenticate j st h) (\<lambda>u.
     case u of
       None \<Rightarrow> raise NotAuthenticated
     | Some v \<Rightarrow> then_svc (throttled (throttles v)) (handler v))"

section \<open>Login\<close>

definition insert_user :: "env \<Rightarrow> app_user \<Rightarrow> app_user svc" where
  "insert_user env = insert_row env OnUser check_user users put_users None"

definition provisioned_user :: "env \<Rightarrow> string \<Rightarrow> string \<Rightarrow> app_user" where
  "provisioned_user env email name = \<lparr> au_id = ev_uuid env, au_email = email, au_name = name,
     au_role = Booker, au_status = User_active, au_deactivated_at = None \<rparr>"

text \<open>\<open>get_or_create\<close>: look, create, and look again when a constraint refused the row.\<close>

definition resolve_or_provision_user :: "env \<Rightarrow> string \<Rightarrow> string \<Rightarrow> app_user svc" where
  "resolve_or_provision_user env email name =
     (let look = query (\<lambda>d. find (\<lambda>u. au_email u = email) (users d)) in
      bind_svc look (\<lambda>found. case found of
          Some u \<Rightarrow> ret u
        | None \<Rightarrow> catch_svc (autocommit env (insert_user env (provisioned_user env email name)))
            (\<lambda>e. if e \<in> {DatabaseError (Some ''23505''), DatabaseError (Some ''23514'')}
               then bind_svc look (\<lambda>again. case again of Some u \<Rightarrow> ret u | None \<Rightarrow> raise e)
               else raise e)))"

record login_forms =
  lf_token :: "json \<Rightarrow> json + string"                   \<comment> \<open>\<open>id_token\<close>\<close>
  lf_mock :: "json \<Rightarrow> json + (string \<times> string option)"  \<comment> \<open>\<open>email\<close>, \<open>display_name\<close>\<close>

text \<open>The login endpoints need no user, but the framework still runs the authenticator they declare.\<close>

definition token_exchange_view ::
  "jwt \<Rightarrow> auth_settings \<Rightarrow> env \<Rightarrow> login_forms \<Rightarrow> headers \<Rightarrow> json \<Rightarrow> reply svc" where
  "token_exchange_view j st env lf h data =
     then_svc (oidc_session_authenticate j h)
    (bind_svc (valid (lf_token lf data)) (\<lambda>id_token.
       case verify_id_token j st id_token of
         Inl (OIDCError m) \<Rightarrow> raise (AuthenticationFailed ''authentication_failed'')
       | Inl Unreachable \<Rightarrow> raise OSError
       | Inr identity \<Rightarrow>
           bind_svc (resolve_or_provision_user env (vi_email identity) (vi_name identity)) (\<lambda>u.
             let (access_token, expires_in) = issue_session_token j st env (au_id u)
             in ret (plain_reply 200 (JObj [(''access_token'', JStr access_token),
                  (''token_type'', JStr ''Bearer''), (''expires_in'', JNum expires_in)])))))"

definition dev_mock_login_view ::
  "jwt \<Rightarrow> auth_settings \<Rightarrow> env \<Rightarrow> login_forms \<Rightarrow> headers \<Rightarrow> json \<Rightarrow> reply svc" where
  "dev_mock_login_view j st env lf h data =
     then_svc (oidc_session_authenticate j h)
    (then_svc (ensure (st_mock_enabled st) NotFoundError)
    (bind_svc (valid (lf_mock lf data)) (\<lambda>(email, given_name).
       let name = (case given_name of None \<Rightarrow> email | Some n \<Rightarrow> if n = '''' then email else n)
       in then_svc (ensure (name \<noteq> '''') (PolicyValidationError ''display_name'' ''must not be blank''))
            (ret (plain_reply 200 (JObj [(''id_token'', JStr (mint_mock_id_token j env email email name))]))))))"

section \<open>Deactivation of a user\<close>

fun user_status_text :: "user_status \<Rightarrow> string" where
  "user_status_text User_active = ''active''"
| "user_status_text User_deactivated = ''deactivated''"

definition deactivate_body :: "deactivate_result \<Rightarrow> json" where
  "deactivate_body r = JObj
     [(''user_id'', JStr (uuid_text (dr_user r))), (''status'', JStr (user_status_text (dr_status r))),
      (''bookings_transferred'', JNum (int (dr_transferred r))),
      (''bookings_cancelled'', JNum (int (dr_cancelled r))),
      (''bookings_retained'', JNum (int (dr_retained r))),
      (''waitlist_entries_cancelled'', JNum (int (dr_entries_cancelled r))),
      (''offers_released'', JNum (int (dr_offers_released r))),
      (''series_flagged_for_admin'', JArr (map (\<lambda>(sid, res, n). JObj
         [(''series_id'', JStr (uuid_text sid)), (''resource_id'', JStr (uuid_text res)),
          (''occurrences_remaining'', JNum (int n))]) (dr_series_flagged r)))]"

definition user_deactivate_view :: "env \<Rightarrow> drf \<Rightarrow> request \<Rightarrow> uuid \<Rightarrow> reply svc" where
  "user_deactivate_view env f rq pk = bind_svc (require_idempotency_key rq) (\<lambda>key.
     then_svc (ensure (is_system_admin (rq_user rq)) PermissionDenied)
    (bind_svc (get_or_404 users (\<lambda>u. au_id u = pk)) (\<lambda>target.
     bind_svc (valid (df_required_reason f (rq_data rq))) (\<lambda>reason.
     bind_svc (dict_of_data (rq_data rq)) (\<lambda>body.
       answer_write env (write_request_of rq key
           (''POST /api/v1/admin/users/'' @ uuid_text pk @ ''/deactivate'')
           (with_id ''user_id'' pk body) Actor_admin (Some reason))
         (bind_svc (deactivate_user env \<lparr> dq_target = au_id target, dq_actor = au_id (rq_user rq),
              dq_reason = reason, dq_request_id = rq_request_id rq \<rparr>)
            (\<lambda>r. ret (200, deactivate_body r))))))))"

section \<open>Middleware\<close>

text \<open>\<open>X-Request-Id\<close>: the client's, or a fresh one; it is on every response.\<close>

definition request_id_of :: "env \<Rightarrow> headers \<Rightarrow> string" where
  "request_id_of env h = (case given (hd_request_id h) of None \<Rightarrow> uuid_text (ev_uuid env) | Some t \<Rightarrow> t)"

text \<open>The response as it leaves the application: the body is JSON, the HTML page, or nothing;
  \<open>ha_cause\<close> is the attribute that the exception handler leaves on it for the metrics.\<close>

datatype content = Json json | Page | No_content

record http_answer =
  ha_status :: int
  ha_headers :: "(string \<times> string) list"
  ha_body :: content
  ha_cause :: "string option"

definition header :: "string \<Rightarrow> (string \<times> string) list \<Rightarrow> string option" where
  "header k hs = map_of hs k"

definition set_header :: "string \<Rightarrow> string \<Rightarrow> (string \<times> string) list \<Rightarrow> (string \<times> string) list" where
  "set_header k v hs = (if header k hs = None then hs @ [(k, v)]
     else map (\<lambda>p. if fst p = k then (k, v) else p) hs)"

text \<open>A middleware calls \<open>get_response\<close>, which may change the state \<open>'s\<close> behind the application.\<close>

type_synonym 's get_response = "'s \<Rightarrow> http_answer \<times> 's"

definition request_id_middleware ::
  "env \<Rightarrow> headers \<Rightarrow> (string \<Rightarrow> 's get_response) \<Rightarrow> 's get_response" where
  "request_id_middleware env h get_response d =
     (let rid = request_id_of env h
      in case get_response rid d of
           (r, d') \<Rightarrow> (r\<lparr> ha_headers := set_header ''X-Request-Id'' rid (ha_headers r) \<rparr>, d'))"

definition vary_with_origin :: "string option \<Rightarrow> string" where
  "vary_with_origin existing =
     (let values = filter (\<lambda>v. v \<noteq> '''') (map (strip is_space)
            (split_on CHR '','' (case existing of None \<Rightarrow> '''' | Some v \<Rightarrow> v)))
      in join_text '', '' (order_by text_le (remdups (values @ [''Origin'']))))"

definition cors_allowed :: "string list \<Rightarrow> headers \<Rightarrow> bool" where
  "cors_allowed origins h = (case hd_origin h of None \<Rightarrow> False | Some o' \<Rightarrow> o' \<in> List.set origins)"

definition preflight_answer :: "headers \<Rightarrow> bool \<Rightarrow> http_answer" where
  "preflight_answer h allowed =
     (if \<not> allowed then \<lparr> ha_status = 403, ha_headers = [], ha_body = No_content, ha_cause = None \<rparr>
      else \<lparr> ha_status = 204, ha_headers =
        [(''Access-Control-Allow-Methods'', ''GET, POST, PATCH, DELETE, OPTIONS'')]
        @ (case given (hd_preflight_headers h) of None \<Rightarrow> []
             | Some v \<Rightarrow> [(''Access-Control-Allow-Headers'', v)])
        @ [(''Access-Control-Max-Age'', ''600'')], ha_body = No_content, ha_cause = None \<rparr>)"

definition is_preflight :: "string \<Rightarrow> headers \<Rightarrow> bool" where
  "is_preflight verb h = (verb = ''OPTIONS'' \<and> hd_preflight_method h \<noteq> None)"

definition cors_middleware ::
  "string list \<Rightarrow> string \<Rightarrow> headers \<Rightarrow> 's get_response \<Rightarrow> 's get_response" where
  "cors_middleware origins verb h get_response d =
     (let allowed = cors_allowed origins h
      in case (if is_preflight verb h then (preflight_answer h allowed, d) else get_response d) of
        (r, d') \<Rightarrow>
          (if \<not> allowed then r
           else r\<lparr> ha_headers := set_header ''Vary'' (vary_with_origin (header ''Vary'' (ha_headers r)))
              (set_header ''Access-Control-Allow-Origin'' (the (hd_origin h)) (ha_headers r)) \<rparr>, d'))"

section \<open>Safety\<close>

lemma pure_authenticate [pure_intros]:
  "pure_svc (oidc_session_authenticate j h)" "pure_svc (stub_user_id_authenticate st h)"
  "pure_svc (authenticate j st h)" "pure_svc (throttled answers)"
proof -
  have k: "pure_svc (known_user i)" for i
    unfolding known_user_def reject_if_deactivated_def
    by (intro pure_intros) (auto intro!: pure_intros split: option.split)
  show o': "pure_svc (oidc_session_authenticate j h)"
    unfolding oidc_session_authenticate_def
    by (auto intro!: pure_intros k split: option.split sum.split token_failure.split)
  show s: "pure_svc (stub_user_id_authenticate st h)"
    unfolding stub_user_id_authenticate_def by (auto intro!: pure_intros k split: option.split)
  show "pure_svc (authenticate j st h)"
    unfolding authenticate_def by (intro pure_bind o') (auto intro!: pure_intros s split: option.split)
  show "pure_svc (throttled answers)"
    unfolding throttled_def by (auto intro!: pure_intros split: list.split)
qed

lemma keeps_new_user_row [inv_intros]: "keeps tx_ok (insert_user env u)"
  unfolding insert_user_def by (rule aut.keeps_insert)

lemma safe_provision [inv_intros]: "safe (resolve_or_provision_user env email name)"
proof -
  have q: "safe (query g)" for g :: "db \<Rightarrow> app_user option" by (rule safe_pure[OF pure_query])
  have r: "safe (raise e)" for e by (rule safe_pure[OF pure_raise])
  show ?thesis unfolding resolve_or_provision_user_def Let_def
    by (auto intro!: inv_intros q r split: option.split)
qed

end
