(* ===== verification/System.thy ===== *)
theory System
  imports Audit_Trail Operations_Api Resource_Api Identity_Api
begin

text \<open>
  The whole system as a step relation on the database.  A step is one request to an endpoint, one
  committed or failed call of a service, a service protected by an idempotency key, a run of a
  background job, or one transaction of a job.  A job that consists of several transactions appears both as a whole and as its
  transactions, so every interleaving of jobs and requests is a sequence of steps.
  What holds in every reachable state rests on the contracts of \<open>Statements\<close> (\<open>safe\<close>) and of
  \<open>Db_Invariant\<close> (\<open>audited_invariant\<close>); the endpoints are analysed once, in the locale
  \<open>endpoint_invariant\<close>, for all of them.
\<close>

definition void :: "'a svc \<Rightarrow> unit svc" where
  "void m = bind_svc m (\<lambda>_. ret ())"

text \<open>The calls that change the database.  A create never asks for a cancelled booking: the callers
  pass \<open>confirmed\<close> or \<open>held\<close>.\<close>

inductive service :: "unit svc \<Rightarrow> bool" where
  create: "cq_status req \<noteq> Cancelled \<Longrightarrow> service (void (create_booking env req))"
| edit: "service (void (edit_booking env ereq))"
| cancel: "service (void (cancel_booking env xreq))"
| transfer: "service (void (transfer_booking_ownership env b u rid))"
| cancel_series: "service (void (cancel_recurring_series env sreq))"
| join: "service (void (join_waitlist env jreq))"
| leave: "service (void (cancel_waitlist_entry env wreq))"
| accept: "service (void (accept_offer env freq))"
| decline: "service (void (decline_offer env freq))"
| cascade: "service (void (create_offer_for_freed_range_task envs res s e rid))"
| cascade_offer: "service (void (autocommit env (insert_offer env (new_offer env res w hold))))"
| cascade_entry: "service (void (autocommit env (update_entries env (\<lambda>r. we_id r = i)
      (\<lambda>r. r\<lparr> we_status := Offered \<rparr>))))"
| cascade_run: "service (void (record_offer_cascade_heartbeat env created n))"
| reap: "service (void (reap_expired_holds envs2))"
| reap_one: "service (void (reap_hold env now rid hid))"
| confirm_series: "service (void (confirm_recurring_series envs u claims rid))"
| new_series_row: "service (void (autocommit env (insert_series env (new_series env claims u through))))"
| roll: "service (void (rolling_materialize_series envs2))"
| roll_through: "service (void (autocommit env (update_series env (\<lambda>r. se_id r = i)
      (\<lambda>r. r\<lparr> se_materialized_through := dt \<rparr>))))"
| rematerialize: "service (void (rematerialize_stale_series envs2))"
| remat_version: "service (void (autocommit env (update_series env (\<lambda>r. se_id r = i)
      (\<lambda>r. r\<lparr> se_tzdata_version := ver \<rparr>))))"
| job_run: "service (void (autocommit env (insert_check env run)))"
| create_res: "service (void (create_resource env rcreq))"
| update_res: "service (void (update_resource env rureq))"
| grant: "service (void (grant_resource_admin env greq))"
| revoke: "service (void (revoke_resource_admin env vreq))"
| deactivate: "service (void (deactivate_user env dreq))"
| cleanup: "service (void (cleanup_expired_idempotency_keys env))"
| deliver: "service (void (execute_notification_delivery env send nid email t))"
| reconcile: "service (void (check_reconciliation env))"
| assert_schema: "service (void (check_schema_assertion env defn))"
| fire: "service (void (fire_or_resolve env key active message context))"
| evaluate: "service (void (evaluate_alerts_task ident float_json envs))"
| mail: "service (void (execute_alert_email_delivery envs send_mail aid))"
| metric: "service (void (metrics_middleware env started verb path who answer))"
| prune: "service (void (prune_old_request_metrics env))"
| provision: "service (void (resolve_or_provision_user env email name))"
| claim: "service (void (atomic env (claim_key env ireq rsn)))"
| outcome: "service (void (atomic env (then_svc
      (apply_write_path_session_settings env ai aty rid None) (complete_key env ireq st body))))"
| conflict: "service (void (record_conflict_outcome env ireq exc))"

text \<open>The requests of the API, each a view with the parameters it was called with.\<close>

inductive endpoint :: "reply svc \<Rightarrow> bool" where
  create: "endpoint (create_view env f rq)"
| edit: "endpoint (edit_view env f rq pk)"
| cancel: "endpoint (cancel_view env f rq pk)"
| detail: "endpoint (detail_view f rq pk)"
| history: "endpoint (history_view snapshot rq pk)"
| bookings: "endpoint (list_view others env f rq p)"
| preview: "endpoint (preview_view encode env f rq)"
| confirm: "endpoint (confirm_view decode env envs env' f rq)"
| cancel_series: "endpoint (cancel_series_view env f rq pk)"
| join: "endpoint (join_view env f rq)"
| entries: "endpoint (list_entries_view others f rq p)"
| leave: "endpoint (cancel_entry_view env f rq pk)"
| accept: "endpoint (confirm_offer_view env f rq pk)"
| decline: "endpoint (decline_offer_view env f rq pk)"
| create_res: "endpoint (create_resource_view env f fr groups rq)"
| resources: "endpoint (list_resources_view name_lt f rq raw_limit cursor)"
| resource: "endpoint (resource_detail_view f rq pk)"
| update_res: "endpoint (update_resource_view env f fr rq pk)"
| grant: "endpoint (grant_view env f rq pk)"
| revoke: "endpoint (revoke_view env rq pk u)"
| availability: "endpoint (availability_view bp env rq pk a b)"
| utilization: "endpoint (utilization_view bp rq pk a b)"
| deactivate: "endpoint (user_deactivate_view env f rq pk)"
| login: "endpoint (token_exchange_view j st env lf h data)"
| mock_login: "endpoint (dev_mock_login_view j st env lf h data)"
| latest_checks: "endpoint (checks_latest_view rq)"
| dashboard: "endpoint (dashboard_view float_json health env rq)"
| dispatched: "(\<And>u. endpoint (m u)) \<Longrightarrow> endpoint (kairos_api_view j st h throttles m)"

inductive step :: "db \<Rightarrow> db \<Rightarrow> bool" where
  request: "endpoint m \<Longrightarrow> m d = (r, d') \<Longrightarrow> step d d'"
| plain: "service m \<Longrightarrow> m d = (r, d') \<Longrightarrow> step d d'"
| protected: "service m \<Longrightarrow> run_idempotent_write env ireq (then_svc m (ret response)) d = (r, d')
      \<Longrightarrow> step d d'"
| confirmed: "service m \<Longrightarrow> run_idempotent_recurring_confirm env env' ireq (then_svc m (ret response)) d
      = (r, d') \<Longrightarrow> step d d'"

text \<open>The database after the migrations: users and groups, nothing else.\<close>

definition initial :: "db \<Rightarrow> bool" where
  "initial d = (table_ok user_row_ok user_pair_ok (users d) \<and>
     d = empty_db\<lparr> users := users d, memberships := memberships d \<rparr>)"

inductive reachable :: "db \<Rightarrow> bool" where
  start: "initial d \<Longrightarrow> reachable d"
| step: "reachable d \<Longrightarrow> step d d' \<Longrightarrow> reachable d'"

inductive steps :: "db \<Rightarrow> db \<Rightarrow> bool" where
  none: "steps d d"
| more: "steps d d1 \<Longrightarrow> step d1 d2 \<Longrightarrow> steps d d2"

section \<open>Every step keeps the invariants\<close>

lemma safe_void: "safe m \<Longrightarrow> safe (void m)"
  unfolding void_def by (intro inv_intros)

lemma safe_cleanup [inv_intros]: "safe (cleanup_expired_idempotency_keys env)"
proof -
  have "safe (update_or_create_heartbeat env nm f)" for nm f
    by (simp add: safe_def keeps_def update_or_create_heartbeat_def)
  then show ?thesis unfolding cleanup_expired_idempotency_keys_def by (intro inv_intros)
qed

lemma safe_metrics_middleware [inv_intros]: "safe (metrics_middleware env started verb path who answer)"
  unfolding metrics_middleware_def by (intro inv_intros)

lemma service_safe: "service m \<Longrightarrow> safe m"
  by (induction rule: service.induct) (intro safe_void inv_intros safe_booking_services; simp)+


lemma keeps_confirm_by:
  assumes "keeps J (atomic env (claim_key env req None))"
    and "\<And>st. keeps J (claim_failed env req replay_or_conflict_allowing_in_progress st)"
    and "keeps J w"
    and "\<And>st b. keeps J (atomic env'
             (then_svc (apply_write_path_session_settings env' (Some (iq_user req)) (iq_actor_type req)
                 (request_id_text (iq_request_id req)) None)
               (complete_key env' req st b)))"
  shows "keeps J (run_idempotent_recurring_confirm env env' req w)"
proof
  fix d assume d: "J d"
  obtain r d1 where c: "atomic env (claim_key env req None) d = (r, d1)"
    by (cases "atomic env (claim_key env req None) d")
  have d1: "J d1" using keepsE[OF assms(1) d c] .
  have work: "keeps J (bind_svc w (\<lambda>(st, b).
          then_svc (atomic env'
             (then_svc (apply_write_path_session_settings env' (Some (iq_user req)) (iq_actor_type req)
                 (request_id_text (iq_request_id req)) None)
               (complete_key env' req st b)))
            (ret \<lparr> ir_status = st, ir_body = b, ir_is_replay = False \<rparr>)))"
    by (auto intro!: keeps_bind keeps_then keeps_ret assms(3,4))
  show "J (snd (run_idempotent_recurring_confirm env env' req w d))"
    unfolding run_idempotent_recurring_confirm_def c prod.case
    by (cases r) (auto split: exn.split intro: keepsD[OF assms(2) d1] d1 keepsD[OF work d1])
qed

lemma safe_confirm_parts:
  "safe (atomic env (claim_key env req None))"
  "safe (claim_failed env req replay_or_conflict_allowing_in_progress st)"
  "safe (atomic env (then_svc (apply_write_path_session_settings env ai aty rid None)
     (complete_key env req st' b)))"
  unfolding claim_key_def by (intro inv_intros)+

lemma safe_recurring_confirm [inv_intros]:
  "safe w \<Longrightarrow> safe (run_idempotent_recurring_confirm env env' req w)"
  unfolding safe_def by (intro conjI keeps_confirm_by; (elim conjE)?; assumption?;
    rule safeD1 safeD2 safeD3; rule safe_confirm_parts)

lemma at_rest_recurring_confirm:
  "keeps at_rest w \<Longrightarrow> keeps at_rest (run_idempotent_recurring_confirm env env' req w)"
  by (intro keeps_confirm_by; assumption?; rule safeD3; rule safe_confirm_parts)

section \<open>Every endpoint keeps what every service keeps\<close>

lemma snd_void: "snd (void m d) = snd (m d)"
  by (auto simp: void_def bind_svc_def split: prod.splits sum.splits)

lemma keeps_void_iff: "keeps J (void m) = keeps J m"
  by (simp add: keeps_def snd_void)

text \<open>\<open>J\<close> is kept by the services called from a view, \<open>T\<close> by the services called inside a protected
  write, which is a transaction.\<close>

locale endpoint_invariant =
  fixes T J :: "db \<Rightarrow> bool"
  assumes inside: "service m \<Longrightarrow> keeps T m" and on_top: "service m \<Longrightarrow> keeps J m"
    and protected_write: "keeps T w \<Longrightarrow> keeps J (run_idempotent_write env wr w)"
    and protected_confirm: "keeps J w \<Longrightarrow> keeps J (run_idempotent_recurring_confirm env env' wr w)"
begin

lemma inside_work: "service (void m) \<Longrightarrow> keeps T m" and top_work: "service (void m) \<Longrightarrow> keeps J m"
  using inside[of "void m"] on_top[of "void m"] by (simp_all add: keeps_void_iff)

lemma pure_keeps: "pure_svc m \<Longrightarrow> keeps J m"
  by (simp add: pure_svc_def keeps_def)

lemma keeps_answer: "keeps T w \<Longrightarrow> keeps J (answer_write env wr w)"
  unfolding answer_write_def by (intro keeps_bind keeps_ret protected_write)

lemmas reads = pure_key pure_dict pure_valid pure_ensure pure_ensure_db pure_get pure_get_row pure_query
  pure_raise pure_ret pure_booking_serializers pure_series_reads pure_waitlist_reads
  pure_resource_serializers pure_authenticate

lemmas read_keeps = reads[THEN pure_keeps]

lemmas work_keeps = service.intros[THEN inside_work] service.intros[THEN top_work]

lemma booking_endpoints:
  "keeps J (create_view env f rq)" "keeps J (edit_view env f rq pk)" "keeps J (cancel_view env f rq pk)"
  "keeps J (cancel_series_view env f rq pk)" "keeps J (confirm_view decode env envs env' f rq)"
  unfolding create_view_def edit_view_def cancel_view_def cancel_series_view_def confirm_view_def
  by (auto simp: split_beta intro!: keeps_bind keeps_then keeps_ret keeps_answer protected_confirm
      read_keeps work_keeps)

lemma waitlist_endpoints:
  "keeps J (join_view env f rq)" "keeps J (cancel_entry_view env f rq pk)"
  "keeps J (confirm_offer_view env f rq pk)" "keeps J (decline_offer_view env f rq pk)"
  unfolding join_view_def cancel_entry_view_def confirm_offer_view_def decline_offer_view_def
    offer_write_def
  by (auto simp: split_beta intro!: keeps_bind keeps_then keeps_ret keeps_query keeps_answer
      read_keeps work_keeps)

lemma resource_endpoints:
  "keeps J (create_resource_view env f fr groups rq)" "keeps J (update_resource_view env f fr rq pk)"
  "keeps J (grant_view env f rq pk)" "keeps J (revoke_view env rq pk u)"
  unfolding create_resource_view_def update_resource_view_def grant_view_def revoke_view_def
  by (auto intro!: keeps_bind keeps_then keeps_ret read_keeps work_keeps split: option.split)

lemma identity_endpoints:
  "keeps J (user_deactivate_view env f rq pk)" "keeps J (token_exchange_view j st env lf h data)"
  "keeps J (dev_mock_login_view j st env lf h data)"
  unfolding user_deactivate_view_def token_exchange_view_def dev_mock_login_view_def Let_def
  by (auto simp: split_beta intro!: keeps_bind keeps_then keeps_ret keeps_answer read_keeps work_keeps
      split: sum.split oidc_failure.split)

lemma endpoint_keeps: "endpoint m \<Longrightarrow> keeps J m"
proof (induction rule: endpoint.induct)
  case (dispatched m j st h throttles)
  then show ?case unfolding kairos_api_view_def
    by (auto intro!: keeps_bind keeps_then read_keeps split: option.split)
qed (rule booking_endpoints waitlist_endpoints resource_endpoints identity_endpoints
    pure_keeps[OF pure_booking_reads(1)] pure_keeps[OF pure_booking_reads(2)]
    pure_keeps[OF pure_booking_reads(3)] pure_keeps[OF pure_booking_reads(4)]
    pure_keeps[OF pure_waitlist_reads(3)] pure_keeps[OF pure_resource_reads(1)]
    pure_keeps[OF pure_resource_reads(2)] pure_keeps[OF pure_resource_reads(3)]
    pure_keeps[OF pure_resource_reads(4)] pure_keeps[OF pure_operations_views(1)]
    pure_keeps[OF pure_operations_views(2)])+

end

text \<open>The table constraints and foreign keys, with and without an open transaction.\<close>

interpretation rest: endpoint_invariant tx_ok at_rest
proof
  show "keeps tx_ok m" "keeps at_rest m" if "service m" for m
    using service_safe[OF that] by (simp_all add: safe_def)
  show "keeps at_rest (run_idempotent_write env wr w)" if "keeps tx_ok w" for env wr w
    by (rule safeD3[OF safe_run_idempotent_write[OF that]])
qed (rule at_rest_recurring_confirm)

lemma step_at_rest: "step d d' \<Longrightarrow> at_rest d \<Longrightarrow> at_rest d'"
proof (induction rule: step.induct)
  case (request m d r d')
  then show ?case using keepsE[OF rest.endpoint_keeps] by blast
next
  case (plain m d r d')
  then show ?case using keepsE[OF safeD3[OF service_safe]] by blast
next
  case (protected m env ireq response d r d')
  have "keeps tx_ok (then_svc m (ret response))"
    by (intro inv_intros safeD1 service_safe protected)
  then show ?case using keepsE[OF safeD3[OF safe_run_idempotent_write]] protected by blast
next
  case (confirmed m env env' ireq response d r d')
  have "safe (then_svc m (ret response))" by (intro inv_intros service_safe confirmed)
  then show ?case using keepsE[OF safeD3[OF safe_recurring_confirm]] confirmed by blast
qed

context audited_invariant begin

lemma keeps_void: "keeps I m \<Longrightarrow> keeps I (void m)"
  unfolding void_def by (intro keeps_bind keeps_ret)

lemma keeps_fire_or_resolve: "keeps I (fire_or_resolve env key active message context)"
  unfolding fire_or_resolve_def resolve_alert_def dispatch_alert_email_def
  by (auto intro!: keeps_bind keeps_then keeps_query keeps_ret keeps_autocommit keeps_unaudited
      keeps_send_now split: option.split)

lemma keeps_evaluate_signals: "keeps I (evaluate_signals envs i ss)"
  by (induction ss arbitrary: i)
    (auto intro!: keeps_bind keeps_query keeps_ret keeps_fire_or_resolve)

lemma keeps_metrics:
  "keeps I (record_request_metric env ty verb path st ms c who)" "keeps I (prune_old_request_metrics env)"
  by (auto simp: keeps_def record_request_metric_def prune_old_request_metrics_def run_stmt_def Let_def
      split: option.splits)

lemma keeps_operations:
  "keeps I (evaluate_alerts_task ident float_json envs)"
  "keeps I (execute_alert_email_delivery envs send_mail aid)"
  "keeps I (metrics_middleware env started verb path who answer)"
  unfolding evaluate_alerts_task_def evaluate_alerts_def execute_alert_email_delivery_def
    metrics_middleware_def Let_def
  by (auto intro!: keeps_bind keeps_then keeps_ret keeps_raise keeps_autocommit keeps_unaudited
      keeps_get_row keeps_evaluate_signals keeps_metrics split: option.split)

lemma keeps_insert_user: "keeps I (insert_user env u)"
  unfolding insert_user_def
  by (rule keeps_by_frame, erule (1) aut.tables_insert, erule same_audited_rows,
      simp add: same_audited_def)

lemma keeps_provision: "keeps I (resolve_or_provision_user env email name)"
  unfolding resolve_or_provision_user_def Let_def
  by (auto intro!: keeps_bind keeps_query keeps_ret keeps_raise keeps_catch keeps_autocommit
      keeps_insert_user split: option.split)

lemma service_keeps: "service m \<Longrightarrow> keeps I m"
proof (induction rule: service.induct)
  case (cascade_offer env res w hold)
  show ?case by (intro keeps_void keeps_autocommit keeps_insert_offer) (simp add: new_offer_def)
next
  case (cascade_entry env i)
  show ?case by (intro keeps_void keeps_autocommit keeps_update_entries) (simp add: entry_change_def)
qed (unfold check_reconciliation_def check_schema_assertion_def claim_key_def complete_key_def
    record_conflict_outcome_def,
  (intro keeps_void keeps_create_booking keeps_edit_booking keeps_cancel_booking keeps_transfer
    keeps_cancel_series keeps_waitlist_entry_services keeps_accept_offer keeps_decline_offer
    keeps_cascade keeps_reap_expired_holds keeps_reap_hold keeps_confirm_series keeps_autocommit
    keeps_unaudited keeps_rolling keeps_rematerialize keeps_insert_check keeps_resource_services
    keeps_deactivate_user keeps_cleanup keeps_delivery keeps_fire_or_resolve keeps_operations
    keeps_metrics keeps_provision keeps_bind keeps_query keeps_then keeps_ret
    keeps_atomic keeps_settings, assumption?)+)

end

sublocale audited_invariant \<subseteq> requests: endpoint_invariant I I
  by unfold_locales (rule service_keeps keeps_run_idempotent_write keeps_recurring_confirm; assumption)+

context audited_invariant begin

lemma step_keeps: "step d d' \<Longrightarrow> I d \<Longrightarrow> I d'"
proof (induction rule: step.induct)
  case (request m d r d')
  then show ?case using keepsE[OF requests.endpoint_keeps] by blast
next
  case (plain m d r d')
  then show ?case using keepsE[OF service_keeps] by blast
next
  case (protected m env ireq response d r d')
  have "keeps I (then_svc m (ret response))" by (intro keeps_then keeps_ret service_keeps protected)
  then show ?case using keepsE[OF keeps_run_idempotent_write] protected by blast
next
  case (confirmed m env env' ireq response d r d')
  have "keeps I (then_svc m (ret response))" by (intro keeps_then keeps_ret service_keeps confirmed)
  then show ?case using keepsE[OF keeps_recurring_confirm] confirmed by blast
qed

lemma steps_keep: "steps d d' \<Longrightarrow> I d \<Longrightarrow> I d'"
  by (induction rule: steps.induct) (auto intro: step_keeps)

end

end
