(* ===== verification/System_Properties.thy ===== *)
theory System_Properties
  imports System Demo
begin

text \<open>
  What holds in every reachable state of the system and along every execution: the schema's
  constraints, the absence of double bookings, the completeness of the audit trail, and the life
  cycle of a booking.
\<close>

section \<open>Reachable states\<close>

lemma initial_ok:
  assumes "initial d"
  shows "at_rest d" "history_ok d"
proof -
  have d: "d = empty_db\<lparr> users := users d, memberships := memberships d \<rparr>"
    and u: "table_ok user_row_ok user_pair_ok (users d)"
    using assms by (simp_all add: initial_def)
  have "at_rest (empty_db\<lparr> users := us, memberships := ms \<rparr>) \<and>
      history_ok (empty_db\<lparr> users := us, memberships := ms \<rparr>)"
    if "table_ok user_row_ok user_pair_ok us" for us ms
    using that by (simp add: at_rest_def tables_ok_def fk_ok_def empty_db_def history_ok_def
        replay_def table_ok_def)
  from this[OF u, of "memberships d"] show "at_rest d" "history_ok d" using d by simp_all
qed

lemma reachable_ok: "reachable d \<Longrightarrow> at_rest d \<and> history_ok d"
  by (induction rule: reachable.induct)
    (auto intro: initial_ok step_at_rest history.step_keeps)

lemma reachable_steps: "steps d d' \<Longrightarrow> reachable d \<Longrightarrow> reachable d'"
  by (induction rule: steps.induct) (auto intro: reachable.step)

section \<open>The life of a booking in the trail\<close>

definition outlives :: "booking \<Rightarrow> booking \<Rightarrow> bool" where
  "outlives b c = (bk_id c = bk_id b \<and> bk_resource c = bk_resource b \<and> bk_series c = bk_series b \<and>
     bk_created_at c = bk_created_at b \<and> status_step (bk_status b) (bk_status c))"

lemma outlives_refl: "outlives b b"
  by (simp add: outlives_def status_step_def)

lemma outlives_trans: "outlives a b \<Longrightarrow> outlives b c \<Longrightarrow> outlives a c"
  by (auto simp: outlives_def status_step_def)

lemma change_outlives: "booking_change b c \<Longrightarrow> outlives b c"
  by (simp add: outlives_def booking_change_def)

lemma replay_row_outlives:
  assumes "lawful a" "b \<in> set rs" "bk_status b \<noteq> Held"
  shows "\<exists>c \<in> set (replay_row the_booking rs a). outlives b c"
proof -
  let ?b = "Option.bind (al_before a) the_booking" and ?c = "Option.bind (al_after a) the_booking"
  have law: "booking_row_lawful (al_occurred_at a) ?b ?c" using assms(1) by (simp add: lawful_def)
  have refl: "outlives b b" by (rule outlives_refl)
  show ?thesis
  proof (cases ?b)
    case None
    then show ?thesis using assms(2) refl
      by (cases ?c) (auto simp: replay_row_def intro: bexI[of _ b])
  next
    case (Some old)
    show ?thesis
    proof (cases ?c)
      case None
      then have "old \<noteq> b" using law Some assms(3) by (auto simp: booking_row_lawful_def)
      then show ?thesis using None Some assms(2) refl
        by (auto simp: replay_row_def intro: bexI[of _ b])
    next
      case (Some new)
      have "outlives old new"
        using law Some \<open>?b = Some old\<close> by (simp add: booking_row_lawful_def change_outlives)
      then show ?thesis using \<open>?b = Some old\<close> Some assms(2) refl
        by (cases "b = old") (auto simp: replay_row_def image_iff)
    qed
  qed
qed

lemma status_step_not_held: "status_step s t \<Longrightarrow> s \<noteq> Held \<Longrightarrow> t \<noteq> Held"
  by (auto simp: status_step_def)

lemma replay_outlives:
  assumes "list_all lawful trail" "b \<in> set rs" "bk_status b \<noteq> Held"
  shows "\<exists>c \<in> set (foldl (replay_row the_booking) rs trail). outlives b c"
  using assms
proof (induction trail arbitrary: rs b)
  case Nil
  then show ?case using outlives_refl by auto
next
  case (Cons a trail)
  obtain c where c: "c \<in> set (replay_row the_booking rs a)" "outlives b c"
    using replay_row_outlives[of a b rs] Cons.prems by auto
  then have "bk_status c \<noteq> Held"
    using Cons.prems(3) status_step_not_held by (auto simp: outlives_def)
  then obtain e where "e \<in> set (foldl (replay_row the_booking) (replay_row the_booking rs a) trail)"
    "outlives c e" using Cons.IH[OF _ c(1)] Cons.prems(1) by auto
  then show ?case using outlives_trans[OF c(2)] by auto
qed

section \<open>Properties\<close>


text \<open>There is never a double booking: in every reachable state two active bookings of one
  resource share no instant, so the reconciliation query never finds a pair.\<close>

theorem never_double_booked:
  assumes "reachable d"
  shows "no_double_booking (bookings d) \<and> find_overlapping_active_bookings d = []"
proof -
  have ok: "tables_ok d" using reachable_ok[OF assms] by (simp add: at_rest_def)
  then have nd: "no_double_booking (bookings d)"
    by (auto simp: tables_ok_def intro: no_double_bookingI)
  then show ?thesis using find_overlapping_empty_iff[OF ids_distinct(1)[OF ok]] by simp
qed

text \<open>C4: the audit trail is complete and lawful: in every reachable state replaying it from nothing
  rebuilds the bookings, entries, offers, resources and administrators row for row, and each row
  of it is one of the changes the system may make (a booking starts confirmed or held, a held one
  is confirmed, cancelled or, once expired, removed, a confirmed one is cancelled; an entry never
  becomes waiting again; an offer that is not active is final).\<close>

theorem audit_trail_is_complete_and_lawful:
  assumes "reachable d"
  shows "bookings d = replay the_booking (audit d) \<and> entries d = replay the_entry (audit d) \<and>
    offers d = replay the_offer (audit d) \<and> resources d = replay the_resource (audit d) \<and>
    admins d = replay the_admin (audit d) \<and> list_all lawful (audit d)"
  using reachable_ok[OF assms] by (simp add: history_ok_def)

text \<open>C5: along every execution the audit trail only grows, a booking that is confirmed or
  cancelled is never deleted and keeps its identity, resource, series and creation time, and a
  cancellation is final.\<close>

theorem bookings_outlive_every_execution:
  assumes "reachable d" "steps d d'"
  shows "(\<exists>new. audit d' = audit d @ new) \<and>
    (\<forall>b \<in> set (bookings d). bk_status b \<noteq> Held \<longrightarrow>
       (\<exists>c \<in> set (bookings d'). bk_id c = bk_id b \<and> bk_resource c = bk_resource b \<and>
          bk_series c = bk_series b \<and> bk_created_at c = bk_created_at b \<and>
          (bk_status b = Cancelled \<longrightarrow> bk_status c = Cancelled) \<and> bk_status c \<noteq> Held))"
proof
  have ok: "at_rest d" "history_ok d" using reachable_ok[OF assms(1)] by simp_all
  have ok': "history_ok d'" using reachable_ok[OF reachable_steps[OF assms(2,1)]] by simp
  have "extends_log (audit d) d" using ok(1) by (simp add: extends_log_def at_rest_def)
  then have "extends_log (audit d) d'" by (rule append_only.steps_keep[OF assms(2)])
  then obtain new where new: "audit d' = audit d @ new" by (auto simp: extends_log_def)
  show "\<exists>new. audit d' = audit d @ new" using new by blast
  have law: "list_all lawful new" using history_okD(7)[OF ok'] by (simp add: new)
  have bs: "bookings d' = foldl (replay_row the_booking) (bookings d) new"
    using history_okD(1)[OF ok'] history_okD(1)[OF ok(2)] by (simp add: new replay_append)
  show "\<forall>b \<in> set (bookings d). bk_status b \<noteq> Held \<longrightarrow>
       (\<exists>c \<in> set (bookings d'). bk_id c = bk_id b \<and> bk_resource c = bk_resource b \<and>
          bk_series c = bk_series b \<and> bk_created_at c = bk_created_at b \<and>
          (bk_status b = Cancelled \<longrightarrow> bk_status c = Cancelled) \<and> bk_status c \<noteq> Held)"
  proof (intro ballI impI)
    fix b assume b: "b \<in> set (bookings d)" "bk_status b \<noteq> Held"
    obtain c where c: "c \<in> set (bookings d')" "outlives b c"
      using replay_outlives[OF law b] unfolding bs by blast
    then show "\<exists>c \<in> set (bookings d'). bk_id c = bk_id b \<and> bk_resource c = bk_resource b \<and>
          bk_series c = bk_series b \<and> bk_created_at c = bk_created_at b \<and>
          (bk_status b = Cancelled \<longrightarrow> bk_status c = Cancelled) \<and> bk_status c \<noteq> Held"
      using b(2) by (intro bexI[of _ c]) (auto simp: outlives_def status_step_def)
  qed
qed


section \<open>A concrete execution\<close>

lemma plain_step:
  assumes "service (void m)"
  shows "step d (snd (m d))"
proof -
  have "void m d = (fst (void m d), snd (m d))" by (simp add: prod_eq_iff snd_void)
  then show ?thesis by (rule step.plain[OF assms])
qed

definition demo_state0 :: db where
  "demo_state0 = empty_db\<lparr> users := [demo_user 1, demo_user 2] \<rparr>"

definition demo_state1 :: db where
  "demo_state1 = snd (create_resource (demo_env 0 10)
     \<lparr> rc_actor = 1, rc_request_id = ''r'', rc_name = ''Room'', rc_category = ''room'',
       rc_timezone = ''UTC'', rc_bookable_start = 0, rc_bookable_end = 5, rc_max_duration = None,
       rc_policy = Retain, rc_restricted_group = None \<rparr> demo_state0)"

definition demo_create :: create_request where
  "demo_create = \<lparr> cq_resource = 10, cq_user = 1, cq_start = 5, cq_end = 9, cq_request_id = ''r'',
     cq_series = None, cq_actor_type = Actor_user, cq_status = Confirmed \<rparr>"

definition demo_state2 :: db where
  "demo_state2 = snd (create_booking (demo_env 1 77) demo_create demo_state1)"

definition demo_state3 :: db where
  "demo_state3 = snd (cancel_booking (demo_env 2 0)
     \<lparr> xq_booking = new_booking (demo_env 1 77) demo_create (TR 5 9), xq_actor = 2,
       xq_actor_type = Actor_admin, xq_reason = Some ''x'', xq_request_id = ''r'' \<rparr> demo_state2)"

lemma demo_reachable: "reachable demo_state2"
  and demo_steps: "steps demo_state2 demo_state3"
proof -
  have "initial demo_state0"
    by (simp add: initial_def demo_state0_def empty_db_def demo_user_def table_ok_def user_row_ok_def
        user_pair_ok_def)
  then have "reachable demo_state0" by (rule reachable.start)
  moreover have "step demo_state0 demo_state1"
    unfolding demo_state1_def by (rule plain_step) (rule service.create_res)
  moreover have "step demo_state1 demo_state2"
    unfolding demo_state2_def by (rule plain_step, rule service.create) (simp add: demo_create_def)
  ultimately show "reachable demo_state2" by (blast intro: reachable.step)
  have "step demo_state2 demo_state3"
    unfolding demo_state3_def by (rule plain_step) (rule service.cancel)
  then show "steps demo_state2 demo_state3" by (rule steps.more[OF steps.none])
qed

lemma demo_values:
  "map bk_id (bookings demo_state2) = [77] \<and> map bk_status (bookings demo_state2) = [Confirmed] \<and>
   map bk_status (bookings demo_state3) = [Cancelled] \<and> length (audit demo_state3) = 3"
  by code_simp



theorem never_double_booked_witness:
  "reachable demo_state2 \<and> bookings demo_state2 \<noteq> [] \<and> no_double_booking (bookings demo_state2)"
  using demo_reachable demo_values never_double_booked[OF demo_reachable] by auto

theorem audit_trail_is_complete_and_lawful_witness:
  "bookings demo_state2 \<noteq> [] \<and> bookings demo_state2 = replay the_booking (audit demo_state2)"
  using demo_values audit_trail_is_complete_and_lawful[OF demo_reachable] by auto

theorem bookings_outlive_every_execution_witness:
  "(\<exists>b \<in> set (bookings demo_state2). bk_id b = 77 \<and> bk_status b = Confirmed) \<and>
   (\<exists>c \<in> set (bookings demo_state3). bk_id c = 77 \<and> bk_status c \<noteq> Held)"
proof -
  obtain b where b: "bookings demo_state2 = [b]" "bk_id b = 77" "bk_status b = Confirmed"
    using demo_values by (cases "bookings demo_state2") auto
  have "\<exists>c \<in> set (bookings demo_state3). bk_id c = bk_id b \<and> bk_status c \<noteq> Held"
    using conjunct2[OF bookings_outlive_every_execution[OF demo_reachable demo_steps]] b by auto
  then show ?thesis using b by auto
qed

end
