(* ===== verification/Lists.thy ===== *)
theory Lists
  imports Resource_Api "HOL-Library.List_Lexorder"
begin

text \<open>
  The list endpoints meet the contract of \<open>Keyset\<close>: their keys are strictly and totally ordered in
  both directions and their cursors are read back exactly, so a client that follows
  \<open>next_cursor\<close> misses no row that stays and is given none twice, whatever is created, cancelled or
  deleted between its requests.
\<close>

section \<open>The keys are ordered and the cursors exact\<close>

definition time_key_ok :: "instant \<times> uuid \<Rightarrow> bool" where
  "time_key_ok k = (datetime_ok (fst k) \<and> snd k < 2 ^ 128)"

lemma ascii_uuid: "list_all (\<lambda>c. (of_char c :: nat) < 128) (uuid_text u)"
  by (simp add: uuid_text_def ascii_hexed)

lemma ascii_storable: "list_all (\<lambda>c. (of_char c :: nat) < 128) s \<Longrightarrow> list_all storable (codes s)"
  by (auto simp: codes_def list_all_iff storable_def surrogate_def)

lemma time_cursor_roundtrip:
  assumes "time_key_ok k"
  shows "read_time_cursor others (time_cursor k) = Inr k"
proof -
  have d: "decode_cursor (time_cursor k) = Inr (codes (iso_instant (fst k)), codes (uuid_text (snd k)))"
    unfolding time_cursor_def
    by (intro decode_encode_cursor ascii_storable ascii_iso ascii_uuid)
  have "list_all (\<lambda>n. n < 256) (codes (uuid_text (snd k)))"
    using ascii_uuid[of "snd k"] by (auto simp: codes_def list_all_iff)
  then show ?thesis
    using assms fromisoformat_iso[of "fst k" others] parse_uuid_text[of "snd k"]
    by (simp add: read_time_cursor_def d char_of_codes time_key_ok_def)
qed

lemma time_cursor_nonempty: "time_cursor k \<noteq> []"
proof
  assume "time_cursor k = []"
  then have "urlsafe_b64encode (codes (dumps_pair (codes (iso_instant (fst k))) (codes (uuid_text (snd k))))) = []"
    by (simp add: time_cursor_def encode_cursor_def)
  moreover have "codes (dumps_pair a b) \<noteq> []" for a b by (simp add: dumps_pair_def)
  ultimately show False by (metis urlsafe_b64encode.elims list.distinct(1))
qed

lemma given_cursor [simp]: "given (map_option time_cursor k) = map_option time_cursor k"
  using time_cursor_nonempty by (cases k) (auto simp: given_def)

interpretation bookings_asc: cursor_keyset key_asc booking_key time_cursor "read_time_cursor others" time_key_ok
  for others
  by unfold_locales (auto simp: key_asc_def prod_eq_iff time_cursor_roundtrip)

interpretation bookings_desc: cursor_keyset key_desc booking_key time_cursor "read_time_cursor others" time_key_ok
  for others
  by unfold_locales (auto simp: key_desc_def prod_eq_iff time_cursor_roundtrip)

interpretation entries_asc: cursor_keyset key_asc entry_time_key time_cursor "read_time_cursor others" time_key_ok
  for others
  by unfold_locales (auto simp: key_asc_def prod_eq_iff time_cursor_roundtrip)

text \<open>The names of resources are ordered by the collation of the database, a strict total order on
  texts as PostgreSQL's deterministic collations are; the list of resources is given once for all
  of them.\<close>

definition name_key_ok :: "codes \<times> uuid \<Rightarrow> bool" where
  "name_key_ok k = (list_all storable (fst k) \<and> snd k < 2 ^ 128)"

lemma name_cursor_roundtrip:
  assumes "name_key_ok k"
  shows "read_name_cursor (name_cursor k) = Inr k"
proof -
  have d: "decode_cursor (name_cursor k) = Inr (fst k, codes (uuid_text (snd k)))"
    unfolding name_cursor_def
    by (rule decode_encode_cursor) (use assms ascii_storable[OF ascii_uuid] in \<open>simp_all add: name_key_ok_def\<close>)
  have "list_all (\<lambda>n. n < 256) (codes (uuid_text (snd k)))"
    using ascii_uuid[of "snd k"] by (auto simp: codes_def list_all_iff)
  then show ?thesis
    using assms parse_uuid_text[of "snd k"] by (simp add: read_name_cursor_def d char_of_codes name_key_ok_def)
qed

locale collation =
  fixes name_lt :: "codes \<Rightarrow> codes \<Rightarrow> bool"
  assumes name_irrefl: "\<not> name_lt a a"
    and name_trans: "name_lt a b \<Longrightarrow> name_lt b c \<Longrightarrow> name_lt a c"
    and name_total: "a \<noteq> b \<Longrightarrow> name_lt a b \<or> name_lt b a"

sublocale collation \<subseteq> resources_asc: cursor_keyset "name_key_lt name_lt" resource_key name_cursor
  read_name_cursor name_key_ok
proof unfold_locales
  show "\<not> name_key_lt name_lt k k" for k by (simp add: name_key_lt_def name_irrefl)
  show "name_key_lt name_lt a b \<Longrightarrow> name_key_lt name_lt b c \<Longrightarrow> name_key_lt name_lt a c" for a b c
    using name_trans by (auto simp: name_key_lt_def)
  show "a \<noteq> b \<Longrightarrow> name_key_lt name_lt a b \<or> name_key_lt name_lt b a" for a b
    using name_total by (auto simp: name_key_lt_def prod_eq_iff)
qed (rule name_cursor_roundtrip)

text \<open>The collation \<open>C\<close>: code points, left to right.\<close>

interpretation by_code_point: collation "(<) :: codes \<Rightarrow> codes \<Rightarrow> bool"
  by unfold_locales auto

section \<open>The list of a user's bookings\<close>

definition wanted :: "env \<Rightarrow> app_user \<Rightarrow> list_params \<Rightarrow> booking \<Rightarrow> bool" where
  "wanted env u p b =
     (bk_status b \<noteq> Held \<and> bk_user b = au_id u \<and>
      (case lp_status p of None \<Rightarrow> True | Some t \<Rightarrow> booking_status_text (bk_status b) = t) \<and>
      (lp_time p = Some ''upcoming'' \<longrightarrow> ev_py_now env \<le> bk_starts_at b) \<and>
      (lp_time p = Some ''past'' \<longrightarrow> bk_starts_at b < ev_py_now env))"

definition params_ok :: "list_params \<Rightarrow> bool" where
  "params_ok p = (given (lp_resource p) = None \<and>
     lp_status p \<in> {None, Some ''confirmed'', Some ''cancelled''} \<and>
     lp_time p \<in> {None, Some ''all'', Some ''upcoming'', Some ''past''})"

lemma status_text_iff:
  "booking_status_text s = ''confirmed'' \<longleftrightarrow> s = Confirmed"
  "booking_status_text s = ''cancelled'' \<longleftrightarrow> s = Cancelled"
  by (cases s; simp)+

lemma list_bookings_page:
  assumes "params_ok p" "parse_limit (lp_limit p) = Inr limit"
  shows "fst (list_bookings others env u (p\<lparr> lp_cursor := c \<rparr>) d) =
    bookings_page others (lp_time p = Some ''past'') limit c (filter (wanted env u p) (bookings d))"
proof -
  have s: "status_filter (lp_status p) d = (Inr (\<lambda>b. case lp_status p of None \<Rightarrow> True
      | Some t \<Rightarrow> booking_status_text (bk_status b) = t), d)"
    using assms(1) by (auto simp: params_ok_def status_filter_def status_text_iff)
  have t: "time_filter env (lp_time p) d = (Inr (\<lambda>b. (lp_time p = Some ''upcoming'' \<longrightarrow> ev_py_now env \<le> bk_starts_at b) \<and>
      (lp_time p = Some ''past'' \<longrightarrow> bk_starts_at b < ev_py_now env), lp_time p = Some ''past''), d)"
    using assms(1) by (auto simp: params_ok_def time_filter_def)
  have l: "page_limit (lp_limit p) d = (Inr limit, d)" using assms(2) by (simp add: page_limit_def)
  have sc: "list_scope u (lp_resource p) d = (Inr (\<lambda>b. bk_user b = au_id u), d)"
    using assms(1) by (simp add: list_scope_def params_ok_def)
  have w: "(\<lambda>b. bk_status b \<noteq> Held \<and> bk_user b = au_id u \<and>
      (case lp_status p of None \<Rightarrow> True | Some t \<Rightarrow> booking_status_text (bk_status b) = t) \<and>
      (lp_time p = Some ''upcoming'' \<longrightarrow> ev_py_now env \<le> bk_starts_at b) \<and>
      (lp_time p = Some ''past'' \<longrightarrow> bk_starts_at b < ev_py_now env)) = wanted env u p"
    by (intro ext) (simp add: wanted_def)
  show ?thesis
    by (simp add: list_bookings_def sc s t l w lift_def split: sum.splits)
qed

lemma distinct_booking_ids: "sorted_wrt booking_pair_ok rs \<Longrightarrow> distinct (map bk_id rs)"
  by (induction rs) (auto simp: booking_pair_ok_def)

lemma distinct_booking_keys:
  assumes "tables_ok d"
  shows "distinct (map booking_key (filter P (bookings d)))"
proof -
  have "sorted_wrt booking_pair_ok (bookings d)" using assms by (simp add: tables_ok_def table_ok_def)
  then have "distinct (map bk_id (bookings d))" by (rule distinct_booking_ids)
  then have "distinct (map booking_key (bookings d))"
    by (auto simp: distinct_map inj_on_def booking_key_def)
  then show ?thesis by (rule distinct_map_filter)
qed

text \<open>The requests of one walk: each is answered at a time of its own from the database of that time.\<close>

definition own_list ::
  "(codes \<Rightarrow> instant option) \<Rightarrow> app_user \<Rightarrow> list_params \<Rightarrow> string option \<Rightarrow> env \<times> db
     \<Rightarrow> exn + (booking list \<times> string option)" where
  "own_list others u p c = (\<lambda>(env, d). fst (list_bookings others env u (p\<lparr> lp_cursor := c \<rparr>) d))"

text \<open>C36: following \<open>next_cursor\<close> through the list of one's bookings, in either direction and under any
  filter, never fails, gives no start time and identifier twice, and once the last page is reached
  has given every booking that was there, unmoved, at every request, no matter what was booked,
  cancelled or moved in between; with at most \<open>n\<close> bookings overall it ends after \<open>n / limit\<close> pages.\<close>

theorem list_walk_misses_nothing:
  assumes "params_ok p" "parse_limit (lp_limit p) = Inr limit"
    and "\<forall>(env, d) \<in> set ds. tables_ok d \<and> list_all (\<lambda>b. time_key_ok (booking_key b)) (bookings d)"
  shows "\<exists>rs fin. follow (own_list others u p) None ds = Inr (rs, fin) \<and> distinct (map booking_key rs) \<and>
    (\<forall>b \<in> set rs. \<exists>(env, d) \<in> set ds. b \<in> set (bookings d) \<and> wanted env u p b) \<and>
    (\<forall>k. fin \<longrightarrow> (\<forall>(env, d) \<in> set ds. \<exists>b \<in> set (bookings d). wanted env u p b \<and> booking_key b = k) \<longrightarrow>
       (\<exists>b \<in> set rs. booking_key b = k)) \<and>
    (ds \<noteq> [] \<longrightarrow> card (\<Union>(env, d) \<in> set ds. booking_key ` set (bookings d)) \<le> length ds * limit \<longrightarrow> fin)"
proof -
  define rows where "rows = (\<lambda>(env :: env, d :: db). filter (wanted env u p) (bookings d))"
  let ?lt = "if lp_time p = Some ''past'' then key_desc else key_asc"
  have view: "own_list others u p (map_option time_cursor k) ed =
      text_page ?lt booking_key time_cursor (read_time_cursor others) limit (map_option time_cursor k) (rows ed)"
    for k ed
    using list_bookings_page[OF assms(1,2)]
    by (cases ed) (simp add: own_list_def rows_def bookings_page_def)
  have ok: "time_key_ok (booking_key b)" if "ed \<in> set ds" "b \<in> set (rows ed)" for ed b
    using that assms(3) by (cases ed) (auto simp: rows_def list_all_iff)
  have dist: "distinct (map booking_key (rows ed))" if "ed \<in> set ds" for ed
  proof -
    obtain env d where ed: "ed = (env, d)" by (cases ed)
    then have "tables_ok d" using assms(3) that by blast
    then show ?thesis unfolding ed rows_def prod.case by (rule distinct_booking_keys)
  qed
  have lim: "1 \<le> limit" using parse_limit_bounds[OF assms(2)] by simp
  have "\<exists>rs fin. follow (own_list others u p) None ds = Inr (rs, fin) \<and> distinct (map booking_key rs) \<and>
      (\<forall>r \<in> set rs. \<exists>d \<in> set ds. r \<in> set (rows d)) \<and>
      (\<forall>k. fin \<longrightarrow> (\<forall>d \<in> set ds. k \<in> booking_key ` set (rows d)) \<longrightarrow> k \<in> booking_key ` set rs) \<and>
      (ds \<noteq> [] \<longrightarrow> card (\<Union>d \<in> set ds. booking_key ` set (rows d)) \<le> length ds * limit \<longrightarrow> fin)"
  proof (cases "lp_time p = Some ''past''")
    case True
    have v: "own_list others u p (map_option time_cursor k) ed = text_page key_desc booking_key time_cursor
        (read_time_cursor others) limit (map_option time_cursor k) (rows ed)" if "ed \<in> set ds" for k ed
      using view True by simp
    note walk = bookings_desc.follow_correct[where others = others and ds = ds and limit = limit
        and rows = rows and view = "own_list others u p"]
    show ?thesis by (rule exE[OF walk]; (rule v ok lim dist; assumption)?) blast
  next
    case False
    have v: "own_list others u p (map_option time_cursor k) ed = text_page key_asc booking_key time_cursor
        (read_time_cursor others) limit (map_option time_cursor k) (rows ed)" if "ed \<in> set ds" for k ed
      using view False by simp
    note walk = bookings_asc.follow_correct[where others = others and ds = ds and limit = limit
        and rows = rows and view = "own_list others u p"]
    show ?thesis by (rule exE[OF walk]; (rule v ok lim dist; assumption)?) blast
  qed
  then obtain rs fin where r: "follow (own_list others u p) None ds = Inr (rs, fin)"
    "distinct (map booking_key rs)" "\<forall>r \<in> set rs. \<exists>d \<in> set ds. r \<in> set (rows d)"
    "\<forall>k. fin \<longrightarrow> (\<forall>d \<in> set ds. k \<in> booking_key ` set (rows d)) \<longrightarrow> k \<in> booking_key ` set rs"
    "ds \<noteq> [] \<longrightarrow> card (\<Union>d \<in> set ds. booking_key ` set (rows d)) \<le> length ds * limit \<longrightarrow> fin"
    by blast
  have le: "card (\<Union>d \<in> set ds. booking_key ` set (rows d)) \<le>
      card (\<Union>(env, d) \<in> set ds. booking_key ` set (bookings d))"
    by (rule card_mono) (auto simp: rows_def)
  have c1: "\<forall>b \<in> set rs. \<exists>(env, d) \<in> set ds. b \<in> set (bookings d) \<and> wanted env u p b"
    using r(3) by (fastforce simp: rows_def)
  have c2: "\<exists>b \<in> set rs. booking_key b = k" if "fin"
    "\<forall>(env, d) \<in> set ds. \<exists>b \<in> set (bookings d). wanted env u p b \<and> booking_key b = k" for k
  proof -
    have "\<forall>d \<in> set ds. k \<in> booking_key ` set (rows d)" using that(2) by (fastforce simp: rows_def)
    then have "k \<in> booking_key ` set rs" using r(4) that(1) by blast
    then show ?thesis by auto
  qed
  show ?thesis using r(1,2,5) c1 c2 le le_trans by blast
qed

text \<open>Pages of one row; between the two requests a booking is cancelled and one is made.\<close>

lemma one_per_page: "parse_limit (Some ''1'') = Inr 1"
  by (simp add: parse_limit_def int_of_text_def strip_def is_space_def dec_value_def MAX_PAGE_SIZE_def)

definition demo_params :: list_params where
  "demo_params = \<lparr> lp_resource = None, lp_status = Some ''confirmed'', lp_time = None,
     lp_limit = Some ''1'', lp_cursor = None \<rparr>"

definition demo_pages :: "(env \<times> db) list" where
  "demo_pages =
     [(demo_env 0 7, demo_db [demo_booking 5 1 (TR 100 200) Confirmed None,
         demo_booking 6 1 (TR 300 400) Confirmed None] [] []),
      (demo_env 0 7, demo_db [demo_booking 5 1 (TR 100 200) Cancelled None,
         demo_booking 6 1 (TR 300 400) Confirmed None, demo_booking 7 1 (TR 10 20) Confirmed None] [] [])]"

theorem list_walk_misses_nothing_witness:
  "\<exists>rs fin. follow (own_list (\<lambda>_. None) (demo_user 1) demo_params) None demo_pages = Inr (rs, fin) \<and>
     (fin \<longrightarrow> (\<exists>b \<in> set rs. booking_key b = (300, 6)))"
proof -
  have p: "params_ok demo_params" "parse_limit (lp_limit demo_params) = Inr 1"
    using one_per_page by (simp_all add: params_ok_def demo_params_def given_def)
  have c: "civil 0 = (1970, 1, 1)" by code_simp
  have ok: "\<forall>(env, d) \<in> set demo_pages. tables_ok d \<and>
      list_all (\<lambda>b. time_key_ok (booking_key b)) (bookings d)"
    by (auto simp: demo_pages_def demo_defs schema_defs time_key_ok_def booking_key_def
        bk_starts_at_def datetime_ok_def c)
  have "\<forall>(env, d) \<in> set demo_pages. \<exists>b \<in> set (bookings d). wanted env (demo_user 1) demo_params b \<and>
      booking_key b = (300, 6)"
    by (simp add: demo_pages_def demo_defs wanted_def booking_key_def bk_starts_at_def demo_params_def)
  then show ?thesis
    using list_walk_misses_nothing[OF p ok, of "\<lambda>_. None" "demo_user 1"] by blast
qed

end
