(* ===== verification/Alert_Properties.thy ===== *)
theory Alert_Properties
  imports Alerting Waitlist_Race
begin

text \<open>
  What an evaluation of the alerts guarantees: afterwards an alert is open exactly for the conditions
  that hold, evaluating again changes nothing, and an ordinary cascade raises the alert that is
  meant for writers that bypass the session settings.
\<close>

section \<open>One signal\<close>

abbreviation resolved :: "env \<Rightarrow> alert_event \<Rightarrow> alert_event" where
  "resolved env a \<equiv> a\<lparr> av_resolved_at := Some (ev_py_now env) \<rparr>"

lemma alerts_frame:
  "fk_ok (d\<lparr> alerts := as \<rparr>) = fk_ok d"
  by (simp add: fk_ok_def)

lemma autocommit_alerts:
  assumes "healthy env" "idle d" "fk_ok d" "m (begin_tx d) = (Inr x, (begin_tx d)\<lparr> alerts := as \<rparr>)"
  shows "autocommit env m d = (Inr x, d\<lparr> alerts := as \<rparr>)"
proof -
  have "(begin_tx d)\<lparr> alerts := as, in_tx := False, sess := None, queue := queue d, hooks := [] \<rparr>
      = d\<lparr> alerts := as \<rparr>"
    by (rule db.equality) (use assms(2) in \<open>simp_all add: idle_def\<close>)
  then show ?thesis
    using atomic_run[of d env m x "(begin_tx d)\<lparr> alerts := as \<rparr>"] assms
    by (simp add: autocommit_def idle_def alerts_frame)
qed

lemma open_iff_id:
  assumes "tables_ok d" "e \<in> set (alerts d)" "open_alert k e" "a \<in> set (alerts d)"
  shows "av_id a = av_id e \<longleftrightarrow> open_alert k a"
  using assms av.ok_pair[of "alerts d" a e]
  by (cases "a = e") (auto simp: tables_ok_def alert_pair_ok_def open_alert_def)

lemma updated_alerts_cong: "(\<And>r. r \<in> set rs \<Longrightarrow> P r = Q r) \<Longrightarrow> updated P f rs = updated Q f rs"
  by (auto simp: updated_def)

text \<open>What \<open>fire_or_resolve\<close> makes of the table and the queue.\<close>

definition alerts_after :: "env \<Rightarrow> alert_key \<Rightarrow> bool \<Rightarrow> string \<Rightarrow> json \<Rightarrow> alert_event list \<Rightarrow> alert_event list" where
  "alerts_after env k active message context as =
     (if active then as @ (if list_ex (open_alert k) as then [] else [new_alert env k message context])
      else updated (open_alert k) (resolved env) as)"

lemma find_list_ex: "find P xs = None \<longleftrightarrow> \<not> list_ex P xs"
  by (induction xs) auto

lemma fire_or_resolve_eq:
  assumes "healthy env" "idle d" "tables_ok d" "fk_ok d"
    and "active \<Longrightarrow> \<not> list_ex (open_alert k) (alerts d) \<Longrightarrow> ev_uuid env \<notin> av_id ` set (alerts d)"
  shows "fire_or_resolve env k active message context d =
    (Inr (if active \<and> \<not> list_ex (open_alert k) (alerts d)
          then Some (new_alert env k message context) else None),
     d\<lparr> alerts := alerts_after env k active message context (alerts d),
        queue := queue d @ (if active \<and> \<not> list_ex (open_alert k) (alerts d) \<and> ev_broker_up env
          then [AlertEmailTask (ev_uuid env)] else []) \<rparr>)"
proof (cases "find (open_alert k) (alerts d)")
  case None
  then have no: "\<not> list_ex (open_alert k) (alerts d)" by (simp add: find_list_ex)
  then have none: "updated (open_alert k) (resolved env) (alerts d) = alerts d"
    by (intro updated_none) (auto simp: list_all_iff list_ex_iff)
  show ?thesis
  proof (cases active)
    case True
    let ?e = "new_alert env k message context"
    have "check_alert ?e (alerts (begin_tx d)) = None"
      using assms(5)[OF True no] no
      by (auto simp: check_alert_def list_ex_iff alert_pair_ok_def new_alert_def open_alert_def)
    then have "insert_alert env ?e (begin_tx d) = (Inr ?e, (begin_tx d)\<lparr> alerts := alerts d @ [?e] \<rparr>)"
      using avt.insert_ok[of env OnAlert ?e "begin_tx d" None] assms(1)
      by (simp add: insert_alert_def log_eqs)
    from autocommit_alerts[where as = "alerts d @ [?e]" and m = "insert_alert env ?e" and d = d,
        OF assms(1,2,4) this] show ?thesis
      using True None no by (simp add: fire_or_resolve_def dispatch_alert_email_def send_now_def
          dispatch_eq alerts_after_def new_alert_def)
  qed (use None no none in \<open>simp add: fire_or_resolve_def alerts_after_def\<close>)
next
  case (Some e)
  then have e: "e \<in> set (alerts d)" "open_alert k e" by (auto simp: find_Some_iff)
  then have ex: "list_ex (open_alert k) (alerts d)" by (auto simp: list_ex_iff)
  show ?thesis
  proof (cases active)
    case False
    let ?as = "updated (\<lambda>a. av_id a = av_id e) (resolved env) (alerts d)"
    have as: "?as = updated (open_alert k) (resolved env) (alerts d)"
      by (rule updated_alerts_cong) (rule open_iff_id[OF assms(3) e])
    have "update_alerts env (\<lambda>a. av_id a = av_id e) (resolved env) (begin_tx d) =
        (Inr (count_if (\<lambda>a. av_id a = av_id e) (alerts d)), (begin_tx d)\<lparr> alerts := ?as \<rparr>)"
      unfolding update_alerts_def
      by (subst avt.update_relaxed) (use assms(1,3) in \<open>auto simp: alert_pair_ok_def log_eqs\<close>)
    from autocommit_alerts[where as = ?as and d = d and
        m = "update_alerts env (\<lambda>a. av_id a = av_id e) (resolved env)", OF assms(1,2,4) this] show ?thesis
      using False Some as by (simp add: fire_or_resolve_def resolve_alert_def alerts_after_def)
  qed (use Some ex in \<open>simp add: fire_or_resolve_def alerts_after_def\<close>)
qed

lemma alerts_after_open:
  "list_ex (open_alert k') (alerts_after env k active message context as)
     = (if k' = k then active else list_ex (open_alert k') as)"
proof (cases active)
  case True
  then show ?thesis by (auto simp: alerts_after_def open_alert_def new_alert_def)
next
  case False
  have "open_alert k' (if open_alert k a then resolved env a else a) \<longleftrightarrow> k' \<noteq> k \<and> open_alert k' a" for a
    by (auto simp: open_alert_def)
  then have "list_ex (open_alert k') (updated (open_alert k) (resolved env) as) \<longleftrightarrow>
      k' \<noteq> k \<and> list_ex (open_alert k') as"
    by (induction as) (auto simp: open_alert_def)
  then show ?thesis using False by (auto simp: alerts_after_def)
qed

lemma alerts_after_ids:
  "map av_id (alerts_after env k active message context as) = map av_id as @
     (if active \<and> \<not> list_ex (open_alert k) as then [ev_uuid env] else [])"
  by (simp add: alerts_after_def map_updated new_alert_def)

lemma alerts_after_ok:
  assumes "table_ok (\<lambda>_. True) alert_pair_ok as"
    "active \<Longrightarrow> \<not> list_ex (open_alert k) as \<Longrightarrow> ev_uuid env \<notin> av_id ` set as"
  shows "table_ok (\<lambda>_. True) alert_pair_ok (alerts_after env k active message context as)"
proof (cases active)
  case True
  have "\<forall>a \<in> set as. av_id a \<noteq> ev_uuid env" if "\<not> list_ex (open_alert k) as"
    using assms(2)[OF True that] by (metis imageI)
  then show ?thesis using assms(1) True
    by (auto simp: alerts_after_def table_ok_def sorted_wrt_append alert_pair_ok_def new_alert_def
        open_alert_def list_ex_iff list_all_iff)
next
  case False
  have "sorted_wrt alert_pair_ok (updated P (resolved env) rs)" if "sorted_wrt alert_pair_ok rs" for P rs
    using that by (induction rs) (auto simp: alert_pair_ok_def set_updated)
  then show ?thesis using assms(1) False by (simp add: alerts_after_def table_ok_def list_all_iff)
qed

section \<open>All signals\<close>

text \<open>A signal reads what alerting does not write.\<close>

definition blind :: "signal \<Rightarrow> bool" where
  "blind s = (\<forall>d as q. sg_active s (d\<lparr> alerts := as, queue := q \<rparr>) = sg_active s d)"

lemma signals_blind: "s \<in> set (signals ident fj now qn) \<Longrightarrow> blind s"
  by (auto simp: signals_def blind_def schema_assertion_signal_def reconciliation_signal_def
      hold_reaper_signal_def offer_cascade_signal_def series_materialization_signal_def
      tzdata_rematerialization_signal_def audit_actor_unknown_signal_def Let_def
      gist_write_throughput_signal_def last_failed_def latest_run_def heartbeat_is_stale_def
      schema_assertion_heartbeat_is_stale_def hold_reaper_heartbeat_is_stale_def
      count_stuck_held_bookings_def series_materialization_heartbeat_is_stale_def
      tzdata_rematerialization_heartbeat_is_stale_def audit_actor_unknown_since_def
      p95_duration_ms_def recent_def)

lemma signal_keys: "map sg_key (signals ident fj now qn) =
  [Alert_check Schema_assertion, Alert_check Reconciliation, Alert_check Hold_reaper,
   Alert_check Offer_cascade, Alert_check Series_materialization,
   Alert_check Tzdata_rematerialization, Audit_actor_unknown, Gist_write_throughput]"
  by (simp add: signals_def schema_assertion_signal_def reconciliation_signal_def
      hold_reaper_signal_def offer_cascade_signal_def series_materialization_signal_def
      tzdata_rematerialization_signal_def audit_actor_unknown_signal_def Let_def
      gist_write_throughput_signal_def)

definition fires :: "db \<Rightarrow> signal \<Rightarrow> bool" where
  "fires d s = (sg_active s d \<and> \<not> list_ex (open_alert (sg_key s)) (alerts d))"

lemma evaluate_signals_eq:
  assumes "\<And>j. j < length ss \<Longrightarrow> healthy (envs (i + j))"
    and "\<And>j. j < length ss \<Longrightarrow> ev_uuid (envs (i + j)) \<notin> av_id ` set (alerts d)"
    and "\<And>j l. j < l \<Longrightarrow> l < length ss \<Longrightarrow> ev_uuid (envs (i + j)) \<noteq> ev_uuid (envs (i + l))"
    and "idle d" "tables_ok d" "fk_ok d" "distinct (map sg_key ss)" "list_all blind ss"
  shows "\<exists>fired d'. evaluate_signals envs i ss d = (Inr fired, d') \<and>
    d' = d\<lparr> alerts := alerts d', queue := queue d' \<rparr> \<and>
    map av_key fired = map sg_key (filter (fires d) ss) \<and>
    map av_id (alerts d') = map av_id (alerts d) @ map av_id fired \<and>
    (\<forall>k. list_ex (open_alert k) (alerts d') = (if k \<in> sg_key ` set ss
       then \<exists>s \<in> set ss. sg_key s = k \<and> sg_active s d else list_ex (open_alert k) (alerts d)))"
  using assms
proof (induction ss arbitrary: i d)
  case Nil
  then show ?case by simp
next
  case (Cons s ss)
  let ?k = "sg_key s" and ?on = "sg_active s d" and ?env = "envs i"
  let ?msg = "sg_message s d" and ?ctx = "sg_context s d"
  define d1 where "d1 = d\<lparr> alerts := alerts_after ?env ?k ?on ?msg ?ctx (alerts d),
      queue := queue d @ (if ?on \<and> \<not> list_ex (open_alert ?k) (alerts d) \<and> ev_broker_up ?env
        then [AlertEmailTask (ev_uuid ?env)] else []) \<rparr>"
  have new: "ev_uuid ?env \<notin> av_id ` set (alerts d)" using Cons.prems(2)[of 0] by simp
  have h: "healthy ?env" using Cons.prems(1)[of 0] by simp
  have one: "fire_or_resolve ?env ?k ?on ?msg ?ctx d =
      (Inr (if fires d s then Some (new_alert ?env ?k ?msg ?ctx) else None), d1)"
    unfolding d1_def fires_def by (rule fire_or_resolve_eq[OF h Cons.prems(4-6)]) (rule new)
  have idle: "idle d1" using Cons.prems(4) by (simp add: idle_def d1_def)
  have aok: "table_ok (\<lambda>_. True) alert_pair_ok (alerts d)" using Cons.prems(5) by (simp add: tables_ok_def)
  have ok: "tables_ok d1" "fk_ok d1"
    using avt.put_ok[OF Cons.prems(5) alerts_after_ok[OF aok new]] Cons.prems(6)
    by (simp_all add: d1_def alerts_frame)
  have ids: "map av_id (alerts d1) = map av_id (alerts d) @ (if fires d s then [ev_uuid ?env] else [])"
    by (simp add: d1_def alerts_after_ids fires_def)
  have fresh: "ev_uuid (envs (Suc i + j)) \<notin> av_id ` set (alerts d1)" if "j < length ss" for j
  proof -
    have "av_id ` set (alerts d1) \<subseteq> insert (ev_uuid ?env) (av_id ` set (alerts d))"
      using arg_cong[OF ids, of set] by (auto split: if_splits)
    moreover have "ev_uuid (envs (Suc i + j)) \<noteq> ev_uuid ?env"
      using Cons.prems(3)[of 0 "Suc j"] that by simp
    ultimately show ?thesis using Cons.prems(2)[of "Suc j"] that by auto
  qed
  have same: "sg_active t d1 = sg_active t d" if "t \<in> set ss" for t
    using that Cons.prems(8) unfolding d1_def by (simp add: list_all_iff blind_def)
  have keys: "?k \<notin> sg_key ` set ss" "\<And>t. t \<in> set ss \<Longrightarrow> sg_key t \<noteq> ?k"
    using Cons.prems(7) by (auto simp: image_iff)
  have opens: "list_ex (open_alert k) (alerts d1) = (if k = ?k then ?on else list_ex (open_alert k) (alerts d))" for k
    by (simp add: d1_def alerts_after_open)
  have fires: "filter (fires d1) ss = filter (fires d) ss"
    by (rule filter_cong[OF refl]) (use same opens keys in \<open>auto simp: fires_def\<close>)
  have "\<exists>fired d'. evaluate_signals envs (Suc i) ss d1 = (Inr fired, d') \<and>
    d' = d1\<lparr> alerts := alerts d', queue := queue d' \<rparr> \<and>
    map av_key fired = map sg_key (filter (fires d1) ss) \<and>
    map av_id (alerts d') = map av_id (alerts d1) @ map av_id fired \<and>
    (\<forall>k. list_ex (open_alert k) (alerts d') = (if k \<in> sg_key ` set ss
       then \<exists>s \<in> set ss. sg_key s = k \<and> sg_active s d1 else list_ex (open_alert k) (alerts d1)))"
    by (rule Cons.IH) (use Cons.prems(1)[of "Suc _"] Cons.prems(3)[of "Suc _" "Suc _"] fresh idle ok
      Cons.prems(7,8) in auto)
  then obtain fired d' where r: "evaluate_signals envs (Suc i) ss d1 = (Inr fired, d')"
    and fr: "d' = d1\<lparr> alerts := alerts d', queue := queue d' \<rparr>"
    and ks: "map av_key fired = map sg_key (filter (fires d1) ss)"
    and is': "map av_id (alerts d') = map av_id (alerts d1) @ map av_id fired"
    and os: "\<And>k. list_ex (open_alert k) (alerts d') = (if k \<in> sg_key ` set ss
       then \<exists>s \<in> set ss. sg_key s = k \<and> sg_active s d1 else list_ex (open_alert k) (alerts d1))"
    by blast
  define fired' where "fired' = (if fires d s then new_alert ?env ?k ?msg ?ctx # fired else fired)"
  have run: "evaluate_signals envs i (s # ss) d = (Inr fired', d')"
    using one r by (simp add: fired'_def)
  have "d' = d\<lparr> alerts := alerts d', queue := queue d' \<rparr>" using fr by (simp add: d1_def)
  moreover have "map av_key fired' = map sg_key (filter (fires d) (s # ss))"
    using ks fires by (simp add: fired'_def new_alert_def)
  moreover have "map av_id (alerts d') = map av_id (alerts d) @ map av_id fired'"
    using is' ids by (simp add: fired'_def new_alert_def)
  moreover have "list_ex (open_alert k) (alerts d') = (if k \<in> sg_key ` set (s # ss)
       then \<exists>t \<in> set (s # ss). sg_key t = k \<and> sg_active t d else list_ex (open_alert k) (alerts d))" for k
    unfolding os using opens[of k] same keys by auto
  ultimately show ?case using run by blast
qed

lemma evaluate_quiet:
  assumes "\<And>s. s \<in> set ss \<Longrightarrow> list_ex (open_alert (sg_key s)) (alerts d) = sg_active s d"
  shows "evaluate_signals envs i ss d = (Inr [], d)"
  using assms
proof (induction ss arbitrary: i)
  case (Cons s ss)
  have "fire_or_resolve (envs i) (sg_key s) (sg_active s d) (sg_message s d) (sg_context s d) d = (Inr None, d)"
    using Cons.prems[of s] find_list_ex[of "open_alert (sg_key s)" "alerts d"]
    by (cases "find (open_alert (sg_key s)) (alerts d)") (auto simp: fire_or_resolve_def)
  then show ?case using Cons by simp
qed simp

section \<open>Properties\<close>

text \<open>C40: an evaluation ends with an alert open for exactly the keys whose condition holds, whatever was
  open before: it fires the ones that were not open, each once, in the order of the signals, and
  resolves the others; evaluating again at that time fires nothing and changes nothing.\<close>

theorem evaluation_opens_exactly_the_true_alerts:
  assumes "\<forall>i < 8. healthy (envs i) \<and> ev_uuid (envs i) \<notin> av_id ` set (alerts d)"
    and "inj_on (\<lambda>i. ev_uuid (envs i)) {..<8}" "idle d" "db_ok d"
  shows "\<exists>fired d'. evaluate_alerts ident float_json envs now d = (Inr fired, d') \<and>
    d' = d\<lparr> alerts := alerts d', queue := queue d' \<rparr> \<and>
    (\<forall>s \<in> set (signals ident float_json now (ev_py_now (envs 7))).
       list_ex (open_alert (sg_key s)) (alerts d') = sg_active s d) \<and>
    map av_key fired = map sg_key (filter (fires d) (signals ident float_json now (ev_py_now (envs 7)))) \<and>
    map av_id (alerts d') = map av_id (alerts d) @ map av_id fired \<and>
    (\<forall>envs'. ev_py_now (envs' 7) = ev_py_now (envs 7) \<longrightarrow>
       evaluate_alerts ident float_json envs' now d' = (Inr [], d'))"
proof -
  let ?ss = "signals ident float_json now (ev_py_now (envs 7))"
  have len: "length ?ss = 8" by (simp add: signals_def)
  have dist: "distinct (map sg_key ?ss)" by (simp add: signal_keys)
  have ok: "tables_ok d" "fk_ok d" using assms(3,4) by (auto simp: db_ok_def idle_def)
  have "\<exists>fired d'. evaluate_signals envs 0 ?ss d = (Inr fired, d') \<and>
    d' = d\<lparr> alerts := alerts d', queue := queue d' \<rparr> \<and>
    map av_key fired = map sg_key (filter (fires d) ?ss) \<and>
    map av_id (alerts d') = map av_id (alerts d) @ map av_id fired \<and>
    (\<forall>k. list_ex (open_alert k) (alerts d') = (if k \<in> sg_key ` set ?ss
       then \<exists>s \<in> set ?ss. sg_key s = k \<and> sg_active s d else list_ex (open_alert k) (alerts d)))"
  proof (rule evaluate_signals_eq)
    show "ev_uuid (envs (0 + j)) \<noteq> ev_uuid (envs (0 + l))" if "j < l" "l < length ?ss" for j l
      using inj_onD[OF assms(2), of j l] that len by auto
    show "list_all blind ?ss" using signals_blind by (auto simp: list_all_iff)
  qed (use assms(1,3) ok dist len in auto)
  then obtain fired d' where r: "evaluate_signals envs 0 ?ss d = (Inr fired, d')"
    and fr: "d' = d\<lparr> alerts := alerts d', queue := queue d' \<rparr>"
    and rest: "map av_key fired = map sg_key (filter (fires d) ?ss)"
      "map av_id (alerts d') = map av_id (alerts d) @ map av_id fired"
    and os: "\<And>k. list_ex (open_alert k) (alerts d') = (if k \<in> sg_key ` set ?ss
       then \<exists>s \<in> set ?ss. sg_key s = k \<and> sg_active s d else list_ex (open_alert k) (alerts d))"
    by blast
  have "s = t" if "s \<in> set ?ss" "t \<in> set ?ss" "sg_key s = sg_key t" for s t
    using that dist by (simp add: distinct_map inj_on_def)
  then have opens: "list_ex (open_alert (sg_key s)) (alerts d') = sg_active s d" if "s \<in> set ?ss" for s
    unfolding os using that by auto
  have "sg_active s d' = sg_active s d" if "s \<in> set ?ss" for s
    using signals_blind[OF that] fr unfolding blind_def by metis
  then have "evaluate_signals envs' 0 ?ss d' = (Inr [], d')" for envs'
    by (intro evaluate_quiet) (simp add: opens)
  then show ?thesis using r fr rest opens unfolding evaluate_alerts_def by metis
qed

text \<open>The alert for audit rows without an actor, meant for writers that bypass the session settings,
  is raised by every cascade that makes an offer: for five minutes after an ordinary cascade its
  condition holds.\<close>

theorem ordinary_cascade_raises_an_alert:
  assumes "\<And>i. healthy (envs i)" "\<And>i. fresh_booking_id (envs i) d" "idle d" "db_ok d"
    and "res \<in> List.set (map rs_id (resources d))"
    and "find_eligible_entries res s e d = w # post"
    and "cascade_turn_ok (envs 0) res rid w d"
    and "now \<le> ev_db_now (envs 0) + 5 * minute"
  shows "\<exists>offer d'. create_offer_for_freed_range envs res s e rid d = (Inr (Some offer), d') \<and>
    sg_active (audit_actor_unknown_signal ident now) d'"
proof -
  have run: "create_offer_for_freed_range envs res s e rid d =
    (Inr (Some (new_offer (envs 0) res w (created (envs 0) (hold_request res rid w)))),
     cascaded_db (envs 0) res rid w (Suc 0) d)"
    using cascade_eq[of envs d res s e "[]" w post rid, OF assms(1-5)] assms(6,7) by simp
  have "\<exists>a \<in> set (audit (cascaded_db (envs 0) res rid w (Suc 0) d)).
      al_actor_type a = Actor_unknown \<and> al_occurred_at a = ev_db_now (envs 0)"
    by (auto simp: cascaded_db_def offered_db_def after_create_def offer_audit_def audit_row_def)
  then have "0 < audit_actor_unknown_since (now - AUDIT_ACTOR_UNKNOWN_LOOKBACK_SECONDS * second)
      (cascaded_db (envs 0) res rid w (Suc 0) d)"
    using assms(8) unfolding audit_actor_unknown_since_def AUDIT_ACTOR_UNKNOWN_LOOKBACK_SECONDS_def
    unfolding neq0_conv[symmetric] count_if_0_iff list_all_iff by fastforce
  then show ?thesis using run by (auto simp: audit_actor_unknown_signal_def Let_def)
qed

section \<open>Witnesses\<close>

text \<open>A database in which nothing has run: the four heartbeats are missing, so four alerts are fired.\<close>

theorem evaluation_opens_exactly_the_true_alerts_witness:
  "\<exists>fired d'. evaluate_alerts (\<lambda>_. '''') (\<lambda>_. JNull) (demo_envs 0) 0 (demo_db [] [] []) = (Inr fired, d') \<and>
     length fired = 4 \<and> list_ex (open_alert (Alert_check Hold_reaper)) (alerts d') \<and>
     evaluate_alerts (\<lambda>_. '''') (\<lambda>_. JNull) (demo_envs 0) 0 d' = (Inr [], d')"
proof -
  let ?d = "demo_db [] [] []" and ?ss = "signals (\<lambda>_. '''') (\<lambda>_. JNull) 0 (ev_py_now (demo_envs 0 7))"
  have fires: "length (filter (fires ?d) ?ss) = 4"
    by (simp add: signals_def fires_def demo_defs demo_envs_def schema_assertion_signal_def
        reconciliation_signal_def hold_reaper_signal_def offer_cascade_signal_def
        series_materialization_signal_def tzdata_rematerialization_signal_def
        audit_actor_unknown_signal_def Let_def gist_write_throughput_signal_def last_failed_def
        latest_run_def heartbeat_is_stale_def schema_assertion_heartbeat_is_stale_def
        hold_reaper_heartbeat_is_stale_def count_stuck_held_bookings_def
        series_materialization_heartbeat_is_stale_def p95_duration_ms_def recent_def
        tzdata_rematerialization_heartbeat_is_stale_def audit_actor_unknown_since_def
        percentile_cont_def map_filter_simps)
  have "\<forall>i < 8. healthy (demo_envs 0 i) \<and> ev_uuid (demo_envs 0 i) \<notin> av_id ` set (alerts ?d)"
    "inj_on (\<lambda>i. ev_uuid (demo_envs 0 i)) {..<8}" "idle ?d" "db_ok ?d"
    by (simp_all add: demo_envs_def demo_defs healthy_def idle_def inj_on_def schema_defs)
  from evaluation_opens_exactly_the_true_alerts[OF this, of "\<lambda>_. ''''" "\<lambda>_. JNull" 0]
  obtain fired d' where r: "evaluate_alerts (\<lambda>_. '''') (\<lambda>_. JNull) (demo_envs 0) 0 ?d = (Inr fired, d')"
    "\<forall>s \<in> set ?ss. list_ex (open_alert (sg_key s)) (alerts d') = sg_active s ?d"
    "map av_key fired = map sg_key (filter (fires ?d) ?ss)"
    "\<forall>envs'. ev_py_now (envs' 7) = ev_py_now (demo_envs 0 7) \<longrightarrow>
       evaluate_alerts (\<lambda>_. '''') (\<lambda>_. JNull) envs' 0 d' = (Inr [], d')" by blast
  have "length fired = 4" using arg_cong[OF r(3), of length] fires by simp
  moreover have "hold_reaper_signal 0 \<in> set ?ss" by (simp add: signals_def)
  then have "list_ex (open_alert (Alert_check Hold_reaper)) (alerts d')"
    using r(2) by (fastforce simp: hold_reaper_signal_def hold_reaper_heartbeat_is_stale_def
        heartbeat_is_stale_def latest_run_def demo_defs)
  ultimately show ?thesis using r(1,4) by blast
qed

theorem ordinary_cascade_raises_an_alert_witness:
  "\<exists>offer d'. create_offer_for_freed_range (demo_envs 0) 10 100 200 ''r''
      (demo_db [] [demo_entry 20 1 (TR 150 200) Waiting 9] []) = (Inr (Some offer), d') \<and>
     sg_active (audit_actor_unknown_signal (\<lambda>_. '''') (2 * minute)) d'"
proof -
  let ?d = "demo_db [] [demo_entry 20 1 (TR 150 200) Waiting 9] []"
  have "find_eligible_entries 10 100 200 ?d = demo_entry 20 1 (TR 150 200) Waiting 9 # []" "db_ok ?d"
    by code_simp+
  moreover have "healthy (demo_envs 0 i)" for i by (simp add: demo_envs_def)
  moreover have "fresh_booking_id (demo_envs 0 i) ?d" for i
    by (simp add: demo_envs_def demo_simps fresh_booking_id_def)
  moreover have "cascade_turn_ok (demo_envs 0 0) 10 ''r'' (demo_entry 20 1 (TR 150 200) Waiting 9) ?d"
    by (simp add: demo_envs_def demo_simps cascade_turn_ok_def blocked_def offer_on_reclaimed_def)
  ultimately show ?thesis
    using ordinary_cascade_raises_an_alert[of "demo_envs 0" ?d 10 100 200
        "demo_entry 20 1 (TR 150 200) Waiting 9" "[]" "''r''" "2 * minute" "\<lambda>_. ''''"]
    by (simp add: demo_envs_def demo_simps)
qed

end
