(* ===== verification/Identity_Properties.thy ===== *)
theory Identity_Properties
  imports Identity_Api Offboarding_Properties
begin

text \<open>
  What authentication promises: only a known, active user reaches a handler; a session token works
  from the login that issued it until its user is deactivated; and two limits of the login, one of
  the real identity provider and one of a stale credential.
\<close>

section \<open>Who reaches a handler\<close>

lemma known_user_cases:
  assumes "known_user i d = (r, d')"
  obtains (known) u where "u \<in> set (users d)" "au_id u = i" "au_status u \<noteq> User_deactivated"
      "r = Inr (Some u)" "d' = d"
  | (refused) code where "r = Inl (AuthenticationFailed code)" "d' = d"
proof (cases "find (\<lambda>u. au_id u = i) (users d)")
  case None
  then show ?thesis using assms refused by (auto simp: known_user_def)
next
  case (Some u)
  then have u: "u \<in> set (users d)" "au_id u = i" by (auto simp: find_Some_iff)
  show ?thesis
  proof (cases "au_status u = User_deactivated")
    case True
    then have "reject_if_deactivated u d = (Inl (AuthenticationFailed ''deactivated_account''), d)"
      by (simp add: reject_if_deactivated_def)
    then show ?thesis using assms Some refused by (auto simp: known_user_def)
  next
    case False
    then have "reject_if_deactivated u d = (Inr (), d)" by (simp add: reject_if_deactivated_def)
    then have "r = Inr (Some u)" "d' = d" using assms Some by (auto simp: known_user_def)
    with u False show ?thesis by (rule known)
  qed
qed

text \<open>The user a request is from, as its credentials state it.\<close>

definition claims_to_be :: "jwt \<Rightarrow> auth_settings \<Rightarrow> headers \<Rightarrow> uuid \<Rightarrow> bool" where
  "claims_to_be j st h i =
     ((\<exists>tok. hd_authorization h = Some (''Bearer '' @ tok) \<and>
          verify_session_token j (strip is_space tok) = Inr i) \<or>
      (st_stub_enabled st \<and> (\<exists>t. hd_dev_user h = Some t \<and> parse_uuid t = Some i)))"

lemma starts_with_split: "starts_with p s \<Longrightarrow> s = p @ drop (length p) s"
  by (induction p s rule: starts_with.induct) auto

lemma starts_with_append [simp]: "starts_with p (p @ s)"
  by (induction p) simp_all

lemma oidc_cases:
  assumes "oidc_session_authenticate j h d = (r, d')"
  obtains (anonymous) "r = Inr None" "d' = d"
  | (known) u where "u \<in> set (users d)" "claims_to_be j st h (au_id u)" "au_status u \<noteq> User_deactivated"
      "r = Inr (Some u)" "d' = d"
  | (refused) e where "r = Inl e" "d' = d"
proof (cases "hd_authorization h")
  case None
  then show ?thesis using assms anonymous by (auto simp: oidc_session_authenticate_def)
next
  case (Some hv)
  show ?thesis
  proof (cases "starts_with ''Bearer '' hv")
    case False
    then show ?thesis using assms Some anonymous by (auto simp: oidc_session_authenticate_def)
  next
    case True
    define tok where "tok = drop (length ''Bearer '') hv"
    have v: "hd_authorization h = Some (''Bearer '' @ tok)"
      using Some starts_with_split[OF True] by (simp add: tok_def)
    have run: "oidc_session_authenticate j h = (case verify_session_token j (strip is_space tok) of
            Inl SessionTokenError \<Rightarrow> raise (AuthenticationFailed ''invalid_session_token'')
          | Inl Not_a_text \<Rightarrow> raise (TypeError ''replace'')
          | Inr i \<Rightarrow> known_user i)"
      using True unfolding oidc_session_authenticate_def Some tok_def by simp
    show ?thesis
    proof (cases "verify_session_token j (strip is_space tok)")
      case (Inl a)
      then show ?thesis using assms run refused by (cases a) auto
    next
      case (Inr i)
      then have "known_user i d = (r, d')" using assms run by simp
      then show ?thesis
      proof (cases rule: known_user_cases)
        case (known u)
        then show ?thesis using Inr v that(2)[of u] unfolding claims_to_be_def by blast
      next
        case refused: (refused code)
        then show ?thesis using that(3) by blast
      qed
    qed
  qed
qed

lemma stub_cases:
  assumes "stub_user_id_authenticate st h d = (r, d')"
  obtains (anonymous) "r = Inr None" "d' = d"
  | (known) u where "u \<in> set (users d)" "claims_to_be j st h (au_id u)" "au_status u \<noteq> User_deactivated"
      "r = Inr (Some u)" "d' = d"
  | (refused) e where "r = Inl e" "d' = d"
proof (cases "st_stub_enabled st \<and> (\<exists>t. hd_dev_user h = Some t \<and> parse_uuid t \<noteq> None)")
  case False
  then show ?thesis
    using assms anonymous refused
    by (auto simp: stub_user_id_authenticate_def split: if_splits option.splits)
next
  case True
  then obtain t i where t: "hd_dev_user h = Some t" "parse_uuid t = Some i" "st_stub_enabled st" by auto
  then have "known_user i d = (r, d')" using assms by (simp add: stub_user_id_authenticate_def)
  then show ?thesis
  proof (cases rule: known_user_cases)
    case (known u)
    then show ?thesis using t that(2)[of u] unfolding claims_to_be_def by blast
  next
    case refused: (refused code)
    then show ?thesis using that(3) by blast
  qed
qed

lemma authenticate_cases:
  assumes "authenticate j st h d = (r, d')"
  obtains (anonymous) "r = Inr None" "d' = d"
  | (known) u where "u \<in> set (users d)" "claims_to_be j st h (au_id u)" "au_status u \<noteq> User_deactivated"
      "r = Inr (Some u)" "d' = d"
  | (refused) e where "r = Inl e" "d' = d"
  using assms unfolding authenticate_def
proof (cases rule: bind_svc_cases)
  case (err e)
  then show ?thesis using that(3) by (cases rule: oidc_cases[where st = st]) auto
next
  case (val x d1)
  from val(1) show ?thesis
  proof (cases rule: oidc_cases[where st = st])
    case anonymous
    then have "stub_user_id_authenticate st h d = (r, d')" using val(2) by simp
    then show ?thesis
    proof (cases rule: stub_cases[where j = j])
      case (known u)
      then show ?thesis by (rule that(2))
    qed (use that in blast)+
  next
    case (known u)
    then have "r = Inr (Some u)" "d' = d" using val(2) by auto
    with known(1-3) show ?thesis by (rule that(2))
  qed (use val in auto)
qed

text \<open>C8: every endpoint behind \<open>KairosAPIView\<close> either refuses the request without touching the
  database, or runs its handler for a user who is in the table, is not deactivated, is the one the
  request's credentials name, and whom no throttle refused.  Whatever a request changes, it changes on
  behalf of such a user.\<close>

theorem only_active_known_users_act:
  assumes "kairos_api_view j st h throttles handler d = (r, d')"
  shows "(\<exists>e. r = Inl e \<and> d' = d) \<or>
    (\<exists>u \<in> set (users d). au_status u \<noteq> User_deactivated \<and> claims_to_be j st h (au_id u) \<and>
       list_all th_allowed (throttles u) \<and> handler u d = (r, d'))"
  using assms unfolding kairos_api_view_def
proof (cases rule: bind_svc_cases)
  case (err e)
  from err(1) show ?thesis by (cases rule: authenticate_cases) (use err(2) in auto)
next
  case (val x d1)
  from val(1) show ?thesis
  proof (cases rule: authenticate_cases)
    case anonymous
    then show ?thesis using val(2) by auto
  next
    case (known u)
    have "then_svc (throttled (throttles u)) (handler u) d = (r, d')" using known val(2) by simp
    moreover have "list_all th_allowed (throttles u) \<or> (\<exists>w c. throttled (throttles u) d = (Inl (Throttled w c), d))"
    proof (cases "filter (\<lambda>a. \<not> th_allowed a) (throttles u)")
      case Nil
      then show ?thesis by (simp add: filter_empty_conv list_all_iff)
    qed (simp add: throttled_def)
    moreover have "list_all th_allowed (throttles u) \<Longrightarrow> throttled (throttles u) = ret ()"
      by (simp add: throttled_def list_all_iff filter_empty_conv[THEN iffD2])
    ultimately show ?thesis using known(1-3) by auto
  qed auto
qed


definition demo_jwt :: jwt where
  "demo_jwt = \<lparr> jw_unverified = (\<lambda>t. if t = ''other'' then Some [(''iss'', JStr ''https://idp'')]
        else Some [(''iss'', JStr MOCK_ISSUER)]),
     jw_rs256 = (\<lambda>t k a i. Some [(''sub'', JStr ''s''), (''email'', JStr ''b''), (''name'', JStr ''Name'')]),
     jw_hs256 = (\<lambda>t. if t = ''tok'' then Some [(''sub'', JStr (uuid_text 2))] else None),
     jw_sign_rs256 = (\<lambda>_. ''id''), jw_sign_hs256 = (\<lambda>_. ''tok''),
     jw_encode_none = (\<lambda>cs k. if k = '''' then Some ''unsigned'' else None),
     jw_signing_key = (\<lambda>_ _. Some ''key''), jw_reachable = (\<lambda>_. True), jw_text = (\<lambda>_. ''x'') \<rparr>"

definition demo_settings :: "bool \<Rightarrow> auth_settings" where
  "demo_settings mock = \<lparr> st_mock_enabled = mock, st_stub_enabled = False, st_issuer = ''https://idp'',
     st_client_id = ''kairos'', st_mock_public_key = ''pk'', st_session_ttl = 3600 \<rparr>"

definition no_headers :: headers where
  "no_headers = \<lparr> hd_authorization = None, hd_dev_user = None, hd_request_id = None, hd_origin = None,
     hd_preflight_method = None, hd_preflight_headers = None \<rparr>"

abbreviation bearer :: "string \<Rightarrow> headers" where
  "bearer tok \<equiv> no_headers\<lparr> hd_authorization := Some (''Bearer '' @ tok) \<rparr>"

lemmas identity_demo = demo_jwt_def demo_settings_def no_headers_def

lemma strip_tok: "strip is_space ''tok'' = ''tok''" by code_simp

lemma demo_login: "find (\<lambda>u. au_id u = 2) (users (demo_db bs es ws)) = Some (demo_user 2)"
  by (simp add: demo_db_def demo_user_def empty_db_def)

lemma demo_authenticate:
  "oidc_session_authenticate demo_jwt (bearer ''tok'') (demo_db bs es ws)
     = (Inr (Some (demo_user 2)), demo_db bs es ws)"
proof -
  have "verify_session_token demo_jwt ''tok'' = Inr 2"
    by (simp add: verify_session_token_def demo_jwt_def parse_uuid_text)
  then have "oidc_session_authenticate demo_jwt (bearer ''tok'') = known_user 2"
    by (simp add: oidc_session_authenticate_def strip_tok no_headers_def)
  then show ?thesis
    using demo_login by (simp add: known_user_def reject_if_deactivated_def demo_user_def)
qed

theorem only_active_known_users_act_witness:
  "\<exists>u \<in> set (users (demo_db [] [] [])). au_status u \<noteq> User_deactivated \<and>
     claims_to_be demo_jwt (demo_settings False) (bearer ''tok'') (au_id u)"
proof -
  have "authenticate demo_jwt (demo_settings False) (bearer ''tok'') (demo_db [] [] [])
      = (Inr (Some (demo_user 2)), demo_db [] [] [])"
    using demo_authenticate[of "[]" "[]" "[]"] by (simp add: authenticate_def)
  then have "kairos_api_view demo_jwt (demo_settings False) (bearer ''tok'') (\<lambda>_. [])
      (\<lambda>u. ret (plain_reply 200 JNull)) (demo_db [] [] []) = (Inr (plain_reply 200 JNull), demo_db [] [] [])"
    by (simp add: kairos_api_view_def throttled_def)
  from only_active_known_users_act[OF this] show ?thesis by blast
qed

section \<open>Limits of the login\<close>

lemma real_issuer_refused:
  assumes "\<And>cs k. k \<noteq> '''' \<Longrightarrow> jw_encode_none j cs k = None" "\<not> st_mock_enabled st"
  shows "\<exists>e. verify_id_token j st token = Inl e"
proof -
  have "\<exists>e. fetch_jwks_public_key j st issuer unverified = Inl e" for issuer unverified
    using assms(1) by (auto simp: fetch_jwks_public_key_def Let_def)
  then have "\<exists>e. verified_claims j st token unverified = Inl e" for unverified
    using assms(2) unfolding verified_claims_def Let_def by (auto split: sum.split) (metis sum.distinct(1))+
  then show ?thesis unfolding verify_id_token_def
    by (cases "jw_unverified j token") (auto split: sum.split, metis sum.distinct(1))
qed

text \<open>Where the mock issuer is off, no login ever succeeds.  The key of the real provider is
  looked up with a token that is encoded again with the algorithm \<open>none\<close> and a key, which the JWT
  library refuses (the hypothesis), so every ID token is answered with a failure and no user is
  provisioned.\<close>

theorem production_login_never_succeeds:
  assumes "\<And>cs k. k \<noteq> '''' \<Longrightarrow> jw_encode_none j cs k = None" "\<not> st_mock_enabled st"
  shows "\<exists>e. token_exchange_view j st env lf h data d = (Inl e, d)"
proof (cases "oidc_session_authenticate j h d")
  case (Pair r d1)
  then have d1: "d1 = d" using pure_svcD[OF pure_authenticate(1)] by blast
  show ?thesis
  proof (cases r)
    case (Inl e)
    then show ?thesis using Pair d1 by (simp add: token_exchange_view_def)
  next
    case (Inr u)
    then have auth: "oidc_session_authenticate j h d = (Inr u, d)" using Pair d1 by simp
    show ?thesis
    proof (cases "lf_token lf data")
      case (Inl details)
      then show ?thesis using auth by (simp add: token_exchange_view_def)
    next
      case form: (Inr id_token)
      obtain e where "verify_id_token j st id_token = Inl e" using real_issuer_refused[OF assms] by blast
      then show ?thesis using auth form by (cases e) (simp_all add: token_exchange_view_def)
    qed
  qed
qed

lemma demo_none: "k \<noteq> '''' \<Longrightarrow> jw_encode_none demo_jwt cs k = None"
  by (simp add: demo_jwt_def)

definition demo_forms :: login_forms where
  "demo_forms = \<lparr> lf_token = (\<lambda>v. case v of JStr s \<Rightarrow> Inr s | _ \<Rightarrow> Inl JNull), lf_mock = (\<lambda>_. Inl JNull) \<rparr>"

theorem production_login_never_succeeds_witness:
  "\<exists>e. token_exchange_view demo_jwt (demo_settings False) (demo_env 50 7) demo_forms no_headers
     (JStr ''other'') (demo_db [] [] []) = (Inl e, demo_db [] [] [])"
  by (rule production_login_never_succeeds) (simp_all add: demo_none demo_settings_def)

text \<open>The login endpoints run the session authenticator they only declare for its challenge, so a
  request that carries an expired or otherwise refused session token is answered 401, whatever the ID
  token it wants to exchange, and a client that always sends its stored token cannot log in again.\<close>

theorem stale_session_blocks_login:
  assumes "hd_authorization h = Some (''Bearer '' @ tok)"
    and "verify_session_token j (strip is_space tok) = Inl SessionTokenError"
  shows "token_exchange_view j st env lf h data d = (Inl (AuthenticationFailed ''invalid_session_token''), d)"
    and "dev_mock_login_view j st env lf h data d = (Inl (AuthenticationFailed ''invalid_session_token''), d)"
proof -
  have "oidc_session_authenticate j h d = (Inl (AuthenticationFailed ''invalid_session_token''), d)"
    using assms unfolding oidc_session_authenticate_def by simp
  then show "token_exchange_view j st env lf h data d = (Inl (AuthenticationFailed ''invalid_session_token''), d)"
    "dev_mock_login_view j st env lf h data d = (Inl (AuthenticationFailed ''invalid_session_token''), d)"
    by (simp_all add: token_exchange_view_def dev_mock_login_view_def)
qed

text \<open>The same ID token with no session token is exchanged.\<close>

lemma demo_fresh_login:
  "\<exists>r. token_exchange_view demo_jwt (demo_settings True) (demo_env 50 7) demo_forms no_headers
     (JStr ''id'') (demo_db [] [] []) = (Inr r, demo_db [] [] [])"
  by (simp add: token_exchange_view_def oidc_session_authenticate_def no_headers_def demo_forms_def
      verify_id_token_def verified_claims_def demo_jwt_def demo_settings_def claim_of_def claim_text_def
      decoded_def Let_def resolve_or_provision_user_def demo_db_def demo_user_def empty_db_def
      split_beta bind_svc_def then_svc_def)

theorem stale_session_blocks_login_witness:
  "token_exchange_view demo_jwt (demo_settings True) (demo_env 50 7) demo_forms (bearer ''old'')
     (JStr ''id'') (demo_db [] [] []) = (Inl (AuthenticationFailed ''invalid_session_token''), demo_db [] [] [])"
proof -
  have "strip is_space ''old'' = ''old''" by code_simp
  then show ?thesis
    by (intro stale_session_blocks_login(1)[where tok = "''old''"])
      (simp_all add: no_headers_def verify_session_token_def demo_jwt_def)
qed

section \<open>From the login to the deactivation\<close>

lemma autocommit_insert_user:
  assumes "autocommit env (insert_user env u) d = (Inr v, d')"
  shows "v = u \<and> u \<in> set (users d')"
proof -
  have "x = u \<and> u \<in> set (users d1)" if "insert_user env u d0 = (Inr x, d1)" for x d0 d1
    using that by (auto simp: insert_user_def insert_row_def run_stmt_def log_insert_eq ins_row_Inr_iff
        split: option.splits sum.splits)
  then show ?thesis
    using assms unfolding autocommit_def
    by (elim atomic_cases) (auto simp: run_hooks_eq fold_dispatch_eq)
qed

lemma provisioned_is_known:
  assumes "resolve_or_provision_user env email name d = (Inr u, d')"
  shows "u \<in> set (users d') \<and> au_email u = email"
proof -
  have look: "w \<in> set (users x) \<and> au_email w = email"
    if "find (\<lambda>u. au_email u = email) (users x) = Some w" for w x
    using that by (auto simp: find_Some_iff)
  show ?thesis
  proof (cases "find (\<lambda>u. au_email u = email) (users d)")
    case (Some w)
    then show ?thesis using assms look by (auto simp: resolve_or_provision_user_def Let_def)
  next
    case None
    obtain r d1 where ins: "autocommit env (insert_user env (provisioned_user env email name)) d = (r, d1)"
      by fastforce
    show ?thesis
    proof (cases r)
      case (Inr v)
      then show ?thesis
        using assms None ins autocommit_insert_user[of env "provisioned_user env email name" d v d1]
        by (auto simp: resolve_or_provision_user_def Let_def provisioned_user_def)
    next
      case (Inl e)
      then show ?thesis
        using assms None ins look
        by (auto simp: resolve_or_provision_user_def Let_def bind_svc_def split: if_splits option.splits)
    qed
  qed
qed

lemma session_token_authenticates:
  assumes "tables_ok d" "u \<in> set (users d)"
    and "verify_session_token j (strip is_space tok) = Inr (au_id u)"
    and "hd_authorization h = Some (''Bearer '' @ tok)"
  shows "authenticate j st h d =
    (if au_status u = User_deactivated then Inl (AuthenticationFailed ''deactivated_account'')
     else Inr (Some u), d)"
proof -
  have "oidc_session_authenticate j h = known_user (au_id u)"
    using assms(3,4) by (simp add: oidc_session_authenticate_def)
  moreover have "known_user (au_id u) d =
      (if au_status u = User_deactivated then Inl (AuthenticationFailed ''deactivated_account'')
       else Inr (Some u), d)"
    using find_user[OF assms(1,2) refl]
    by (auto simp: known_user_def reject_if_deactivated_def bind_svc_def then_svc_def ensure_def)
  ultimately show ?thesis by (simp add: authenticate_def bind_svc_def)
qed

text \<open>C29: the session token a login returns authenticates, on every endpoint and until the token
  expires, as the one user whose email the identity provider vouched for, whom the login created when
  no user had that email; the only refusal left is that of a deactivated user.  The hypotheses on the
  JWT library are that it reads back the claims it signed (while the token is valid) and that a token
  has no white space at its ends.\<close>

theorem login_roundtrip:
  assumes "token_exchange_view j st env lf h0 data d = (Inr r, d')" "tables_ok d'"
    and "\<And>u. jw_hs256 j (fst (issue_session_token j st env u)) = Some [(''sub'', JStr (uuid_text u)),
        (''iat'', JNum (unix_time env)), (''exp'', JNum (unix_time env + st_session_ttl st))]"
    and "\<And>u. strip is_space (fst (issue_session_token j st env u)) = fst (issue_session_token j st env u)"
    and "\<forall>u \<in> set (users d'). au_id u < 2 ^ 128"
  shows "\<exists>id_token identity u tok. lf_token lf data = Inr id_token \<and>
    verify_id_token j st id_token = Inr identity \<and>
    u \<in> set (users d') \<and> au_email u = vi_email identity \<and>
    re_body r = JObj [(''access_token'', JStr tok), (''token_type'', JStr ''Bearer''),
      (''expires_in'', JNum (st_session_ttl st))] \<and>
    (\<forall>h. hd_authorization h = Some (''Bearer '' @ tok) \<longrightarrow> authenticate j st h d' =
      (if au_status u = User_deactivated then Inl (AuthenticationFailed ''deactivated_account'')
       else Inr (Some u), d'))"
proof -
  obtain x d1 where auth: "oidc_session_authenticate j h0 d = (Inr x, d1)" 
    using assms(1) unfolding token_exchange_view_def by (elim then_svc_cases) auto
  then have d1: "d1 = d" using pure_svcD[OF pure_authenticate(1)] by blast
  obtain id_token where form: "lf_token lf data = Inr id_token"
    using assms(1) auth d1 by (cases "lf_token lf data") (simp_all add: token_exchange_view_def)
  obtain identity where id: "verify_id_token j st id_token = Inr identity"
  proof (cases "verify_id_token j st id_token")
    case (Inl e)
    then show ?thesis using assms(1) auth d1 form by (cases e) (simp_all add: token_exchange_view_def)
  qed (use that in blast)
  obtain u d2 where u: "resolve_or_provision_user env (vi_email identity) (vi_name identity) d = (Inr u, d2)"
    and r: "(case issue_session_token j st env (au_id u) of (access_token, expires_in) \<Rightarrow>
        ret (plain_reply 200 (JObj [(''access_token'', JStr access_token),
                  (''token_type'', JStr ''Bearer''), (''expires_in'', JNum expires_in)]))) d2
          = (Inr r :: exn + reply, d')"
  proof -
    have "bind_svc (resolve_or_provision_user env (vi_email identity) (vi_name identity)) (\<lambda>u.
        let (access_token, expires_in) = issue_session_token j st env (au_id u)
        in ret (plain_reply 200 (JObj [(''access_token'', JStr access_token),
             (''token_type'', JStr ''Bearer''), (''expires_in'', JNum expires_in)]))) d = (Inr r, d')"
      using assms(1) auth d1 form id by (simp add: token_exchange_view_def)
    then show ?thesis
    proof (cases rule: bind_svc_cases)
      case (val u d2)
      from val(1) val(2)[unfolded Let_def] show ?thesis by (rule that)
    qed simp
  qed
  let ?cs = "[(''sub'', JStr (uuid_text (au_id u))), (''iat'', JNum (unix_time env)),
        (''exp'', JNum (unix_time env + st_session_ttl st))]"
  have d': "d' = d2" "re_body r = JObj [(''access_token'', JStr (jw_sign_hs256 j ?cs)),
      (''token_type'', JStr ''Bearer''), (''expires_in'', JNum (st_session_ttl st))]"
    using r by (auto simp: issue_session_token_def plain_reply_def)
  have known: "u \<in> set (users d')" "au_email u = vi_email identity"
    using provisioned_is_known[OF u] d'(1) by simp_all
  have "verify_session_token j (strip is_space (jw_sign_hs256 j ?cs)) = Inr (au_id u)"
    using assms(3)[of "au_id u"] assms(4)[of "au_id u"] assms(5) known
    by (simp add: verify_session_token_def parse_uuid_text issue_session_token_def)
  note as_user = session_token_authenticates[OF assms(2) known(1) this]
  show ?thesis using form id known d'(2) as_user by blast
qed

text \<open>C28: once a deactivation has gone through, every request with a session token of that user, however
  long the token is still valid, is refused by every endpoint behind \<open>KairosAPIView\<close> before its
  throttles and its handler run.\<close>

theorem deactivation_locks_out:
  assumes "healthy env" "tx_ok d" "fk_ok d" "u \<in> set (users d)" "au_id u = dq_target req"
    and "au_status u = User_active" "deactivate_user env req d = (Inr res, d')"
    and "hd_authorization h = Some (''Bearer '' @ tok)"
    and "verify_session_token j (strip is_space tok) = Inr (au_id u)"
  shows "kairos_api_view j st h throttles handler d' = (Inl (AuthenticationFailed ''deactivated_account''), d')"
proof -
  have us: "users d' = map (\<lambda>v. if v = u then deactivated_at (ev_py_now env) u else v) (users d)"
    using deactivate_user_eq[OF assms(1-6)] assms(7) by auto
  have "deactivated_at (ev_py_now env) u \<in> set (users d')" using us assms(4) by auto
  moreover have "tables_ok d'"
    using keepsE[OF safeD1[OF safe_deactivate] assms(2,7)] by (simp add: tx_ok_def)
  ultimately have "authenticate j st h d' = (Inl (AuthenticationFailed ''deactivated_account''), d')"
    using session_token_authenticates[of d' "deactivated_at (ev_py_now env) u" j tok h st] assms(8,9) by simp
  then show ?thesis by (simp add: kairos_api_view_def)
qed


text \<open>A JWT library for the witnesses: a token is the text of its subject.\<close>

definition plain_jwt :: jwt where
  "plain_jwt = demo_jwt\<lparr>
     jw_sign_hs256 := (\<lambda>cs. case map_of cs ''sub'' of Some (JStr s) \<Rightarrow> s | _ \<Rightarrow> ''''),
     jw_hs256 := (\<lambda>t. Some [(''sub'', JStr t), (''iat'', JNum 0), (''exp'', JNum 3600)]) \<rparr>"

lemma plain_jwt_token: "fst (issue_session_token plain_jwt st env u) = uuid_text u"
  by (simp add: issue_session_token_def plain_jwt_def)

lemma uuid_text_bare: "strip is_space (uuid_text u) = uuid_text u"
proof -
  have "\<not> is_space c" if "hex_value c \<noteq> None" for c
    using that not_hex(9)[of c] by (cases "is_space c") simp_all
  moreover have "\<not> is_space CHR ''-''" by code_simp
  ultimately show ?thesis
    using hexed_hex by (intro strip_none) (auto simp: uuid_text_def)
qed

lemma demo_verified: "verify_id_token plain_jwt (demo_settings True) ''id''
    = Inr \<lparr> vi_subject = ''s'', vi_email = ''b'', vi_name = ''Name'' \<rparr>"
proof -
  have j: "jw_unverified plain_jwt ''id'' = Some [(''iss'', JStr MOCK_ISSUER)]"
    "jw_rs256 plain_jwt t k a i = Some [(''sub'', JStr ''s''), (''email'', JStr ''b''), (''name'', JStr ''Name'')]"
    for t k a i
    by (simp_all add: plain_jwt_def demo_jwt_def)
  have "MOCK_ISSUER \<noteq> ''''" by (simp add: MOCK_ISSUER_def)
  then show ?thesis
    by (simp add: verify_id_token_def verified_claims_def j demo_settings_def claim_of_def claim_text_def
        decoded_def)
qed

theorem login_roundtrip_witness:
  "\<exists>tok. authenticate plain_jwt (demo_settings True) (bearer tok) (demo_db [] [] [])
     = (Inr (Some (demo_user 2)), demo_db [] [] [])"
proof -
  let ?d = "demo_db [] [] []" and ?st = "demo_settings True" and ?env = "demo_env 50 7"
  have "\<exists>r. token_exchange_view plain_jwt ?st ?env demo_forms no_headers (JStr ''id'') ?d = (Inr r, ?d)"
    by (simp add: token_exchange_view_def oidc_session_authenticate_def no_headers_def demo_forms_def
      demo_verified resolve_or_provision_user_def demo_db_def demo_user_def empty_db_def
      Let_def split_beta bind_svc_def then_svc_def)
  then obtain r where run: "token_exchange_view plain_jwt ?st ?env demo_forms no_headers (JStr ''id'') ?d
      = (Inr r, ?d)" by blast
  have ok: "tables_ok ?d" by code_simp
  have small: "\<forall>u \<in> set (users ?d). au_id u < 2 ^ 128"
    by (simp add: demo_db_def demo_user_def empty_db_def)
  have claims: "jw_hs256 plain_jwt (fst (issue_session_token plain_jwt ?st ?env u)) = Some
      [(''sub'', JStr (uuid_text u)), (''iat'', JNum (unix_time ?env)),
       (''exp'', JNum (unix_time ?env + st_session_ttl ?st))]" for u
    by (simp add: plain_jwt_token) (simp add: plain_jwt_def unix_time_def demo_env_def demo_settings_def)
  obtain identity u tok where id: "verify_id_token plain_jwt ?st ''id'' = Inr identity"
      "u \<in> set (users ?d)" "au_email u = vi_email identity"
      "\<forall>h. hd_authorization h = Some (''Bearer '' @ tok) \<longrightarrow> authenticate plain_jwt ?st h ?d =
        (if au_status u = User_deactivated then Inl (AuthenticationFailed ''deactivated_account'')
         else Inr (Some u), ?d)"
    using login_roundtrip[OF run ok claims _ small] by (auto simp: plain_jwt_token uuid_text_bare demo_forms_def)
  have "vi_email identity = ''b''" using id(1) by (auto simp: demo_verified)
  then have "u = demo_user 2" using id(2,3) by (auto simp: demo_db_def demo_user_def empty_db_def)
  then show ?thesis using id(4) by (intro exI[of _ tok]) (simp add: no_headers_def demo_user_def)
qed

theorem deactivation_locks_out_witness:
  "\<exists>d'. kairos_api_view plain_jwt (demo_settings False) (bearer (uuid_text 1)) (\<lambda>_. [])
      (\<lambda>u. ret (plain_reply 200 JNull)) d'
     = (Inl (AuthenticationFailed ''deactivated_account''), d') \<and>
     deactivated_at 50 (demo_user 1) \<in> set (users d')"
proof -
  let ?d = "demo_leaving [demo_grant 40 2 7]"
  have u: "demo_user 1 \<in> set (users ?d)" "au_id (demo_user 1) = dq_target demo_leave"
    "au_status (demo_user 1) = User_active"
    by (simp_all add: demo_leaving_def demo_simps demo_leave_def)
  obtain res d' where run: "deactivate_user (demo_env 50 7) demo_leave ?d = (Inr res, d')"
      "users d' = map (\<lambda>v. if v = demo_user 1 then deactivated_at 50 (demo_user 1) else v) (users ?d)"
    using deactivate_user_eq[OF healthy_demo demo_leaving_ok(1,2) u(1,2,3), of 50 7]
    by (auto simp: demo_env_def)
  have "verify_session_token plain_jwt (strip is_space (uuid_text 1)) = Inr (au_id (demo_user 1))"
    by (simp add: uuid_text_bare verify_session_token_def plain_jwt_def parse_uuid_text demo_user_def)
  from deactivation_locks_out[OF healthy_demo demo_leaving_ok(1,2) u run(1) _ this, of "bearer (uuid_text 1)"]
  have "kairos_api_view plain_jwt (demo_settings False) (bearer (uuid_text 1)) (\<lambda>_. [])
      (\<lambda>u. ret (plain_reply 200 JNull)) d' = (Inl (AuthenticationFailed ''deactivated_account''), d')"
    by (simp add: no_headers_def)
  then show ?thesis using run(2) u(1) by auto
qed

end
