(* ===== verification/Api_Properties.thy ===== *)
theory Api_Properties
  imports Resource_Api Waitlist_Api Idempotency_Properties Waitlist_Race
begin

text \<open>
  What the endpoints promise on top of the services: a fresh answer of the create endpoint stands for
  a committed booking that meets the policy, hidden objects are answered like missing ones, the
  availability calendar reveals nothing of other people's bookings, the queue position is the number
  of people ahead, and the limits of replay and of the bookable hours.
\<close>

section \<open>Existence is not revealed\<close>

lemma edit_needs_view: "can_edit_booking u b \<Longrightarrow> can_view_booking u b d"
  and cancel_needs_view: "fst (can_cancel_booking u b d) \<Longrightarrow> can_view_booking u b d"
  by (auto simp: permission_defs split: if_splits)

lemma hidden_booking:
  assumes "\<And>b. find (\<lambda>b. bk_id b = pk) (bookings d) = Some b \<Longrightarrow> \<not> can_view_booking (rq_user rq) b d"
  shows hidden_detail: "detail_view f rq pk d = (Inl NotFoundError, d)"
    and hidden_history: "history_view snapshot rq pk d = (Inl NotFoundError, d)"
    and hidden_edit: "require_idempotency_key rq d = (Inr key, d) \<Longrightarrow> edit_view env f rq pk d = (Inl NotFoundError, d)"
    and hidden_cancel: "require_idempotency_key rq d = (Inr key, d) \<Longrightarrow> cancel_view env f rq pk d = (Inl NotFoundError, d)"
proof -
  show "detail_view f rq pk d = (Inl NotFoundError, d)" "history_view snapshot rq pk d = (Inl NotFoundError, d)"
    using assms by (cases "find (\<lambda>b. bk_id b = pk) (bookings d)";
      simp add: detail_view_def history_view_def)+
  assume key: "require_idempotency_key rq d = (Inr key, d)"
  show "edit_view env f rq pk d = (Inl NotFoundError, d)"
  proof (cases "find (\<lambda>b. bk_id b = pk) (bookings d)")
    case (Some b)
    then have "\<not> can_edit_booking (rq_user rq) b" using assms edit_needs_view by blast
    then show ?thesis using key Some by (simp add: edit_view_def)
  qed (use key in \<open>simp add: edit_view_def\<close>)
  show "cancel_view env f rq pk d = (Inl NotFoundError, d)"
  proof (cases "find (\<lambda>b. bk_id b = pk) (bookings d)")
    case (Some b)
    then have "\<not> fst (can_cancel_booking (rq_user rq) b d)" using assms cancel_needs_view by blast
    then obtain o' where "can_cancel_booking (rq_user rq) b d = (False, o')"
      by (metis (full_types) prod.collapse)
    then show ?thesis using key Some by (simp add: cancel_view_def)
  qed (use key in \<open>simp add: cancel_view_def\<close>)
qed

text \<open>C32: to a user who may not see a booking its identifier is answered exactly like one that does not
  exist, by the detail, the history, the edit and the cancellation alike, and whatever the request
  carries; nothing changes in the database.  The two writes look at their idempotency key first.\<close>

theorem hidden_booking_looks_missing:
  assumes "\<And>b. find (\<lambda>b. bk_id b = pk) (bookings d) = Some b \<Longrightarrow> \<not> can_view_booking (rq_user rq) b d"
  shows "detail_view f rq pk d = (Inl NotFoundError, d) \<and>
    history_view snapshot rq pk d = (Inl NotFoundError, d) \<and>
    (case require_idempotency_key rq d of
       (Inl e, _) \<Rightarrow> edit_view env f rq pk d = (Inl e, d) \<and> cancel_view env f rq pk d = (Inl e, d)
     | (Inr key, _) \<Rightarrow> edit_view env f rq pk d = (Inl NotFoundError, d) \<and>
         cancel_view env f rq pk d = (Inl NotFoundError, d))"
proof -
  obtain k where key: "require_idempotency_key rq d = (k, d)"
    using pure_svcD[OF pure_key] by (metis prod.collapse)
  show ?thesis
    using hidden_booking[of pk d rq, OF assms] key
    by (cases k) (auto simp: edit_view_def cancel_view_def)
qed

section \<open>The availability calendar\<close>

text \<open>A step that does not look at the database at all.\<close>

definition blind_svc :: "'a svc \<Rightarrow> bool" where
  "blind_svc m = (\<exists>v. \<forall>d. m d = (v, d))"

lemma blind_ret: "blind_svc (ret x)" and blind_raise: "blind_svc (raise e)"
  and blind_ensure: "blind_svc (ensure b e)"
  by (auto simp: blind_svc_def ret_def raise_def ensure_def)

lemma blind_bind: "blind_svc m \<Longrightarrow> (\<And>x. blind_svc (f x)) \<Longrightarrow> blind_svc (bind_svc m f)"
proof -
  assume "blind_svc m" and f: "\<And>x. blind_svc (f x)"
  then obtain v where v: "\<forall>d. m d = (v, d)" by (auto simp: blind_svc_def)
  show "blind_svc (bind_svc m f)"
  proof (cases v)
    case (Inl e)
    then have "\<forall>d. bind_svc m f d = (Inl e, d)" using v by (simp add: bind_svc_def)
    then show ?thesis unfolding blind_svc_def by blast
  next
    case (Inr x)
    then have "bind_svc m f = f x" using v by (auto simp: bind_svc_def)
    then show ?thesis using f by simp
  qed
qed

lemma blind_then: "blind_svc m \<Longrightarrow> blind_svc k \<Longrightarrow> blind_svc (then_svc m k)"
  unfolding then_svc_def by (rule blind_bind)

lemma blind_query_window: "blind_svc (query_window bp a c)"
  unfolding query_window_def required_def boundary_def
  by (auto intro!: blind_bind blind_then blind_ret blind_raise blind_ensure split: option.split sum.split)

lemma insert_by_map: "(\<And>a b. le (g a) (g b) = le a b) \<Longrightarrow> insert_by le (g x) (map g xs) = map g (insert_by le x xs)"
  by (induction xs) auto

lemma order_by_map:
  assumes "\<And>a b. le (g a) (g b) = le a b"
  shows "order_by le (map g xs) = map g (order_by le xs)"
  using insert_by_map[of le g] assms by (induction xs) (auto simp: order_by_def)

text \<open>C33: the availability of a resource tells a user the busy times and nothing else of the bookings
  the user does not own (unless privileged) and of every hold: two databases whose bookings differ
  only in the owner, the identifier or the kind of such rows give the same answer.\<close>

theorem availability_reveals_only_busy_times:
  assumes "\<And>b. bk_resource (g b) = bk_resource b \<and> bk_range (g b) = bk_range b \<and>
      active_status (bk_status (g b)) = active_status (bk_status b)"
    and "\<And>b. g b = b \<or> \<not> reveals (rq_user rq) (privileged (rq_user rq) pk d) b \<and>
      \<not> reveals (rq_user rq) (privileged (rq_user rq) pk d) (g b)"
  shows "fst (availability_view bp env rq pk a c (d\<lparr> bookings := map g (bookings d) \<rparr>))
    = fst (availability_view bp env rq pk a c d)"
proof -
  let ?d = "d\<lparr> bookings := map g (bookings d) \<rparr>" and ?u = "rq_user rq"
  have same: "privileged ?u r ?d = privileged ?u r d" "can_view_resource ?u x ?d = can_view_resource ?u x d"
    "display_name ?d = display_name d" "find P (resources ?d) = find P (resources d)" for r x P
    by (simp_all add: privileged_def permission_defs display_name_def fun_eq_iff split: option.split)
  have starts: "bk_starts_at (g b) = bk_starts_at b" for b using assms(1) by (simp add: bk_starts_at_def)
  have rows: "busy_bookings pk s e ?d = map g (busy_bookings pk s e d)" for s e
  proof -
    have "filter (\<lambda>b. bk_resource b = pk \<and> active_status (bk_status b) \<and> overlaps (bk_range b) (TR s e))
        (map g (bookings d)) = map g (filter (\<lambda>b. bk_resource b = pk \<and> active_status (bk_status b) \<and>
          overlaps (bk_range b) (TR s e)) (bookings d))"
      using assms(1) by (simp add: filter_map comp_def)
    then show ?thesis
      unfolding busy_bookings_def by (simp add: order_by_map starts)
  qed
  have block: "busy_block n ?u (privileged ?u pk d) (g b) = busy_block n ?u (privileged ?u pk d) b" for n b
    using assms(1)[of b] assms(2)[of b] by (auto simp: busy_block_def)
  have blocks: "busy_blocks ?u pk s e ?d = busy_blocks ?u pk s e d" for s e
    by (simp add: busy_blocks_def rows same block comp_def)
  show ?thesis
  proof (cases "find (\<lambda>r. rs_id r = pk) (resources d)")
    case None
    then show ?thesis by (simp add: availability_view_def)
  next
    case (Some r)
    then have r: "rs_id r = pk" by (auto simp: find_Some_iff)
    obtain w where w: "\<forall>x. query_window bp a c x = (w, x)"
      using blind_query_window[of bp a c] unfolding blind_svc_def by blast
    show ?thesis
    proof (cases w)
      case (Inl e)
      then show ?thesis using Some r by (cases "can_view_resource ?u r d") (simp_all add: availability_view_def w same)
    next
      case (Inr ft)
      obtain s e where ft: "ft = (s, e)" by (cases ft)
      show ?thesis using Some r Inr ft
        by (cases "can_view_resource ?u r d"; cases "e - s \<le> MAX_AVAILABILITY_QUERY_DAYS * day")
          (simp_all add: availability_view_def w same blocks)
    qed
  qed
qed


section \<open>A fresh answer of the create endpoint\<close>

text \<open>The policy a range has to meet, as a condition.\<close>

definition policy_met :: "env \<Rightarrow> resource \<Rightarrow> instant \<Rightarrow> instant \<Rightarrow> bool" where
  "policy_met env res s e =
     (s < e \<and>
      (case ev_zone env (rs_timezone res) of
         None \<Rightarrow> False
       | Some z \<Rightarrow> rs_bookable_start res \<le> time_of (from_utc z s) \<and>
           time_of (from_utc z e) \<le> rs_bookable_end res) \<and>
      (case rs_max_duration res of None \<Rightarrow> True | Some m \<Rightarrow> e - s \<le> m * minute) \<and>
      ev_py_now env \<le> s \<and> s \<le> ev_py_now env + MAX_ADVANCE_HORIZON_DAYS * day)"

lemma range_policy_iff:
  "validate_range_policy env res s e d = (Inr (), d') \<longleftrightarrow> policy_met env res s e \<and> d' = d"
  by (auto simp: validate_range_policy_def policy_met_def Let_def split: option.splits)

lemma bookable_resource_Inr:
  assumes "bookable_resource u rid d = (Inr res, d')"
  shows "d' = d \<and> rs_id res = rid \<and> res \<in> set (resources d) \<and> rs_status res = Resource_active \<and>
    can_view_resource u res d"
proof (cases "find (\<lambda>r. rs_id r = rid) (resources d)")
  case None
  then show ?thesis using assms by (simp add: bookable_resource_def)
next
  case (Some r)
  then have r: "r \<in> set (resources d)" "rs_id r = rid" by (auto simp: find_Some_iff)
  show ?thesis
    using assms Some r
    by (cases "rs_status r = Resource_active"; cases "can_view_resource u r d")
      (auto simp: bookable_resource_def)
qed

lemma create_serializer_Inr:
  assumes "create_serializer env f u data d = (Inr (res, s, e), d')"
  shows "d' = d \<and> df_slot f data = Inr (rs_id res, s, e) \<and> res \<in> set (resources d) \<and>
    rs_status res = Resource_active \<and> can_view_resource u res d \<and> policy_met env res s e"
proof -
  obtain rid s0 e0 where f: "df_slot f data = Inr (rid, s0, e0)"
    using assms by (cases "df_slot f data") (auto simp: create_serializer_def)
  then have "bind_svc (bookable_resource u rid) (\<lambda>res.
       then_svc (validate_range_policy env res s0 e0) (ret (res, s0, e0))) d = (Inr (res, s, e), d')"
    using assms by (simp add: create_serializer_def)
  then show ?thesis
  proof (cases rule: bind_svc_cases)
    case (val res0 d1)
    from val(2) show ?thesis
    proof (cases rule: then_svc_cases)
      case v: (val u2 d2)
      then show ?thesis
        using bookable_resource_Inr[OF val(1)] range_policy_iff[of env res0 s0 e0 d1 d2] f by auto
    qed simp
  qed simp
qed

lemma create_booking_commits:
  assumes "create_booking env req d = (Inr b, d')" "in_tx d"
  shows "b \<in> set (bookings d') \<and> b = created env req"
proof -
  have "atomic env (create_booking_tx env req) d = (Inr b, d')"
    using assms(1) unfolding create_booking_def translating_def by (auto simp: catch_svc_def split: prod.splits sum.splits)
  then have "create_booking_tx env req d = (Inr b, d')"
    using assms(2) by (cases rule: atomic_cases) auto
  then obtain d1 r d2 where steps: "sql_range (cq_start req) (cq_end req) d1 = (Inr r, d1)"
      "insert_booking env (new_booking env req r) d2 = (Inr b, d')"
    unfolding create_booking_tx_def
    by (auto elim!: then_svc_cases bind_svc_cases simp: sql_range_def split: sum.splits)
  then have "r = TR (cq_start req) (cq_end req)"
    by (auto simp: sql_range_def mk_range_def split: sum.splits if_splits)
  then show ?thesis
    using bkt.insert_Inr[OF steps(2)[unfolded insert_booking_def]] by (auto simp: created_def log_eqs)
qed

lemma replay_is_marked: "replay_or_conflict env req d = (Inr res, d') \<Longrightarrow> ir_is_replay res"
  by (auto simp: replay_or_conflict_def bind_svc_def get_row_def stored_result_def
      split: option.splits if_splits)

text \<open>A fresh answer of a protected write comes from a committed transaction that ran the write.\<close>

lemma fresh_run_commits:
  assumes "run_idempotent_write env req w d = (Inr res, d')" "\<not> ir_is_replay res" "idle d"
  obtains d1 d2 where "in_tx d1" "w d1 = (Inr (ir_status res, ir_body res), d2)" "bookings d' = bookings d2"
    "entries d' = entries d2" "offers d' = offers d2"
  using assms(1,3)
proof (cases rule: run_cases)
  case (fresh st b)
  from fresh(1) show ?thesis
  proof (cases rule: atomic_cases)
    case (commit x d3)
    then have "protected_write env req w (begin_tx d) = (Inr (st, b), d3)" by (simp add: begin_tx_def)
    then obtain d1 d2 where c: "claim_key env req (iq_reason req) (begin_tx d) = (Inr (), d1)"
      and w: "w d1 = (Inr (st, b), d2)" and u: "then_svc (complete_key env req st b) (ret (st, b)) d2 = (Inr (st, b), d3)"
      unfolding protected_write_def by (elim then_svc_cases bind_svc_cases) (auto elim!: then_svc_cases)
    from u obtain n where "complete_key env req st b d2 = (Inr n, d3)" by (auto elim!: then_svc_cases)
    then have "bookings d3 = bookings d2" "entries d3 = entries d2" "offers d3 = offers d2"
      using ikt.update_Inr(2) unfolding complete_key_def update_keys_def by (fastforce simp: log_eqs)+
    moreover have "in_tx d1" using claim_key_Inr(2)[OF c] by simp
    ultimately show ?thesis using that[of d1 d2] w fresh(2) commit(6) by (simp add: run_hooks_eq)
  qed (use assms(3) in \<open>auto simp: idle_def\<close>)
next
  case (db s)
  then show ?thesis using assms(2) claim_failed_Inr replay_is_marked by metis
next
  case (recorded e)
  then show ?thesis by (auto elim!: then_svc_cases)
qed simp

lemma safe_create_view: "safe (create_view env f rq)"
  unfolding create_view_def
  by (intro safe_bind safe_pure[OF pure_key] safe_pure[OF pure_dict] safe_pure[OF pure_booking_serializers(2)])
    (auto intro!: safe_bind safe_pure[OF pure_dict] safe_answer_write inv_intros safeD1[OF safe_booking_services(1)]
      split: prod.split)



section \<open>Limits of replay\<close>

lemma idle_after_run:
  assumes "run_idempotent_write env req w d = (Inr res, d1)" "idle d"
  shows "idle d1"
  using assms
proof (cases rule: run_cases)
  case (fresh st b)
  then show ?thesis using atomic_idle[OF assms(2)] by blast
next
  case (db s)
  then show ?thesis using claim_failed_Inr replay_Inr assms(2) by metis
next
  case (recorded e)
  then show ?thesis by (auto elim!: then_svc_cases)
qed simp

lemma keys_waitlist_stmts:
  "keeps (\<lambda>d :: db. keys d = ks) (update_offers env P f)"
  "keeps (\<lambda>d :: db. keys d = ks) (update_entries env Q g)"
  by (auto simp: keeps_def stmt_defs update_rows_def run_stmt_def split: option.splits sum.splits)

lemma keeps_keys_accept: "keeps_keys (accept_offer env freq)"
  unfolding accept_offer_def by (intro keeps_keys_keeps inv_intros keys_atomic keys_stmts keys_waitlist_stmts)

text \<open>The validation of a request runs before its idempotency key is looked up.  A create that
  succeeded and whose recorded answer is still under the key is not replayed once its start has
  passed: the retry is refused with a validation error, although the recorded answer is there and the
  protected write would return it.\<close>

theorem late_retry_is_refused:
  assumes "require_idempotency_key rq d = (Inr key, d)" "df_slot f (rq_data rq) = Inr (rs_id res, s, e)"
    and "bookable_resource (rq_user rq) (rs_id res) d = (Inr res, d)"
    and "policy_met env0 res s e" "ev_zone env = ev_zone env0" "s < ev_py_now env"
    and "healthy env" "idle d" "rq_data rq = JObj ps"
    and "find (owns_key (write_request_of rq key ''POST /api/v1/bookings'' (JObj ps) Actor_user None)) (keys d) = Some k"
    and "ik_body_hash k = compute_request_fingerprint env (JObj ps)"
    and "ik_response_status k = Some st" "ik_response_body k = Some b"
  shows "create_view env f rq d = (Inl (PolicyValidationError ''start'' ''must not be in the past''), d)"
    and "answer_write env (write_request_of rq key ''POST /api/v1/bookings'' (JObj ps) Actor_user None) w d
      = (Inr \<lparr> re_status = st, re_body = b, re_replay = True \<rparr>, d)"
proof -
  have "validate_range_policy env res s e d = (Inl (PolicyValidationError ''start'' ''must not be in the past''), d)"
    using assms(4-6) by (auto simp: policy_met_def validate_range_policy_def Let_def split: option.splits)
  then have "create_serializer env f (rq_user rq) (rq_data rq) d
      = (Inl (PolicyValidationError ''start'' ''must not be in the past''), d)"
    using assms(2,3) by (simp add: create_serializer_def)
  then show "create_view env f rq d = (Inl (PolicyValidationError ''start'' ''must not be in the past''), d)"
    using assms(1) by (simp add: create_view_def)
  let ?wr = "write_request_of rq key ''POST /api/v1/bookings'' (JObj ps) Actor_user None"
  have "ik_body_hash k = compute_request_fingerprint env (iq_body ?wr)"
    using assms(11) by (simp add: write_request_of_def)
  from claim_blocks_write[OF assms(7,10,8)] replay_stored[OF assms(10) this assms(12,13)]
  show "answer_write env ?wr w d = (Inr \<lparr> re_status = st, re_body = b, re_replay = True \<rparr>, d)"
    by (simp add: answer_write_def to_reply_def)
qed

text \<open>The fingerprint of a request leaves out its endpoint, and the confirmation and the decline of
  an offer fingerprint the same body: after a confirmation, a decline of that offer under the same key is
  answered with the recorded confirmation, marked as a replay, and declines nothing.\<close>

theorem decline_under_the_confirm_key_replays:
  assumes "confirm_offer_view env f rq pk d = (Inr r, d')" "idle d" "rq_data rq = JObj ps"
    and "get_offer_for_owner pk (rq_user rq) d' = (Inr offer', d')"
    and "healthy env'" "ev_sha256 env' = ev_sha256 env"
  shows "decline_offer_view env' f rq pk d' = (Inr (r\<lparr> re_replay := True \<rparr>), d')"
proof -
  obtain key where key: "require_idempotency_key rq d = (Inr key, d)" 
    using assms(1) unfolding confirm_offer_view_def offer_write_def
    by (cases rule: pure_bind_cases) (auto intro: pure_intros)
  have key': "require_idempotency_key rq d' = (Inr key, d')"
    using key by (auto simp: require_idempotency_key_def split: option.splits if_splits)
  obtain offer where offer: "get_offer_for_owner pk (rq_user rq) d = (Inr offer, d)"
    using assms(1) key unfolding confirm_offer_view_def offer_write_def
    by (cases "get_offer_for_owner pk (rq_user rq) d") (auto simp: bind_svc_def pure_waitlist_reads
        dest: pure_svcD[OF pure_waitlist_reads(2)] split: sum.splits)
  let ?body = "with_id ''offer_id'' pk ps"
  let ?wr = "\<lambda>v. write_request_of rq key (''POST /api/v1/waitlist-offers/'' @ uuid_text pk @ v) ?body Actor_user None"
  obtain perform result where
    run: "run_idempotent_write env (?wr ''/confirm'') perform d = (Inr result, d')"
    and r: "r = to_reply result" and ks: "keeps_keys perform"
  proof -
    have "answer_write env (?wr ''/confirm'') (bind_svc (accept_offer env (offer_request_of rq offer)) (\<lambda>b.
       ret (201, JObj (put ''waitlist_offer_id'' (JStr (uuid_text (wo_id offer))) (booking_fields f b))))) d
        = (Inr r, d')"
      using assms(1,3) key offer by (simp add: confirm_offer_view_def offer_write_def dict_of_data_def)
    then show ?thesis
      by (auto simp: answer_write_def elim!: bind_svc_cases intro!: that keeps_keys_bind_ret keeps_keys_accept)
  qed
  obtain k where k: "find (owns_key (?wr ''/confirm'')) (keys d') = Some k"
     "ik_body_hash k = compute_request_fingerprint env ?body"
     "ik_response_status k = Some (ir_status result)" "ik_response_body k = Some (ir_body result)"
    using run_Inr_stored[OF run assms(2) ks] by (auto simp: write_request_of_def)
  have own: "owns_key (?wr ''/decline'') = owns_key (?wr ''/confirm'')"
    by (simp add: owns_key_def write_request_of_def fun_eq_iff)
  have k': "find (owns_key (?wr ''/decline'')) (keys d') = Some k"
    "ik_body_hash k = compute_request_fingerprint env' (iq_body (?wr ''/decline''))"
    using k(1,2) own fingerprint_cong[OF assms(6)] by (simp_all add: write_request_of_def)
  have "run_idempotent_write env' (?wr ''/decline'') w d'
      = (Inr \<lparr> ir_status = ir_status result, ir_body = ir_body result, ir_is_replay = True \<rparr>, d')" for w
    using claim_blocks_write[OF assms(5) k'(1) idle_after_run[OF run assms(2)]] replay_stored[OF k' k(3,4)] by simp
  then show ?thesis
    using assms(3,4) key' r
    by (simp add: decline_offer_view_def offer_write_def dict_of_data_def answer_write_def to_reply_def)
qed

section \<open>Bookable hours\<close>

lemma time_of_days: "time_of (w + int n * day) = time_of w"
proof -
  have "w + int n * day = w + day * int n" by simp
  then show ?thesis unfolding time_of_def by (simp only: mod_mult_self2)
qed

text \<open>The bookable hours are compared with the times of day of the two ends only: in a zone
  without transitions, a range that is accepted stays accepted when its end moves any number of
  whole days later, so it may cover every closed night in between.\<close>

theorem hours_check_ignores_the_days:
  assumes "validate_range_policy env res s e d = (Inr (), d)" "rs_max_duration res = None"
    and "ev_zone env (rs_timezone res) = Some z" "zn_transitions z = []"
  shows "validate_range_policy env res s (e + int n * day) d = (Inr (), d)"
proof -
  have "from_utc z (e + int n * day) = from_utc z e + int n * day"
    using assms(4) by (simp add: from_utc_def)
  then have "time_of (from_utc z (e + int n * day)) = time_of (from_utc z e)" by (simp only: time_of_days)
  moreover have "0 \<le> int n * day" by simp
  ultimately show ?thesis
    using assms unfolding range_policy_iff policy_met_def by auto
qed


section \<open>Examples\<close>

definition demo_drf :: drf where
  "demo_drf = \<lparr> df_time = iso_z, df_clock = iso_time, df_slot = (\<lambda>_. Inr (10, 100, 200)),
     df_range = (\<lambda>_. Inr (100, 200)), df_reason = (\<lambda>_. Inr None), df_required_reason = (\<lambda>_. Inr ''left''),
     df_preview = (\<lambda>_. Inl JNull), df_confirm = (\<lambda>_. Inl JNull), df_user_id = (\<lambda>_. Inl JNull) \<rparr>"

definition demo_request :: "uuid \<Rightarrow> request" where
  "demo_request u = \<lparr> rq_user = demo_user u, rq_key_header = Some ''00000000-0000-0000-0000-000000000028'',
     rq_request_id = ''r1'', rq_data = JObj [] \<rparr>"

lemma demo_key: "require_idempotency_key (demo_request u) d = (Inr 40, d)"
proof -
  have "parse_uuid ''00000000-0000-0000-0000-000000000028'' = Some 40" by code_simp
  then show ?thesis by (simp add: require_idempotency_key_def demo_request_def)
qed

theorem hidden_booking_looks_missing_witness:
  "let d = demo_db [demo_booking 5 2 (TR 100 150) Confirmed None] [] []; rq = demo_request 1
   in detail_view demo_drf rq 5 d = (Inl NotFoundError, d) \<and>
     edit_view (demo_env 50 7) demo_drf rq 5 d = (Inl NotFoundError, d)"
  using hidden_booking_looks_missing[of 5 "demo_db [demo_booking 5 2 (TR 100 150) Confirmed None] [] []"
      "demo_request 1" demo_drf _ "demo_env 50 7"] demo_key[of 1]
  by (auto simp: Let_def demo_defs permission_defs demo_request_def)

definition swap_owner :: "booking \<Rightarrow> booking" where
  "swap_owner b = (if bk_user b = 2 then b\<lparr> bk_user := 3 \<rparr> else b)"

theorem availability_reveals_only_busy_times_witness:
  "let d = demo_db [demo_booking 5 2 (TR 100 150) Confirmed None] [] []
   in bookings d \<noteq> map swap_owner (bookings d) \<and>
     (\<forall>bp a c. fst (availability_view bp (demo_env 50 7) (demo_request 1) 10 a c (d\<lparr> bookings := map swap_owner (bookings d) \<rparr>))
       = fst (availability_view bp (demo_env 50 7) (demo_request 1) 10 a c d))"
proof -
  let ?d = "demo_db [demo_booking 5 2 (TR 100 150) Confirmed None] [] []"
  have "\<not> privileged (demo_user 1) 10 ?d" by code_simp
  then have "fst (availability_view bp (demo_env 50 7) (demo_request 1) 10 a c (?d\<lparr> bookings := map swap_owner (bookings ?d) \<rparr>))
       = fst (availability_view bp (demo_env 50 7) (demo_request 1) 10 a c ?d)" for bp a c
    by (intro availability_reveals_only_busy_times)
      (auto simp: swap_owner_def reveals_def demo_request_def demo_user_def)
  moreover have "bookings ?d \<noteq> map swap_owner (bookings ?d)" by (simp add: demo_defs swap_owner_def)
  ultimately show ?thesis by simp
qed

abbreviation demo_create :: create_request where
  "demo_create \<equiv> \<lparr> cq_resource = 10, cq_user = 1, cq_start = 100, cq_end = 200, cq_request_id = ''r1'',
     cq_series = None, cq_actor_type = Actor_user, cq_status = Confirmed \<rparr>"

lemma demo_create_run:
  "\<not> (case fst (answer_write (demo_env 50 7)
        (write_request_of (demo_request 1) 40 ''POST /api/v1/bookings'' (JObj []) Actor_user None)
        (bind_svc (create_booking (demo_env 50 7) demo_create) (\<lambda>b. ret (201, g b))) (demo_db [] [] []))
     of Inl _ \<Rightarrow> True | Inr r \<Rightarrow> re_replay r)"
  by code_simp

lemma demo_create_serializer:
  "create_serializer (demo_env 50 7) demo_drf (demo_user 1) (JObj []) (demo_db [] [] [])
    = (Inr (demo_room, 100, 200), demo_db [] [] [])"
  by code_simp


definition demo_answered :: db where
  "demo_answered = (demo_db [] [] [])\<lparr> keys := [completed_with (demo_env 50 7) 201 (JObj [])
     (claimed_key (demo_env 50 7) (write_request_of (demo_request 1) 40 ''POST /api/v1/bookings'' (JObj []) Actor_user None))] \<rparr>"

theorem late_retry_is_refused_witness:
  "create_view (demo_env 150 8) demo_drf (demo_request 1) demo_answered
    = (Inl (PolicyValidationError ''start'' ''must not be in the past''), demo_answered)"
proof (rule late_retry_is_refused(1)[OF demo_key])
  show "df_slot demo_drf (rq_data (demo_request 1)) = Inr (rs_id demo_room, 100, 200)"
    by (simp add: demo_drf_def demo_room_def)
  show "bookable_resource (rq_user (demo_request 1)) (rs_id demo_room) demo_answered = (Inr demo_room, demo_answered)"
    by (simp add: bookable_resource_def demo_answered_def demo_request_def demo_defs permission_defs)
  show "policy_met (demo_env 50 7) demo_room 100 200" by code_simp
  show "find (owns_key (write_request_of (demo_request 1) 40 ''POST /api/v1/bookings'' (JObj []) Actor_user None))
      (keys demo_answered) = Some (completed_with (demo_env 50 7) 201 (JObj [])
     (claimed_key (demo_env 50 7) (write_request_of (demo_request 1) 40 ''POST /api/v1/bookings'' (JObj []) Actor_user None)))"
    by (simp add: demo_answered_def)
qed (simp_all add: demo_env_def healthy_demo idle_def demo_answered_def demo_db_def empty_db_def demo_request_def
      completed_with_def claimed_key_def write_request_of_def compute_request_fingerprint_def healthy_def)

theorem hours_check_ignores_the_days_witness:
  "validate_range_policy (demo_env 50 7) demo_room 100 (200 + int 3 * day) (demo_db [] [] [])
    = (Inr (), demo_db [] [] [])"
proof (rule hours_check_ignores_the_days[where z = "\<lparr> zn_before = 0, zn_transitions = [] \<rparr>"])
  have "policy_met (demo_env 50 7) demo_room 100 200" by code_simp
  then show "validate_range_policy (demo_env 50 7) demo_room 100 200 (demo_db [] [] []) = (Inr (), demo_db [] [] [])"
    by (simp add: range_policy_iff)
qed (simp_all add: demo_env_def demo_room_def)


lemma demo_confirm_run:
  "case answer_write (demo_env 899 7) (write_request_of (demo_request 1) 40 ep body Actor_user None)
      (bind_svc (accept_offer (demo_env 899 7) (offer_request_of (demo_request 1)
          (demo_offer 30 20 5 (TR 100 150) Offer_active 900))) (\<lambda>b. ret (201, g b))) demo_pledged of
     (Inl e, d') \<Rightarrow> False
   | (Inr r, d') \<Rightarrow> fst (get_offer_for_owner 30 (demo_user 1) d')
       = Inr ((demo_offer 30 20 5 (TR 100 150) Offer_active 900)\<lparr> wo_status := Offer_confirmed \<rparr>)"
  by code_simp

theorem decline_under_the_confirm_key_replays_witness:
  "\<exists>r d'. confirm_offer_view (demo_env 899 7) demo_drf (demo_request 1) 30 demo_pledged = (Inr r, d') \<and>
     decline_offer_view (demo_env 900 8) demo_drf (demo_request 1) 30 d' = (Inr (r\<lparr> re_replay := True \<rparr>), d')"
proof -
  let ?offer = "demo_offer 30 20 5 (TR 100 150) Offer_active 900" and ?rq = "demo_request 1"
  have "get_offer_for_owner 30 (demo_user 1) demo_pledged = (Inr ?offer, demo_pledged)" by code_simp
  then have run: "confirm_offer_view (demo_env 899 7) demo_drf ?rq 30 demo_pledged = answer_write (demo_env 899 7)
      (write_request_of ?rq 40 (''POST /api/v1/waitlist-offers/'' @ uuid_text 30 @ ''/confirm'')
         (with_id ''offer_id'' 30 []) Actor_user None)
      (bind_svc (accept_offer (demo_env 899 7) (offer_request_of ?rq ?offer)) (\<lambda>b.
         ret (201, JObj (put ''waitlist_offer_id'' (JStr (uuid_text 30)) (booking_fields demo_drf b))))) demo_pledged"
    using demo_key[of 1] by (simp add: confirm_offer_view_def offer_write_def dict_of_data_def demo_offer_def)
      (simp add: demo_request_def dict_of_data_def)
  obtain r d' where ran: "confirm_offer_view (demo_env 899 7) demo_drf ?rq 30 demo_pledged = (Inr r, d')"
    and "fst (get_offer_for_owner 30 (demo_user 1) d') = Inr (?offer\<lparr> wo_status := Offer_confirmed \<rparr>)"
    using demo_confirm_run[where ep = "''POST /api/v1/waitlist-offers/'' @ uuid_text 30 @ ''/confirm''"
        and body = "with_id ''offer_id'' 30 []" and
        g = "\<lambda>b. JObj (put ''waitlist_offer_id'' (JStr (uuid_text 30)) (booking_fields demo_drf b))"]
    unfolding run[symmetric] by (auto split: prod.splits sum.splits)
  then have own: "get_offer_for_owner 30 (demo_user 1) d' = (Inr (?offer\<lparr> wo_status := Offer_confirmed \<rparr>), d')"
    using pure_waitlist_reads(2) by (auto simp: pure_svc_def prod_eq_iff)
  have "idle demo_pledged" by (rule demo_pledged_ok(2))
  moreover have "rq_data ?rq = JObj []" "rq_user ?rq = demo_user 1" by (simp_all add: demo_request_def)
  moreover have "ev_sha256 (demo_env 900 8) = ev_sha256 (demo_env 899 7)" by (simp add: demo_env_def)
  ultimately have "decline_offer_view (demo_env 900 8) demo_drf ?rq 30 d' = (Inr (r\<lparr> re_replay := True \<rparr>), d')"
    using decline_under_the_confirm_key_replays[OF ran _ _ _ healthy_demo] own by simp
  then show ?thesis using ran by blast
qed

section \<open>Queue positions\<close>

lemma map_of_zip_positions:
  assumes "distinct (map f ws)" "i < length ws"
  shows "map_of (zip (map f ws) [1 ..< length ws + 1]) (f (ws ! i)) = Some (i + 1)"
proof -
  have "zip (map f ws) [1 ..< length ws + 1] ! i = (f (ws ! i), i + 1)"
    using assms(2) by (simp del: upt_Suc)
  then have "(f (ws ! i), i + 1) \<in> set (zip (map f ws) [1 ..< length ws + 1])"
    using assms(2) by (metis (no_types, lifting) diff_add_inverse2 length_map length_upt length_zip min.idem nth_mem)
  moreover have "distinct (map fst (zip (map f ws) [1 ..< length ws + 1]))" using assms(1) by simp
  ultimately show ?thesis by (simp add: map_of_eq_Some_iff)
qed

lemma map_of_concat:
  assumes "r \<in> set rs" "map_of (h r) k = Some v" "\<And>r'. r' \<in> set rs \<Longrightarrow> r' \<noteq> r \<Longrightarrow> map_of (h r') k = None"
  shows "map_of (concat (map h rs)) k = Some v"
  using assms
proof (induction rs)
  case (Cons q qs)
  show ?case
  proof (cases "q = r")
    case True
    then show ?thesis using Cons.prems(2) by (simp add: map_add_def)
  next
    case False
    then show ?thesis using Cons by (simp add: map_add_def split: option.split)
  qed
qed simp

lemma ahead_of_nth:
  assumes "sorted_wrt lt ws" "distinct ws" "i < length ws" "\<And>a b. lt a b \<Longrightarrow> \<not> lt b a" 
  shows "{v \<in> set ws. lt v (ws ! i)} = set (take i ws)"
proof (intro set_eqI iffI)
  fix v assume "v \<in> {v \<in> set ws. lt v (ws ! i)}"
  then obtain j where j: "j < length ws" "v = ws ! j" "lt (ws ! j) (ws ! i)" by (auto simp: in_set_conv_nth)
  have "j < i"
  proof (rule ccontr)
    assume "\<not> j < i"
    then have "i < j \<or> i = j" by auto
    then show False using j assms(1,4) by (auto simp: sorted_wrt_iff_nth_less)
  qed
  then show "v \<in> set (take i ws)" using j by (auto simp: in_set_conv_nth)
next
  fix v assume "v \<in> set (take i ws)"
  then obtain j where "j < i" "v = ws ! j" using assms(3) by (auto simp: in_set_conv_nth)
  then show "v \<in> {v \<in> set ws. lt v (ws ! i)}" using assms(1,3) by (auto simp: sorted_wrt_iff_nth_less)
qed

text \<open>Strictly ahead in the queue: joined earlier, or at the same instant with the smaller identifier.\<close>

definition ahead :: "waitlist_entry \<Rightarrow> waitlist_entry \<Rightarrow> bool" where
  "ahead a b = (we_joined_at a < we_joined_at b \<or> (we_joined_at a = we_joined_at b \<and> we_id a < we_id b))"

lemma waiting_queue_sorted:
  assumes "distinct (map we_id (entries d))"
  shows "sorted_wrt ahead (waiting_queue res d)" "distinct (map we_id (waiting_queue res d))"
    "set (waiting_queue res d) = {v \<in> set (entries d). we_resource v = res \<and> we_status v = Waiting}"
proof -
  let ?ws = "filter (\<lambda>w. we_resource w = res \<and> we_status w = Waiting) (entries d)"
  show ids: "distinct (map we_id (waiting_queue res d))"
    using assms distinct_map_filter[of we_id "entries d"]
    unfolding waiting_queue_def by (metis mset_order_by mset_eq_imp_distinct_iff mset_map)
  have "sorted_wrt entry_before (waiting_queue res d)"
    unfolding waiting_queue_def by (rule sorted_order_by) (auto simp: entry_before_def)
  then have "ahead (waiting_queue res d ! i) (waiting_queue res d ! j)"
    if "i < j" "j < length (waiting_queue res d)" for i j
  proof -
    have "entry_before (waiting_queue res d ! i) (waiting_queue res d ! j)"
      using \<open>sorted_wrt entry_before (waiting_queue res d)\<close> that by (simp add: sorted_wrt_iff_nth_less)
    moreover have "we_id (waiting_queue res d ! i) \<noteq> we_id (waiting_queue res d ! j)"
      using nth_eq_iff_index_eq[OF ids, of i j] that by simp
    ultimately show ?thesis by (auto simp: entry_before_def ahead_def)
  qed
  then show "sorted_wrt ahead (waiting_queue res d)" by (simp add: sorted_wrt_iff_nth_less)
  show "set (waiting_queue res d) = {v \<in> set (entries d). we_resource v = res \<and> we_status v = Waiting}"
    by (auto simp: waiting_queue_def)
qed

text \<open>C24: the queue position shown for a waiting entry is one more than the number of waiting entries of
  the same resource that are ahead of it, whatever else is on the page.\<close>

theorem queue_position_counts_those_ahead:
  assumes "distinct (map we_id (entries d))" "set page \<subseteq> set (entries d)" "w \<in> set page" "we_status w = Waiting"
  shows "queue_positions page d (we_id w) = Some (card {v \<in> set (entries d).
    we_resource v = we_resource w \<and> we_status v = Waiting \<and> ahead v w} + 1)"
proof -
  let ?q = "\<lambda>res. waiting_queue res d" and ?h = "\<lambda>res. zip (map we_id (waiting_queue res d)) [1 ..< length (waiting_queue res d) + 1]"
  note q = waiting_queue_sorted[OF assms(1)]
  have asym: "\<not> ahead b a" if "ahead a b" for a b using that by (auto simp: ahead_def)
  have w: "w \<in> set (?q (we_resource w))" unfolding q(3) using assms(2-4) by blast
  then obtain i where i: "i < length (?q (we_resource w))" "?q (we_resource w) ! i = w"
    unfolding in_set_conv_nth by blast
  have dq: "distinct (?q (we_resource w))" using q(2) by (simp add: distinct_map)
  have "{v \<in> set (?q (we_resource w)). ahead v w} = set (take i (?q (we_resource w)))"
    by (rule ahead_of_nth[OF q(1) dq i(1) asym, unfolded i(2)])
  moreover have "{v \<in> set (?q (we_resource w)). ahead v w} = {v \<in> set (entries d).
      we_resource v = we_resource w \<and> we_status v = Waiting \<and> ahead v w}"
    unfolding q(3) by blast
  ultimately have "card {v \<in> set (entries d). we_resource v = we_resource w \<and> we_status v = Waiting \<and> ahead v w} = i"
    using distinct_card[OF distinct_take[OF dq, of i]] i(1) by simp
  then have count: "card {v \<in> set (entries d). we_resource v = we_resource w \<and> we_status v = Waiting \<and> ahead v w} + 1 = i + 1"
    by simp
  have here: "map_of (?h (we_resource w)) (we_id w) = Some (i + 1)"
    using map_of_zip_positions[OF q(2) i(1)] i(2) by simp
  have elsewhere: "map_of (?h res) (we_id w) = None" if "res \<noteq> we_resource w" for res
  proof -
    have "we_id w \<notin> we_id ` set (?q res)"
    proof
      assume "we_id w \<in> we_id ` set (?q res)"
      then obtain v where "v \<in> set (entries d)" "we_resource v = res" "we_id v = we_id w" using q(3) by auto
      then have "v = w" using assms(1-3) by (auto simp: distinct_map inj_on_def)
      then show False using \<open>we_resource v = res\<close> that by simp
    qed
    then show ?thesis by (auto simp: map_of_eq_None_iff dest!: set_zip_leftD simp del: upt_Suc)
  qed
  have "we_resource w \<in> set (remdups (map we_resource (filter (\<lambda>w. we_status w = Waiting) page)))"
    using assms(3,4) by auto
  from map_of_concat[where h = ?h, OF this here elsewhere] show ?thesis
    unfolding queue_positions_def count by simp
qed

theorem queue_position_counts_those_ahead_witness:
  "queue_positions [demo_entry 21 2 (TR 1 2) Waiting 9]
     (demo_db [] [demo_entry 21 2 (TR 1 2) Waiting 9, demo_entry 20 1 (TR 1 2) Waiting 8] []) 21 = Some 2"
proof -
  let ?d = "demo_db [] [demo_entry 21 2 (TR 1 2) Waiting 9, demo_entry 20 1 (TR 1 2) Waiting 8] []"
  have "{v \<in> set (entries ?d). we_resource v = 10 \<and> we_status v = Waiting \<and> ahead v (demo_entry 21 2 (TR 1 2) Waiting 9)}
      = {demo_entry 20 1 (TR 1 2) Waiting 8}"
    by (auto simp: demo_defs ahead_def)
  then show ?thesis
    using queue_position_counts_those_ahead[of ?d "[demo_entry 21 2 (TR 1 2) Waiting 9]" "demo_entry 21 2 (TR 1 2) Waiting 9"]
    by (simp add: demo_defs)
qed

end
