(* ===== verification/Waitlist_Termination.thy ===== *)
theory Waitlist_Termination
  imports Waitlist_Properties
begin

text \<open>
  The offers of a freed range come to an end.  An offer that is declined, or whose hold expires, frees
  its range again and starts the next cascade; the number of waiting entries bounds how often: a
  cascade that makes an offer takes one entry out of the queue, and nothing that can become of the
  offer puts one back.
\<close>

definition waiting :: "waitlist_entry list \<Rightarrow> nat" where
  "waiting es = count_if (\<lambda>w. we_status w = Waiting) es"

lemma waiting_updated:
  assumes "\<And>w. we_status (f w) \<noteq> Waiting"
  shows "waiting (updated P f es) \<le> waiting es"
  using assms by (induction es) (auto simp: waiting_def updated_def)

lemma waiting_updated_less:
  assumes "\<And>w. we_status (f w) \<noteq> Waiting" "w \<in> set es" "P w" "we_status w = Waiting"
  shows "waiting (updated P f es) < waiting es"
  using assms(2)
proof (induction es)
  case (Cons x xs)
  show ?case
  proof (cases "x = w")
    case True
    then show ?thesis using assms(1,3,4) waiting_updated[of f P xs] by (auto simp: waiting_def updated_def)
  next
    case False
    then show ?thesis using Cons assms(1) by (auto simp: waiting_def updated_def)
  qed
qed simp

section \<open>What the calls do to the entries\<close>

lemma entries_log [simp]:
  "entries (log_insert env ent r d) = entries d" "entries (log_update env ent f rs d) = entries d"
  "entries (log_delete env ent rs d) = entries d"
  by (simp_all add: log_eqs)

lemma entries_atomic:
  assumes "keeps (\<lambda>d :: db. Q (entries d)) m"
  shows "keeps (\<lambda>d :: db. Q (entries d)) (atomic env m)"
proof
  fix d :: db assume d: "Q (entries d)"
  obtain r d' where run: "atomic env m d = (r, d')" by (cases "atomic env m d")
  then have "Q (entries d')"
  proof (cases rule: atomic_cases)
    case (savepoint x)
    then show ?thesis using keepsE[OF assms d savepoint(2)] by simp
  next
    case (commit x d1)
    then show ?thesis using keepsE[OF assms _ commit(2)] d by (simp add: run_hooks_eq)
  qed (use d in simp)
  then show "Q (entries (snd (atomic env m d)))" using run by simp
qed

lemma entries_stmts:
  "keeps (\<lambda>d :: db. Q (entries d)) (insert_booking env b)"
  "keeps (\<lambda>d :: db. Q (entries d)) (update_bookings env P f)"
  "keeps (\<lambda>d :: db. Q (entries d)) (delete_bookings env P)"
  "keeps (\<lambda>d :: db. Q (entries d)) (insert_offer env w)"
  "keeps (\<lambda>d :: db. Q (entries d)) (update_offers env R g)"
  "keeps (\<lambda>d :: db. Q (entries d)) (insert_check env c)"
  "keeps (\<lambda>d :: db. Q (entries d)) (apply_write_path_session_settings env a t rid rs)"
  "keeps (\<lambda>d :: db. Q (entries d)) (get_row get S)"
  "keeps (\<lambda>d :: db. Q (entries d)) (on_commit env tk)"
  "keeps (\<lambda>d :: db. Q (entries d)) (send_now env tk)"
  "keeps (\<lambda>d :: db. Q (entries d)) (sql_range s e)"
  by (auto simp: keeps_def stmt_defs insert_row_def update_rows_def delete_rows_def run_stmt_def
      apply_write_path_session_settings_def get_row_def on_commit_def dispatch_def sql_range_def
      send_now_def insert_check_def split: option.splits sum.splits)

lemma entries_create_booking: "keeps (\<lambda>d :: db. Q (entries d)) (create_booking env req)"
  unfolding create_booking_def create_booking_tx_def translating_def
  by (intro inv_intros entries_atomic entries_stmts)

lemma waiting_update_entries:
  assumes "\<And>w. we_status (f w) \<noteq> Waiting"
  shows "keeps (\<lambda>d :: db. waiting (entries d) \<le> n) (update_entries env P f)"
proof
  fix d :: db assume d: "waiting (entries d) \<le> n"
  show "waiting (entries (snd (update_entries env P f d))) \<le> n"
  proof (cases "update_entries env P f d")
    case (Pair r d')
    show ?thesis
    proof (cases r)
      case (Inl e)
      then show ?thesis using Pair d by (auto simp: update_entries_def update_rows_def run_stmt_def split: option.splits sum.splits)
    next
      case (Inr k)
      then have "entries d' = updated P f (entries d)"
        using Pair wet.update_Inr(2) unfolding update_entries_def by fastforce
      then show ?thesis using Pair d waiting_updated[of f P "entries d"] assms by simp
    qed
  qed
qed

lemmas waiting_intros = inv_intros entries_atomic[where Q = "\<lambda>es. waiting es \<le> n" for n]
  entries_stmts[where Q = "\<lambda>es. waiting es \<le> n" for n] waiting_update_entries

lemma waiting_reactions:
  "keeps (\<lambda>d :: db. waiting (entries d) \<le> n) (accept_offer env freq)"
  "keeps (\<lambda>d :: db. waiting (entries d) \<le> n) (decline_offer env freq)"
  "keeps (\<lambda>d :: db. waiting (entries d) \<le> n) (reap_hold env now rid hid)"
  "keeps (\<lambda>d :: db. waiting (entries d) \<le> n) (cancel_waitlist_entry env wreq)"
  unfolding accept_offer_def decline_offer_def reap_hold_def cancel_waitlist_entry_def
  by (intro waiting_intros; simp)+


section \<open>A cascade that makes an offer shortens the queue\<close>

lemma autocommit_offered:
  assumes "autocommit env (update_entries env P f) d = (Inr n, d')"
  shows "entries d' = updated P f (entries d)"
proof -
  have step: "entries d2 = updated P f (entries d1)" if "update_entries env P f d1 = (Inr k, d2)" for d1 d2 k
    using that wet.update_Inr(2) unfolding update_entries_def by fastforce
  show ?thesis
    using assms unfolding autocommit_def
  proof (cases rule: atomic_cases)
    case (commit x d1)
    then show ?thesis using step[OF commit(2)] by (simp add: run_hooks_eq)
  qed (use step in auto)
qed

lemma entries_same:
  assumes "\<And>Q. keeps (\<lambda>d :: db. Q (entries d)) m" "m d = (r, d')"
  shows "entries d' = entries d"
  using keepsE[OF assms(1)[of "\<lambda>es. es = entries d"] refl assms(2)] .

lemma issue_offer_shortens:
  assumes "issue_offer env res rid w n hold d = (Inr v, d')" "w \<in> set (entries d)" "we_status w = Waiting"
  shows "waiting (entries d') < waiting (entries d)"
proof -
  have frame: "keeps (\<lambda>d :: db. Q (entries d)) (autocommit env (insert_offer env off))"
    "keeps (\<lambda>d :: db. Q (entries d)) (record_offer_cascade_heartbeat env b k)"
    for Q off b k
    unfolding record_offer_cascade_heartbeat_def autocommit_def by (intro entries_atomic entries_stmts)+
  from assms(1) obtain off d1 k d2 d3 where
    s1: "autocommit env (insert_offer env (new_offer env res w hold)) d = (Inr off, d1)" and
    s2: "autocommit env (update_entries env (\<lambda>r. we_id r = we_id w) (\<lambda>r. r\<lparr> we_status := Offered \<rparr>)) d1 = (Inr k, d2)" and
    s3: "send_now env (notify_offer_created (we_user w) (resource_name res d2) (lo (we_range w)) (hi (we_range w))
           (case bk_expires_at hold of None \<Rightarrow> 0 | Some x \<Rightarrow> x) rid) d2 = (Inr (), d3)" and
    s4: "then_svc (record_offer_cascade_heartbeat env True n) (ret (Some off)) d3 = (Inr v, d')"
    unfolding issue_offer_def by (auto split: if_splits elim!: bind_svc_cases then_svc_cases)
  have "entries d' = entries d3" using s4 entries_same[OF frame(2)] by (auto elim!: then_svc_cases)
  moreover have "entries d3 = entries d2" using entries_same[OF entries_stmts(10) s3] .
  moreover have "entries d1 = entries d" using entries_same[OF frame(1) s1] .
  ultimately show ?thesis
    using autocommit_offered[OF s2]
      waiting_updated_less[of "\<lambda>r. r\<lparr> we_status := Offered \<rparr>" w "entries d" "\<lambda>r. we_id r = we_id w"] assms(2,3)
    by simp
qed

lemma try_candidates_shortens:
  assumes "try_candidates envs res rid i ws d = (Inr (Some off), d')"
    and "set ws \<subseteq> {w \<in> set (entries d). we_status w = Waiting}"
  shows "waiting (entries d') < waiting (entries d)"
  using assms
proof (induction ws arbitrary: i d)
  case Nil
  then show ?case by (auto elim!: then_svc_cases)
next
  case (Cons w ws)
  obtain r d1 where c: "create_booking (envs i) (hold_request res rid w) d = (r, d1)" by fastforce
  have same: "entries d1 = entries d" by (rule entries_same[OF entries_create_booking c])
  show ?case
  proof (cases r)
    case (Inl e)
    then have "try_candidates envs res rid (Suc i) ws d1 = (Inr (Some off), d')"
      using Cons.prems(1) c by (cases e) auto
    then show ?thesis using Cons.IH[of "Suc i" d1] Cons.prems(2) same by simp
  next
    case (Inr hold)
    then have "issue_offer (envs i) res rid w (Suc i) hold d1 = (Inr (Some off), d')"
      using Cons.prems(1) c by simp
    then show ?thesis using issue_offer_shortens Cons.prems(2) same by fastforce
  qed
qed

lemma cascade_shortens:
  assumes "create_offer_for_freed_range envs res s e rid d = (Inr (Some off), d')"
  shows "waiting (entries d') < waiting (entries d)"
proof -
  have "set (find_eligible_entries res s e d) \<subseteq> {w \<in> set (entries d). we_status w = Waiting}"
    by (auto simp: eligible_entries_iff eligible_def)
  then show ?thesis
    using assms try_candidates_shortens[of envs res rid 0 _ d off d']
    by (simp add: create_offer_for_freed_range_def)
qed

section \<open>The rounds of a freed range\<close>

text \<open>What can happen between two cascades: acceptances, declines, reaped holds, withdrawals.\<close>

datatype reaction =
    Accepts env offer_request
  | Declines env offer_request
  | Reaps env instant string uuid
  | Withdraws env entry_cancel_request

fun react :: "reaction \<Rightarrow> db \<Rightarrow> db" where
  "react (Accepts env req) d = snd (accept_offer env req d)"
| "react (Declines env req) d = snd (decline_offer env req d)"
| "react (Reaps env now rid hid) d = snd (reap_hold env now rid hid d)"
| "react (Withdraws env req) d = snd (cancel_waitlist_entry env req d)"

text \<open>A round is a cascade and what happens after it; when an offer was made, its range is what the next
  cascade is for (as the decline and the reaper register it).  The result counts the offers.\<close>

fun offer_rounds ::
  "nat \<Rightarrow> (nat \<Rightarrow> nat \<Rightarrow> env) \<Rightarrow> (nat \<Rightarrow> reaction list) \<Rightarrow> nat \<Rightarrow> uuid \<Rightarrow> instant \<Rightarrow> instant \<Rightarrow> string \<Rightarrow> db
     \<Rightarrow> (nat \<times> db) option" where
  "offer_rounds 0 envs acts k res s e rid d = None"
| "offer_rounds (Suc n) envs acts k res s e rid d =
     (case create_offer_for_freed_range (envs k) res s e rid d of
        (Inr (Some off), d') \<Rightarrow>
          offer_rounds n envs acts (Suc k) (wo_resource off) (lo (wo_range off)) (hi (wo_range off)) rid
            (fold react (acts k) d')
      | (_, d') \<Rightarrow> Some (k, d'))"

lemma react_waiting: "waiting (entries (react a d)) \<le> waiting (entries d)"
  by (cases a) (simp_all add: keepsD[OF waiting_reactions(1)] keepsD[OF waiting_reactions(2)]
      keepsD[OF waiting_reactions(3)] keepsD[OF waiting_reactions(4)])

lemma reacts_waiting: "waiting (entries (fold react as d)) \<le> waiting (entries d)"
proof (induction as arbitrary: d)
  case (Cons a as)
  show ?case using Cons[of "react a d"] react_waiting[of a d] by simp
qed simp

lemma rounds_end:
  assumes "waiting (entries d) < n"
  shows "\<exists>m d'. offer_rounds n envs acts k res s e rid d = Some (m, d') \<and> m \<le> k + waiting (entries d)"
  using assms
proof (induction n arbitrary: k res s e d)
  case (Suc n)
  obtain r d1 where c: "create_offer_for_freed_range (envs k) res s e rid d = (r, d1)" by fastforce
  show ?case
  proof (cases "\<exists>off. r = Inr (Some off)")
    case True
    then obtain off where off: "r = Inr (Some off)" by blast
    let ?d = "fold react (acts k) d1"
    have less: "waiting (entries ?d) < waiting (entries d)"
      using cascade_shortens c reacts_waiting[of "acts k" d1] unfolding off by fastforce
    then have "waiting (entries ?d) < n" using Suc.prems by simp
    from Suc.IH[OF this, of "Suc k" "wo_resource off" "lo (wo_range off)" "hi (wo_range off)"] less
    show ?thesis using c off by fastforce
  next
    case False
    then show ?thesis using c by (auto split: sum.split option.split)
  qed
qed simp

text \<open>C22: the offers of a freed range come to an end, whatever the users do with them and whatever fails:
  from any state, cascades that each follow the decline or the expiry of the offer before stop after at
  most as many offers as entries were waiting, so no range is offered round and round.\<close>

theorem offers_of_a_range_end:
  "\<exists>m d'. offer_rounds (waiting (entries d) + 1) envs acts 0 res s e rid d = Some (m, d') \<and>
     m \<le> waiting (entries d)"
  using rounds_end[of d "waiting (entries d) + 1" envs acts 0] by simp

end
