(* ===== verification/Routes.thy ===== *)
theory Routes
  imports Uuids
begin

text \<open>
  The URL tables: \<open>urls.py\<close> of the project and of its five applications.  A path is compared piece by
  piece between its slashes; a piece of a pattern is a fixed text or the framework's converter
  \<open>uuid\<close>, which accepts the canonical lower-case spelling only.  The first pattern that matches wins.
\<close>

section \<open>Patterns\<close>

datatype url_piece = Lit string | Uuid_arg

datatype view_name =
    TokenExchangeView | DevMockLoginView | UserDeactivateView
  | BookingCollectionView | BookingDetailView | BookingCancelView | BookingHistoryView
  | RecurringSeriesPreviewView | RecurringSeriesConfirmView | RecurringSeriesCancelView
  | ResourceCollectionView | ResourceDetailView | ResourceAvailabilityView
  | ResourceAdminGrantCollectionView | ResourceAdminGrantDetailView | ResourceUtilizationView
  | WaitlistEntryCollectionView | WaitlistEntryCancelView | WaitlistOfferConfirmView
  | WaitlistOfferDeclineView
  | AdminChecksLatestView | AdminDashboardView | AdminDashboardPageView

type_synonym route = "url_piece list \<times> view_name"

text \<open>The converter: \<open>[0-9a-f]{8}-[0-9a-f]{4}-[0-9a-f]{4}-[0-9a-f]{4}-[0-9a-f]{12}\<close>.\<close>

definition lower_hex :: "char \<Rightarrow> bool" where
  "lower_hex c = (c \<in> List.set ''0123456789abcdef'')"

definition uuid_segment :: "string \<Rightarrow> uuid option" where
  "uuid_segment s =
     (if map length (split_on CHR ''-'' s) = [8, 4, 4, 4, 12] \<and>
         list_all (list_all lower_hex) (split_on CHR ''-'' s)
      then parse_uuid s else None)"

fun match_pieces :: "url_piece list \<Rightarrow> string list \<Rightarrow> uuid list option" where
  "match_pieces [] [] = Some []"
| "match_pieces (Lit a # ps) (s # ss) = (if s = a then match_pieces ps ss else None)"
| "match_pieces (Uuid_arg # ps) (s # ss) = (case uuid_segment s of
      None \<Rightarrow> None
    | Some u \<Rightarrow> map_option ((#) u) (match_pieces ps ss))"
| "match_pieces _ _ = None"

fun first_match :: "route list \<Rightarrow> string list \<Rightarrow> (view_name \<times> uuid list) option" where
  "first_match [] ss = None"
| "first_match ((p, v) # rs) ss = (case match_pieces p ss of
      None \<Rightarrow> first_match rs ss
    | Some us \<Rightarrow> Some (v, us))"

section \<open>The tables\<close>

definition identity_urls :: "route list" where
  "identity_urls =
     [([Lit ''auth'', Lit ''token''], TokenExchangeView),
      ([Lit ''auth'', Lit ''dev-mock-login''], DevMockLoginView),
      ([Lit ''admin'', Lit ''users'', Uuid_arg, Lit ''deactivate''], UserDeactivateView)]"

definition bookings_urls :: "route list" where
  "bookings_urls =
     [([Lit ''bookings''], BookingCollectionView),
      ([Lit ''bookings'', Uuid_arg], BookingDetailView),
      ([Lit ''bookings'', Uuid_arg, Lit ''cancel''], BookingCancelView),
      ([Lit ''bookings'', Uuid_arg, Lit ''history''], BookingHistoryView),
      ([Lit ''bookings'', Lit ''recurring'', Lit ''preview''], RecurringSeriesPreviewView),
      ([Lit ''bookings'', Lit ''recurring''], RecurringSeriesConfirmView),
      ([Lit ''recurring-series'', Uuid_arg, Lit ''cancel''], RecurringSeriesCancelView)]"

definition resources_urls :: "route list" where
  "resources_urls =
     [([Lit ''resources''], ResourceCollectionView),
      ([Lit ''resources'', Uuid_arg], ResourceDetailView),
      ([Lit ''resources'', Uuid_arg, Lit ''availability''], ResourceAvailabilityView),
      ([Lit ''resources'', Uuid_arg, Lit ''admins''], ResourceAdminGrantCollectionView),
      ([Lit ''resources'', Uuid_arg, Lit ''admins'', Uuid_arg], ResourceAdminGrantDetailView),
      ([Lit ''admin'', Lit ''resources'', Uuid_arg, Lit ''utilization''], ResourceUtilizationView)]"

definition waitlist_urls :: "route list" where
  "waitlist_urls =
     [([Lit ''waitlist-entries''], WaitlistEntryCollectionView),
      ([Lit ''waitlist-entries'', Uuid_arg, Lit ''cancel''], WaitlistEntryCancelView),
      ([Lit ''waitlist-offers'', Uuid_arg, Lit ''confirm''], WaitlistOfferConfirmView),
      ([Lit ''waitlist-offers'', Uuid_arg, Lit ''decline''], WaitlistOfferDeclineView)]"

definition core_urls :: "route list" where
  "core_urls =
     [([Lit ''admin'', Lit ''checks'', Lit ''latest''], AdminChecksLatestView),
      ([Lit ''admin'', Lit ''dashboard''], AdminDashboardView)]"

text \<open>The path starts with a slash, so its first piece is empty.\<close>

definition urlpatterns :: "route list" where
  "urlpatterns =
     map (\<lambda>(p, v). ([Lit '''', Lit ''api'', Lit ''v1''] @ p, v))
       (identity_urls @ bookings_urls @ resources_urls @ waitlist_urls @ core_urls)
     @ [([Lit '''', Lit ''admin'', Lit ''dashboard'', Lit ''''], AdminDashboardPageView)]"

definition resolve :: "string \<Rightarrow> (view_name \<times> uuid list) option" where
  "resolve path = first_match urlpatterns (split_on CHR ''/'' path)"

text \<open>The path of a view, as the endpoint labels and the clients write it.\<close>

fun fill :: "url_piece list \<Rightarrow> uuid list \<Rightarrow> string list option" where
  "fill [] [] = Some []"
| "fill (Lit a # ps) us = map_option ((#) a) (fill ps us)"
| "fill (Uuid_arg # ps) (u # us) = map_option ((#) (uuid_text u)) (fill ps us)"
| "fill _ _ = None"

definition path_of :: "view_name \<Rightarrow> uuid list \<Rightarrow> string option" where
  "path_of v us = (case find (\<lambda>r. snd r = v) urlpatterns of
      None \<Rightarrow> None
    | Some r \<Rightarrow> map_option (join_text ''/'') (fill (fst r) us))"

lemmas url_defs = urlpatterns_def identity_urls_def bookings_urls_def resources_urls_def
  waitlist_urls_def core_urls_def

section \<open>The converter accepts exactly the printed identifiers\<close>

lemma lower_hex_char [simp]: "lower_hex (hex_char n)"
proof -
  have "n mod 16 \<in> {0 ..< 16}" by simp
  then have "n mod 16 \<in> List.set [0 ..< 16]" by simp
  moreover have "list_all (\<lambda>m. lower_hex (char_of (if m < 10 then 48 + m else 87 + m))) [0 ..< 16]"
    by code_simp
  ultimately show ?thesis unfolding hex_char_def by (simp only: list_all_iff)
qed

lemma hexed_lower: "list_all lower_hex (hexed w n)"
  by (induction w arbitrary: n) auto

lemma lower_hex_digit:
  assumes "lower_hex c"
  obtains m where "m < 16" "c = hex_char m"
proof -
  have "map hex_char [0 ..< 16] = ''0123456789abcdef''" by code_simp
  then have "c \<in> hex_char ` {0 ..< 16}"
    using assms unfolding lower_hex_def by (metis atLeastLessThan_upt list.set_map)
  then show ?thesis using that by auto
qed

lemma lower_hex_hexed:
  assumes "list_all lower_hex s"
  obtains n where "n < 16 ^ length s" "s = hexed (length s) n"
  using assms
proof (induction s arbitrary: thesis rule: rev_induct)
  case (snoc c s)
  obtain n where n: "n < 16 ^ length s" "s = hexed (length s) n"
    using snoc.IH snoc.prems(2) by auto
  obtain m where m: "m < 16" "c = hex_char m" using snoc.prems(2) lower_hex_digit by auto
  have "s @ [c] = hexed (Suc (length s)) (16 * n + m)"
    using n(2) m by (simp add: hex_char_def)
  moreover have "16 * n + m < 16 ^ Suc (length s)" using n(1) m(1) by simp
  ultimately show ?case using snoc.prems(1) by simp
qed simp

lemma not_lower_hex: "\<not> lower_hex CHR ''-''" "\<not> lower_hex CHR ''/''"
  by code_simp+

lemma no_hyphen: "list_all lower_hex s \<Longrightarrow> CHR ''-'' \<notin> set s" "list_all lower_hex s \<Longrightarrow> CHR ''/'' \<notin> set s"
  using not_lower_hex by (auto simp: list_all_iff)

lemma split_uuid_text:
  "split_on CHR ''-'' (uuid_text u) = [hexed 8 (u div 16 ^ 24), hexed 4 (u div 16 ^ 20),
     hexed 4 (u div 16 ^ 16), hexed 4 (u div 16 ^ 12), hexed 12 u]"
  unfolding uuid_text_def by (simp add: no_hyphen(1)[OF hexed_lower])

lemma uuid_segment_text [simp]: "u < 2 ^ 128 \<Longrightarrow> uuid_segment (uuid_text u) = Some u"
  by (simp add: uuid_segment_def split_uuid_text hexed_lower parse_uuid_text)

lemma uuid_segment_iff: "uuid_segment s = Some u \<longleftrightarrow> s = uuid_text u \<and> u < 2 ^ 128"
proof
  assume seg: "uuid_segment s = Some u"
  then have "map length (split_on CHR ''-'' s) = [8, 4, 4, 4, 12]"
    and hex: "list_all (list_all lower_hex) (split_on CHR ''-'' s)" and val: "parse_uuid s = Some u"
    unfolding uuid_segment_def by (auto split: if_splits)
  then obtain a b c d e where parts: "split_on CHR ''-'' s = [a, b, c, d, e]"
    and len: "length a = 8" "length b = 4" "length c = 4" "length d = 4" "length e = 12"
    by (auto simp: map_eq_Cons_conv)
  have "list_all lower_hex (a @ b @ c @ d @ e)" using hex by (simp add: parts)
  then obtain n where n: "n < 16 ^ 32" "a @ b @ c @ d @ e = hexed 32 n"
    by (rule lower_hex_hexed) (use len in simp)
  have "hexed 32 n = hexed 8 (n div 16 ^ 24) @ hexed 4 (n div 16 ^ 20) @ hexed 4 (n div 16 ^ 16) @
      hexed 4 (n div 16 ^ 12) @ hexed 12 n"
    using hexed_add[of 8 24 n] hexed_add[of 4 20 n] hexed_add[of 4 16 n] hexed_add[of 4 12 n] by simp
  then have "[a, b, c, d, e] = split_on CHR ''-'' (uuid_text n)"
    using n(2) len by (simp add: split_uuid_text)
  then have "s = uuid_text n" using parts join_split by metis
  moreover have "n < 2 ^ 128" using n(1) by (simp add: power_mult[symmetric, of 2 4, simplified])
  ultimately show "s = uuid_text u \<and> u < 2 ^ 128" using val by (simp add: parse_uuid_text)
qed auto

section \<open>Every view has its own paths\<close>

lemma map_option_Some: "map_option f x = Some y \<longleftrightarrow> (\<exists>z. x = Some z \<and> y = f z)"
  by auto

lemma fill_not_empty [simp]: "fill (x # ps) us \<noteq> Some []"
  by (cases x; cases us) auto

lemma match_iff_fill:
  "match_pieces p ss = Some us \<longleftrightarrow> fill p us = Some ss \<and> list_all (\<lambda>u. u < 2 ^ 128) us"
proof (induction p arbitrary: ss us)
  case Nil
  then show ?case by (cases ss; cases us) auto
next
  case (Cons x ps)
  show ?case
  proof (cases ss)
    case Nil
    then show ?thesis by (cases x) auto
  next
    case ss: (Cons s ts)
    show ?thesis
    proof (cases x)
      case (Lit a)
      then show ?thesis using Cons.IH by (auto simp: ss map_option_Some)
    next
      case Uuid_arg
      show ?thesis
      proof (cases "uuid_segment s")
        case None
        then show ?thesis using Uuid_arg by (cases us) (auto simp: ss)
      next
        case (Some u)
        then show ?thesis
          using Uuid_arg Cons.IH uuid_segment_iff[of s] by (cases us) (auto simp: ss map_option_Some)
      qed
    qed
  qed
qed

text \<open>Two patterns that no path matches both.\<close>

fun apart :: "url_piece list \<Rightarrow> url_piece list \<Rightarrow> bool" where
  "apart [] [] = False"
| "apart (Lit a # ps) (Lit b # qs) = (a \<noteq> b \<or> apart ps qs)"
| "apart (Lit a # ps) (Uuid_arg # qs) = (uuid_segment a = None \<or> apart ps qs)"
| "apart (Uuid_arg # ps) (Lit b # qs) = (uuid_segment b = None \<or> apart ps qs)"
| "apart (Uuid_arg # ps) (Uuid_arg # qs) = apart ps qs"
| "apart _ _ = True"

lemma match_nil [simp]:
  "match_pieces [] ss = Some us \<longleftrightarrow> ss = [] \<and> us = []" "match_pieces (x # ps) [] = None"
  by (cases ss; auto) (cases x; simp)

lemma apart_match: "apart p q \<Longrightarrow> match_pieces p ss = Some us \<Longrightarrow> match_pieces q ss = None"
proof (induction p q arbitrary: ss us rule: apart.induct)
  case (2 a ps b qs)
  then show ?case by (cases ss) (auto split: if_splits)
next
  case (3 a ps qs)
  then show ?case by (cases ss) (auto split: option.splits if_splits)
next
  case (4 ps b qs)
  then show ?case by (cases ss) (auto split: option.splits if_splits)
next
  case (5 ps qs)
  then show ?case by (cases ss) (auto split: option.splits if_splits)
qed (simp_all, (case_tac ss; simp)+)

lemma urlpatterns_apart: "sorted_wrt (\<lambda>r r'. apart (fst r) (fst r')) urlpatterns"
  by code_simp

lemma first_match_iff:
  "sorted_wrt (\<lambda>r r'. apart (fst r) (fst r')) rs \<Longrightarrow>
   first_match rs ss = Some (v, us) \<longleftrightarrow> (\<exists>p. (p, v) \<in> set rs \<and> match_pieces p ss = Some us)"
proof (induction rs)
  case (Cons r rs)
  obtain q w where r: "r = (q, w)" by (cases r)
  show ?case
  proof (cases "match_pieces q ss")
    case None
    then show ?thesis using Cons by (auto simp: r)
  next
    case (Some ws)
    have "match_pieces p ss = None" if "(p, u) \<in> set rs" for p u
      using Cons.prems that apart_match[of q p ss ws] Some by (force simp: r)
    then show ?thesis using Some by (fastforce simp: r)
  qed
qed simp

lemma find_distinct:
  "distinct (map snd rs) \<Longrightarrow> (p, v) \<in> set rs \<Longrightarrow> find (\<lambda>r. snd r = v) rs = Some (p, v)"
  by (induction rs) force+

lemma one_route_per_view: "distinct (map snd urlpatterns)"
  by code_simp

lemmas find_route = find_distinct[OF one_route_per_view]

text \<open>No piece holds a slash.\<close>

fun plain_piece :: "url_piece \<Rightarrow> bool" where
  "plain_piece (Lit a) = (CHR ''/'' \<notin> List.set a)"
| "plain_piece Uuid_arg = True"

lemma urlpatterns_plain: "list_all (\<lambda>r. fst r \<noteq> [] \<and> list_all plain_piece (fst r)) urlpatterns"
  by code_simp

lemma no_slash_uuid: "CHR ''/'' \<notin> set (uuid_text u)"
proof -
  have "CHR ''/'' \<noteq> CHR ''-''" by simp
  then show ?thesis using no_hyphen(2)[OF hexed_lower] by (simp add: uuid_text_def)
qed

lemma fill_plain:
  "fill p us = Some ss \<Longrightarrow> list_all plain_piece p \<Longrightarrow> t \<in> set ss \<Longrightarrow> CHR ''/'' \<notin> set t"
proof (induction p us arbitrary: ss rule: fill.induct)
  case (2 a ps us)
  then obtain zs where "fill ps us = Some zs" "ss = a # zs" by (auto simp: map_option_Some)
  then show ?case using 2 by (simp only: list.pred_inject plain_piece.simps list.set) blast
next
  case (3 ps u us)
  then obtain zs where "fill ps us = Some zs" "ss = uuid_text u # zs" by (auto simp: map_option_Some)
  then show ?case using 3 no_slash_uuid by (simp only: list.pred_inject list.set) blast
qed simp_all

lemma fill_cons: "fill p us = Some ss \<Longrightarrow> p \<noteq> [] \<Longrightarrow> ss \<noteq> []"
  by (cases p) auto

lemma route_of_path: "path_of v us = Some path \<Longrightarrow> \<exists>p. (p, v) \<in> set urlpatterns"
proof -
  assume "path_of v us = Some path"
  then obtain r where r: "find (\<lambda>r. snd r = v) urlpatterns = Some r"
    by (cases "find (\<lambda>r. snd r = v) urlpatterns") (simp_all add: path_of_def)
  then have "r \<in> set urlpatterns" "snd r = v" unfolding find_Some_iff using nth_mem by blast+
  then show ?thesis by (metis prod.collapse)
qed


end
