(* ===== verification/Application.thy ===== *)
theory Application
  imports System Routes
begin

text \<open>
  One HTTP request from the middleware to the answer: the stack of \<open>settings/base.py\<close>, the URL tables,
  the dispatch of the framework, the view, and the exception handler with \<open>core/error_handlers.py\<close>.

  \<open>world\<close> holds what a process keeps for its life: the libraries, which are parameters of the views, and
  the settings.  \<open>moment\<close> holds what one request draws from outside: the environments of its calls, and
  the clocks and the health of Redis.  The middleware draws from an environment of its own.  A
  request has been parsed: the verb is in capitals, the path without its query, the body is JSON.  The
  headers that the framework adds by itself (\<open>Allow\<close>, \<open>Content-Type\<close>, the security headers) are left out.
\<close>

section \<open>Requests\<close>

record http_request =
  hr_verb :: string
  hr_path :: string
  hr_headers :: headers
  hr_idempotency_key :: "string option"
  hr_query :: "string \<Rightarrow> string option"
  hr_data :: json
  hr_remote_addr :: "string option"

record world =
  w_jwt :: jwt
  w_settings :: auth_settings
  w_origins :: "string list"                    \<comment> \<open>\<open>CORS_ALLOWED_ORIGINS\<close>\<close>
  w_rate_limit_enabled :: bool
  w_drf :: drf
  w_resource_forms :: resource_forms
  w_login_forms :: login_forms
  w_parsers :: boundary_parsers
  w_instants :: "codes \<Rightarrow> instant option"       \<comment> \<open>other ISO spellings in a cursor\<close>
  w_name_lt :: "codes \<Rightarrow> codes \<Rightarrow> bool"
  w_snapshot :: "entity \<Rightarrow> (string \<times> json) list"
  w_float_json :: "rat \<Rightarrow> json"
  w_groups :: "uuid list"
  w_encode :: "preview_claims \<Rightarrow> string"
  w_decode :: "int \<Rightarrow> string \<Rightarrow> preview_claims option"
  w_metadata :: json                            \<comment> \<open>the framework's answer to OPTIONS\<close>

record moment =
  mo_env :: env
  mo_turns :: "nat \<Rightarrow> env"                      \<comment> \<open>the turns of a loop of the view\<close>
  mo_last :: env                                \<comment> \<open>its last transaction\<close>
  mo_outer :: env                               \<comment> \<open>the middleware\<close>
  mo_started :: instant
  mo_redis :: "nat \<Rightarrow> redis_health"
  mo_server_now :: "nat \<Rightarrow> rat"
  mo_now :: "nat \<Rightarrow> rat"

definition request_of :: "http_request \<Rightarrow> string \<Rightarrow> app_user \<Rightarrow> request" where
  "request_of q rid u = \<lparr> rq_user = u, rq_key_header = hr_idempotency_key q, rq_request_id = rid,
     rq_data = hr_data q \<rparr>"

definition list_params_of :: "http_request \<Rightarrow> list_params" where
  "list_params_of q = \<lparr> lp_resource = hr_query q ''resource_id'', lp_status = hr_query q ''status'',
     lp_time = hr_query q ''time'', lp_limit = hr_query q ''limit'', lp_cursor = hr_query q ''cursor'' \<rparr>"

section \<open>Views\<close>

text \<open>The method of a view class for a verb, or nothing.  \<open>HEAD\<close> runs \<open>get\<close>.\<close>

definition view_method ::
  "world \<Rightarrow> moment \<Rightarrow> http_request \<Rightarrow> string \<Rightarrow> view_name \<Rightarrow> uuid list \<Rightarrow> string
     \<Rightarrow> (app_user \<Rightarrow> reply svc) option" where
  "view_method w m q rid v us verb =
     (let f = w_drf w; env = mo_env m; rq = request_of q rid; p = list_params_of q; pk = hd us;
          get = (verb \<in> {''GET'', ''HEAD''}); post = (verb = ''POST'')
      in case v of
        UserDeactivateView \<Rightarrow> if post then Some (\<lambda>u. user_deactivate_view env f (rq u) pk) else None
      | BookingCollectionView \<Rightarrow>
          if get then Some (\<lambda>u. list_view (w_instants w) env f (rq u) p)
          else if post then Some (\<lambda>u. create_view env f (rq u)) else None
      | BookingDetailView \<Rightarrow>
          if get then Some (\<lambda>u. detail_view f (rq u) pk)
          else if verb = ''PATCH'' then Some (\<lambda>u. edit_view env f (rq u) pk) else None
      | BookingCancelView \<Rightarrow> if post then Some (\<lambda>u. cancel_view env f (rq u) pk) else None
      | BookingHistoryView \<Rightarrow> if get then Some (\<lambda>u. history_view (w_snapshot w) (rq u) pk) else None
      | RecurringSeriesPreviewView \<Rightarrow>
          if post then Some (\<lambda>u. preview_view (w_encode w) env f (rq u)) else None
      | RecurringSeriesConfirmView \<Rightarrow>
          if post then Some (\<lambda>u. confirm_view (w_decode w) env (mo_turns m) (mo_last m) f (rq u)) else None
      | RecurringSeriesCancelView \<Rightarrow> if post then Some (\<lambda>u. cancel_series_view env f (rq u) pk) else None
      | ResourceCollectionView \<Rightarrow>
          if get then Some (\<lambda>u. list_resources_view (w_name_lt w) f (rq u) (hr_query q ''limit'')
            (hr_query q ''cursor''))
          else if post then Some (\<lambda>u. create_resource_view env f (w_resource_forms w) (w_groups w) (rq u))
          else None
      | ResourceDetailView \<Rightarrow>
          if get then Some (\<lambda>u. resource_detail_view f (rq u) pk)
          else if verb = ''PATCH'' then Some (\<lambda>u. update_resource_view env f (w_resource_forms w) (rq u) pk)
          else None
      | ResourceAvailabilityView \<Rightarrow>
          if get then Some (\<lambda>u. availability_view (w_parsers w) env (rq u) pk (hr_query q ''from'')
            (hr_query q ''to'')) else None
      | ResourceAdminGrantCollectionView \<Rightarrow> if post then Some (\<lambda>u. grant_view env f (rq u) pk) else None
      | ResourceAdminGrantDetailView \<Rightarrow>
          if verb = ''DELETE'' then Some (\<lambda>u. revoke_view env (rq u) pk (us ! 1)) else None
      | ResourceUtilizationView \<Rightarrow>
          if get then Some (\<lambda>u. utilization_view (w_parsers w) (rq u) pk (hr_query q ''from'')
            (hr_query q ''to'')) else None
      | WaitlistEntryCollectionView \<Rightarrow>
          if get then Some (\<lambda>u. list_entries_view (w_instants w) f (rq u) p)
          else if post then Some (\<lambda>u. join_view env f (rq u)) else None
      | WaitlistEntryCancelView \<Rightarrow> if post then Some (\<lambda>u. cancel_entry_view env f (rq u) pk) else None
      | WaitlistOfferConfirmView \<Rightarrow> if post then Some (\<lambda>u. confirm_offer_view env f (rq u) pk) else None
      | WaitlistOfferDeclineView \<Rightarrow> if post then Some (\<lambda>u. decline_offer_view env f (rq u) pk) else None
      | AdminChecksLatestView \<Rightarrow> if get then Some (\<lambda>u. checks_latest_view (rq u)) else None
      | AdminDashboardView \<Rightarrow>
          if get then Some (\<lambda>u. dashboard_view (w_float_json w) (mo_redis m 2) env (rq u)) else None
      | _ \<Rightarrow> None)"

text \<open>The framework's own methods: the description of the view for \<open>OPTIONS\<close>, a refusal otherwise.\<close>

definition other_method :: "world \<Rightarrow> string \<Rightarrow> reply svc" where
  "other_method w verb =
     (if verb = ''OPTIONS'' then ret (plain_reply 200 (w_metadata w))
      else raise (APIException 405 (''Method '' @ [CHR 0x22] @ verb @ [CHR 0x22] @ '' not allowed.'')))"

text \<open>The throttles of the collection of bookings, both asked.\<close>

definition booking_throttles ::
  "world \<Rightarrow> moment \<Rightarrow> http_request \<Rightarrow> redis \<Rightarrow> app_user \<Rightarrow> throttle_answer list \<times> redis" where
  "booking_throttles w m q rd u =
     (case principal_allow_request (w_rate_limit_enabled w) (hr_verb q) (Some (au_id u)) (mo_redis m 0)
             (mo_server_now m 0) (mo_now m 0) rd of
        (a, rd1) \<Rightarrow> (case per_ip_allow_request (w_rate_limit_enabled w) (hr_verb q) (hr_remote_addr q)
             (mo_redis m 1) (mo_server_now m 1) (mo_now m 1) rd1 of
           (b, rd2) \<Rightarrow> ([a, b], rd2)))"

definition throttles_of ::
  "world \<Rightarrow> moment \<Rightarrow> http_request \<Rightarrow> view_name \<Rightarrow> redis \<Rightarrow> app_user \<Rightarrow> throttle_answer list \<times> redis" where
  "throttles_of w m q v rd u =
     (if v = BookingCollectionView then booking_throttles w m q rd u else ([], rd))"

text \<open>A login view has no throttles and asks no permission; every other view derives from
  \<open>KairosAPIView\<close>.\<close>

definition is_login :: "view_name \<Rightarrow> bool" where
  "is_login v = (v \<in> {TokenExchangeView, DevMockLoginView})"

definition login_view :: "world \<Rightarrow> moment \<Rightarrow> http_request \<Rightarrow> view_name \<Rightarrow> reply svc" where
  "login_view w m q v =
     (if hr_verb q \<noteq> ''POST''
      then then_svc (oidc_session_authenticate (w_jwt w) (hr_headers q)) (other_method w (hr_verb q))
      else if v = TokenExchangeView
      then token_exchange_view (w_jwt w) (w_settings w) (mo_env m) (w_login_forms w) (hr_headers q) (hr_data q)
      else dev_mock_login_view (w_jwt w) (w_settings w) (mo_env m) (w_login_forms w) (hr_headers q) (hr_data q))"

definition view_call ::
  "world \<Rightarrow> moment \<Rightarrow> http_request \<Rightarrow> string \<Rightarrow> redis \<Rightarrow> view_name \<Rightarrow> uuid list \<Rightarrow> reply svc" where
  "view_call w m q rid rd v us =
     (if is_login v then login_view w m q v
      else kairos_api_view (w_jwt w) (w_settings w) (hr_headers q) (\<lambda>u. fst (throttles_of w m q v rd u))
        (case view_method w m q rid v us (hr_verb q) of
           Some handler \<Rightarrow> handler | None \<Rightarrow> (\<lambda>u. other_method w (hr_verb q))))"

text \<open>The user that authentication leaves on the request, for the throttles and for the metrics.\<close>

definition request_user :: "world \<Rightarrow> http_request \<Rightarrow> view_name \<Rightarrow> db \<Rightarrow> app_user option" where
  "request_user w q v d =
     (case (if is_login v then oidc_session_authenticate (w_jwt w) (hr_headers q)
            else authenticate (w_jwt w) (w_settings w) (hr_headers q)) d of
        (Inr u, _) \<Rightarrow> u | (Inl e, _) \<Rightarrow> None)"

section \<open>Answers\<close>

definition answer_of_reply :: "reply \<Rightarrow> http_answer" where
  "answer_of_reply r = \<lparr> ha_status = re_status r,
     ha_headers = (if re_replay r then [(''Idempotent-Replay'', ''true'')] else []),
     ha_body = (if re_status r = 204 then No_content else Json (re_body r)), ha_cause = None \<rparr>"

text \<open>The headers that the framework takes from its exceptions.\<close>

fun exception_headers :: "exn \<Rightarrow> (string \<times> string) list" where
  "exception_headers NotAuthenticated = [(''WWW-Authenticate'', ''Bearer'')]"
| "exception_headers (AuthenticationFailed c) = [(''WWW-Authenticate'', ''Bearer'')]"
| "exception_headers (Throttled (Some n) c) = (if n = 0 then [] else [(''Retry-After'', int_text n)])"
| "exception_headers e = []"

definition answer_of_response :: "http_response \<Rightarrow> http_answer" where
  "answer_of_response h = \<lparr> ha_status = rp_status h,
     ha_headers = (case rp_retry_after h of None \<Rightarrow> [] | Some n \<Rightarrow> [(''Retry-After'', int_text n)]),
     ha_body = Json (rp_body h), ha_cause = rp_error_cause h \<rparr>"

definition answer_of_error :: "string \<Rightarrow> exn \<Rightarrow> http_answer" where
  "answer_of_error rid e = (case kairos_exception_handler e (Some rid) of
      None \<Rightarrow> answer_of_response (handler500 (Some rid))
    | Some h \<Rightarrow> (answer_of_response h)\<lparr> ha_headers := exception_headers e @ ha_headers (answer_of_response h) \<rparr>)"

definition page_answer :: "string \<Rightarrow> http_answer" where
  "page_answer verb = (if verb \<in> {''GET'', ''HEAD''}
     then \<lparr> ha_status = 200, ha_headers = [], ha_body = Page, ha_cause = None \<rparr>
     else \<lparr> ha_status = (if verb = ''OPTIONS'' then 200 else 405), ha_headers = [], ha_body = No_content,
            ha_cause = None \<rparr>)"

section \<open>The stack\<close>

definition run_view ::
  "world \<Rightarrow> moment \<Rightarrow> http_request \<Rightarrow> string \<Rightarrow> view_name \<Rightarrow> uuid list \<Rightarrow> (db \<times> redis) get_response" where
  "run_view w m q rid v us s =
     (let rd' = (case request_user w q v (fst s) of
            None \<Rightarrow> snd s | Some u \<Rightarrow> snd (throttles_of w m q v (snd s) u))
      in case view_call w m q rid (snd s) v us (fst s) of
        (Inr r, d') \<Rightarrow> (answer_of_reply r, (d', rd'))
      | (Inl e, d') \<Rightarrow> (answer_of_error rid e, (d', rd')))"

definition url_dispatch ::
  "world \<Rightarrow> moment \<Rightarrow> http_request \<Rightarrow> string \<Rightarrow> (db \<times> redis) get_response" where
  "url_dispatch w m q rid s = (case resolve (hr_path q) of
      None \<Rightarrow> (answer_of_response (handler404 (Some rid)), s)
    | Some (v, us) \<Rightarrow>
        if v = AdminDashboardPageView then (page_answer (hr_verb q), s) else run_view w m q rid v us s)"

definition principal_of :: "world \<Rightarrow> http_request \<Rightarrow> db \<Rightarrow> uuid option" where
  "principal_of w q d = (case resolve (hr_path q) of
      None \<Rightarrow> None
    | Some (v, us) \<Rightarrow>
        if v = AdminDashboardPageView then None else map_option au_id (request_user w q v d))"

text \<open>An exception of the metrics middleware itself becomes a 500 at its own layer.\<close>

definition metrics_layer ::
  "world \<Rightarrow> moment \<Rightarrow> http_request \<Rightarrow> string \<Rightarrow> (db \<times> redis) get_response" where
  "metrics_layer w m q rid s = (case url_dispatch w m q rid s of
      (r, (d1, rd1)) \<Rightarrow>
        (case metrics_middleware (mo_outer m) (mo_started m) (hr_verb q) (hr_path q)
            (principal_of w q (fst s)) (ha_status r, ha_cause r) d1 of
           (Inr x, d2) \<Rightarrow> (r, (d2, rd1))
         | (Inl e, d2) \<Rightarrow> (answer_of_response (handler500 (Some rid)), (d2, rd1))))"

definition application :: "world \<Rightarrow> moment \<Rightarrow> http_request \<Rightarrow> (db \<times> redis) get_response" where
  "application w m q = request_id_middleware (mo_outer m) (hr_headers q) (\<lambda>rid.
     cors_middleware (w_origins w) (hr_verb q) (hr_headers q) (metrics_layer w m q rid))"

end
