(* ===== verification/Deployment.thy ===== *)
theory Deployment
  imports Application
begin

text \<open>
  How the program is started and driven: the settings modules (\<open>settings/base.py\<close>, \<open>dev.py\<close>, \<open>test.py\<close>,
  \<open>perf.py\<close>, \<open>prod.py\<close>), the Celery beat schedule, the tasks of the worker, and the management commands.
  An environment variable is a value of the function \<open>os\<close>; a settings module either gives the
  settings or refuses to start.  Settings that only configure a framework are left out.
\<close>

section \<open>Settings\<close>

type_synonym environ = "string \<Rightarrow> string option"

datatype settings_module = Dev | Test | Perf | Prod

datatype startup_error = RuntimeError string | ValueError_at_startup string

record settings =
  cf_debug :: bool
  cf_secret_key :: string
  cf_stub_enabled :: bool
  cf_mock_enabled :: bool
  cf_oidc_issuer :: string
  cf_oidc_client_id :: string
  cf_signing_key :: string
  cf_token_ttl :: int
  cf_email_host :: string
  cf_email_port :: int
  cf_cors_origins :: "string list"
  cf_rate_limit :: bool
  cf_allowed_hosts :: "string list"
  cf_ssl_redirect :: bool

definition environ_get :: "environ \<Rightarrow> string \<Rightarrow> string \<Rightarrow> string" where
  "environ_get os k fallback = (case os k of None \<Rightarrow> fallback | Some v \<Rightarrow> v)"

text \<open>Python's \<open>a or b\<close> on texts.\<close>

definition or_else :: "string \<Rightarrow> string \<Rightarrow> string" where
  "or_else a b = (if a = '''' then b else a)"

definition DEV_SIGNING_KEY :: string where
  "DEV_SIGNING_KEY = ''kairos-dev-session-signing-key-insecure''"

definition cors_allowed_origins :: "environ \<Rightarrow> string list" where
  "cors_allowed_origins os = filter (\<lambda>t. t \<noteq> '''')
     (map (strip is_space) (split_on CHR '','' (environ_get os ''CORS_ALLOWED_ORIGINS'' '''')))"

definition base_settings :: "environ \<Rightarrow> startup_error + settings" where
  "base_settings os =
     (let secret = environ_get os ''DJANGO_SECRET_KEY'' '''' in
      case int_of_text (environ_get os ''KAIROS_SESSION_TOKEN_TTL_SECONDS'' ''900'') of
        None \<Rightarrow> Inl (ValueError_at_startup ''KAIROS_SESSION_TOKEN_TTL_SECONDS'')
      | Some ttl \<Rightarrow>
          (case int_of_text (or_else (environ_get os ''SMTP_PORT'' ''587'') ''587'') of
             None \<Rightarrow> Inl (ValueError_at_startup ''SMTP_PORT'')
           | Some port \<Rightarrow> Inr
               \<lparr> cf_debug = False, cf_secret_key = secret, cf_stub_enabled = False, cf_mock_enabled = False,
                 cf_oidc_issuer = environ_get os ''OIDC_ISSUER'' '''',
                 cf_oidc_client_id = environ_get os ''OIDC_CLIENT_ID'' '''',
                 cf_signing_key = or_else (environ_get os ''KAIROS_SESSION_SIGNING_KEY'' '''')
                   (or_else secret DEV_SIGNING_KEY),
                 cf_token_ttl = ttl, cf_email_host = environ_get os ''SMTP_HOST'' '''', cf_email_port = port,
                 cf_cors_origins = cors_allowed_origins os, cf_rate_limit = True, cf_allowed_hosts = [],
                 cf_ssl_redirect = False \<rparr>))"

definition dev_settings :: "environ \<Rightarrow> startup_error + settings" where
  "dev_settings os = map_sum id (\<lambda>s. s\<lparr> cf_debug := True, cf_allowed_hosts := [''localhost'', ''127.0.0.1''],
     cf_mock_enabled := True \<rparr>) (base_settings os)"

definition test_settings :: "environ \<Rightarrow> startup_error + settings" where
  "test_settings os = map_sum id (\<lambda>s. s\<lparr> cf_debug := False, cf_allowed_hosts := [''localhost'', ''127.0.0.1''],
     cf_stub_enabled := True, cf_mock_enabled := True, cf_rate_limit := False \<rparr>) (base_settings os)"

definition perf_settings :: "environ \<Rightarrow> startup_error + settings" where
  "perf_settings os = map_sum id (\<lambda>s. s\<lparr> cf_rate_limit := False, cf_token_ttl := 3600 \<rparr>) (dev_settings os)"

definition prod_settings :: "environ \<Rightarrow> startup_error + settings" where
  "prod_settings os = (case base_settings os of
      Inl e \<Rightarrow> Inl e
    | Inr s \<Rightarrow>
        if cf_secret_key s = '''' then Inl (RuntimeError ''DJANGO_SECRET_KEY must be set in production'')
        else if cf_signing_key s = DEV_SIGNING_KEY
        then Inl (RuntimeError ''KAIROS_SESSION_SIGNING_KEY (or DJANGO_SECRET_KEY) must be set in production'')
        else if cf_email_host s = '''' then Inl (RuntimeError ''SMTP_HOST must be set in production'')
        else if ''*'' \<in> List.set (cf_cors_origins s)
        then Inl (RuntimeError ''CORS_ALLOWED_ORIGINS must not contain '*' in production'')
        else Inr (s\<lparr> cf_allowed_hosts := filter (\<lambda>h. h \<noteq> '''')
               (split_on CHR '','' (environ_get os ''DJANGO_ALLOWED_HOSTS'' '''')),
             cf_ssl_redirect := True \<rparr>))"

fun settings_of :: "settings_module \<Rightarrow> environ \<Rightarrow> startup_error + settings" where
  "settings_of Dev os = dev_settings os"
| "settings_of Test os = test_settings os"
| "settings_of Perf os = perf_settings os"
| "settings_of Prod os = prod_settings os"

text \<open>The part of the settings that the running application reads.\<close>

definition configured :: "settings \<Rightarrow> world \<Rightarrow> world" where
  "configured s w = w\<lparr> w_settings := (w_settings w)\<lparr> st_mock_enabled := cf_mock_enabled s,
       st_stub_enabled := cf_stub_enabled s, st_issuer := cf_oidc_issuer s,
       st_client_id := cf_oidc_client_id s, st_session_ttl := cf_token_ttl s \<rparr>,
     w_origins := cf_cors_origins s, w_rate_limit_enabled := cf_rate_limit s \<rparr>"

section \<open>The beat schedule\<close>

datatype beat_task =
    Rolling_materialize_series_task | Rematerialize_stale_series_task | Check_tzdata_drift_task
  | Reap_expired_holds_task | Run_reconciliation_task | Run_schema_assertion_task
  | Evaluate_alerts_task | Cleanup_idempotency_keys_task

definition CELERY_BEAT_SCHEDULE :: "(string \<times> beat_task \<times> int) list" where
  "CELERY_BEAT_SCHEDULE =
     [(''rolling-materialize-series'', Rolling_materialize_series_task, ROLLING_MATERIALIZATION_INTERVAL_SECONDS),
      (''rematerialize-stale-series'', Rematerialize_stale_series_task, TZDATA_REMATERIALIZATION_INTERVAL_SECONDS),
      (''check-tzdata-drift'', Check_tzdata_drift_task, TZDATA_DRIFT_CHECK_INTERVAL_SECONDS),
      (''reap-expired-holds'', Reap_expired_holds_task, HOLD_REAPER_INTERVAL_SECONDS),
      (''run-reconciliation'', Run_reconciliation_task, RECONCILIATION_INTERVAL_SECONDS),
      (''run-schema-assertion'', Run_schema_assertion_task, SCHEMA_ASSERTION_INTERVAL_SECONDS),
      (''evaluate-alerts'', Evaluate_alerts_task, ALERT_EVALUATION_INTERVAL_SECONDS),
      (''cleanup-idempotency-keys'', Cleanup_idempotency_keys_task, IDEMPOTENCY_CLEANUP_INTERVAL_SECONDS)]"

text \<open>What a run draws from outside: an environment per transaction, the catalog text of the
  exclusion constraint, the identity column of the audit trail, the rendering of a float.\<close>

record job =
  jb_turns :: "nat \<Rightarrow> nat \<Rightarrow> env"
  jb_definition :: "string option"
  jb_ident :: "nat \<Rightarrow> string"
  jb_float_json :: "rat \<Rightarrow> json"

fun run_beat :: "beat_task \<Rightarrow> job \<Rightarrow> unit svc" where
  "run_beat Rolling_materialize_series_task j = void (rolling_materialize_series (jb_turns j))"
| "run_beat Rematerialize_stale_series_task j = void (rematerialize_stale_series (jb_turns j))"
| "run_beat Check_tzdata_drift_task j = ret ()"
| "run_beat Reap_expired_holds_task j = void (reap_expired_holds (jb_turns j))"
| "run_beat Run_reconciliation_task j = void (check_reconciliation (jb_turns j 0 0))"
| "run_beat Run_schema_assertion_task j = void (check_schema_assertion (jb_turns j 0 0) (jb_definition j))"
| "run_beat Evaluate_alerts_task j = void (evaluate_alerts_task (jb_ident j) (jb_float_json j) (jb_turns j 0))"
| "run_beat Cleanup_idempotency_keys_task j = void (cleanup_expired_idempotency_keys (jb_turns j 0 0))"

section \<open>Management commands\<close>

text \<open>Python's truth of a JSON value, as far as the findings hold any.\<close>

fun json_true :: "json \<Rightarrow> bool" where
  "json_true (JBool b) = b"
| "json_true (JNum n) = (n \<noteq> 0)"
| "json_true (JStr t) = (t \<noteq> '''')"
| "json_true (JArr xs) = (xs \<noteq> [])"
| "json_true (JObj ps) = (ps \<noteq> [])"
| "json_true _ = False"

text \<open>\<open>run_correctness_checks\<close>: the exit code.\<close>

definition run_correctness_checks :: "job \<Rightarrow> int svc" where
  "run_correctness_checks j =
     bind_svc (check_schema_assertion (jb_turns j 0 0) (jb_definition j)) (\<lambda>schema_findings.
     bind_svc (check_reconciliation (jb_turns j 1 0)) (\<lambda>reconciliation_findings.
       let schema_ok = json_true (json_get ''constraint_exists'' schema_findings) \<and>
             json_true (json_get ''covers_confirmed'' schema_findings) \<and>
             json_true (json_get ''covers_held'' schema_findings);
           reconciliation_ok = (json_get ''overlaps_found'' reconciliation_findings = JNum 0)
       in ret (if schema_ok \<and> reconciliation_ok then 0 else 1)))"

text \<open>\<open>rematerialize_series\<close>: the second job runs only when the first one ended well.\<close>

definition rematerialize_series_command :: "job \<Rightarrow> job \<Rightarrow> unit svc" where
  "rematerialize_series_command j j' =
     then_svc (void (rolling_materialize_series (jb_turns j))) (void (rematerialize_stale_series (jb_turns j')))"

definition cleanup_idempotency_keys_command :: "job \<Rightarrow> nat svc" where
  "cleanup_idempotency_keys_command j = cleanup_expired_idempotency_keys (jb_turns j 0 0)"

section \<open>Everything that happens\<close>

text \<open>A history is a list of events: requests, runs of the schedule, deliveries of the worker, and
  commands.  The worker may run a task late, more than once, or for something that is gone.\<close>

datatype event =
    Http world moment http_request
  | Beat beat_task job
  | Cascade "nat \<Rightarrow> env" uuid instant instant string
  | Notification "nat \<Rightarrow> env" "nat \<Rightarrow> string \<Rightarrow> task \<Rightarrow> string option" uuid string task
  | Alert_email "nat \<Rightarrow> nat \<Rightarrow> env" "nat \<Rightarrow> alert_event \<Rightarrow> string option" uuid
  | Correctness_checks job
  | Rematerialize job job
  | Cleanup job

fun run_event :: "event \<Rightarrow> db \<times> redis \<Rightarrow> db \<times> redis" where
  "run_event (Http w m q) s = snd (application w m q s)"
| "run_event (Beat t j) (d, rd) = (snd (run_beat t j d), rd)"
| "run_event (Cascade envs res s e rid) (d, rd) = (snd (create_offer_for_freed_range_task envs res s e rid d), rd)"
| "run_event (Notification envs send nid email t) (d, rd) =
     (snd (deliver_with_retries (Suc NOTIFICATION_MAX_RETRIES) envs send nid email t d), rd)"
| "run_event (Alert_email envs send aid) (d, rd) =
     (snd (send_alert_email_task ALERT_EMAIL_MAX_RETRIES envs send aid d), rd)"
| "run_event (Correctness_checks j) (d, rd) = (snd (run_correctness_checks j d), rd)"
| "run_event (Rematerialize j j') (d, rd) = (snd (rematerialize_series_command j j' d), rd)"
| "run_event (Cleanup j) (d, rd) = (snd (cleanup_idempotency_keys_command j d), rd)"

definition run_history :: "event list \<Rightarrow> db \<times> redis \<Rightarrow> db \<times> redis" where
  "run_history es s = fold run_event es s"

end
