(* ===== verification/Spec2Isabelle.thy ===== *)
theory Spec2Isabelle
  imports Waitlist_Race Series_Properties Idempotency_Properties Offboarding_Properties Authorization
    System_Properties Checks Rate_Limit Lists Alert_Properties Identity_Properties Api_Properties
    Waitlist_Termination Application_Properties Deployment_Properties
begin

text \<open>
  Kairos is a booking engine: a Django and REST-framework service over PostgreSQL, with Celery workers
  for what may happen later and Redis for throttling.  Users book resources for time ranges; a range
  that is taken can be waited for, and a freed range is offered to those who wait, one after the other,
  as a hold of limited life.  This development models the service (\<open>backend/kairos\<close>), statement by
  statement where it writes and field by field where it answers, and proves what it promises.  Paths
  below are relative to \<open>src/backend/kairos\<close>.

  \<^bold>\<open>The parts and how they interact.\<close>  A request passes the middleware, is authenticated and
  throttled, and reaches a view.  A view that writes runs its service under an idempotency key: the key
  is claimed, the service runs and the response is stored in one transaction.  Services change the
  tables; the exclusion constraint of \<open>booking\<close>, not the application, decides which of two conflicting
  writes wins; triggers copy every change of five tables into the audit trail.  What must follow a
  commit (the cascade of a freed range, notifications) is registered as a callback and handed to the
  broker, which may be down.  Background jobs reap expired holds, extend and re-materialize series,
  check the constraint and the data, raise alerts, and clean up.

  \<^bold>\<open>Theories.\<close>

  \<^item> \<open>Kairos_Prelude\<close>: results of services, sequencing, JSON, the fact collections, list lemmas.
  \<^item> \<open>Tstzrange\<close>, \<open>Calendar\<close>, \<open>Timezones\<close>, \<open>Uuids\<close>, \<open>Constants\<close>: ranges of PostgreSQL; the ISO texts
    the source prints; \<open>core/timezones.py\<close>; the text of a UUID; \<open>core/constants.py\<close>.
  \<^item> \<open>Tables\<close>, \<open>Models\<close>, \<open>Statements\<close>: SQL tables with immediate constraints; the model classes of the
    five applications and the constraints of \<open>bookings/migrations/0002\<close> and \<open>waitlist/migrations/0002\<close>;
    the statements on each table.
  \<^item> \<open>Exceptions\<close>: \<open>core/exceptions.py\<close> and the exception handler of \<open>core/drf.py\<close>.
  \<^item> \<open>Session\<close>: \<open>core/db.py\<close>, the trigger of \<open>core/migrations/0003\<close>, \<open>transaction.atomic\<close>.
  \<^item> \<open>Booking_Services\<close>, \<open>Waitlist_Services\<close>, \<open>Resource_Services\<close>, \<open>Offboarding\<close>: the four \<open>services.py\<close>;
    \<open>Authorization\<close>: \<open>identity/authorization.py\<close>.
  \<^item> \<open>Notifications\<close>, \<open>Heartbeat\<close>, \<open>Checks\<close>: \<open>core/notifications.py\<close>, \<open>core/heartbeat.py\<close>, and the checks
    \<open>core/reconciliation.py\<close>, \<open>core/schema_assertion.py\<close>, \<open>core/tzdata_check.py\<close>, \<open>core/replica.py\<close>.
  \<^item> \<open>Recurrence\<close>, \<open>Recurring_Series\<close>, \<open>Series_Tasks\<close>: \<open>bookings/recurrence.py\<close>,
    \<open>bookings/recurring_series.py\<close>, \<open>bookings/tasks.py\<close>.
  \<^item> \<open>Idempotency\<close>: \<open>core/idempotency.py\<close>.  \<open>Rate_Limit\<close>: \<open>core/rate_limit.py\<close>.
  \<^item> \<open>Metrics\<close>, \<open>Alerting\<close>: \<open>core/metrics.py\<close> with the metrics middleware, \<open>core/alerting.py\<close>.
  \<^item> \<open>Api\<close>, \<open>Pagination\<close>, \<open>Keyset\<close>: what the views share, \<open>core/pagination.py\<close>, the pattern of the lists.
  \<^item> \<open>Booking_Api\<close>, \<open>Waitlist_Api\<close>, \<open>Resource_Api\<close>, \<open>Identity_Api\<close>, \<open>Operations_Api\<close>: the views and
    serializers of the applications; \<open>Identity_Api\<close> also holds \<open>identity/oidc.py\<close>,
    \<open>identity/authentication.py\<close>, the dispatch of \<open>KairosAPIView\<close> and the remaining middleware.
  \<^item> \<open>System\<close>: all of this as one step relation.  \<open>Demo\<close>: the small world of the witnesses.
  \<^item> \<open>Routes\<close>: the URL tables (\<open>urls.py\<close> and those of the applications).  \<open>Application\<close>: an HTTP request
    from the middleware of \<open>settings/base.py\<close> through the URL dispatch, the views and the error handlers
    to the answer.
  \<^item> \<open>Deployment\<close>: the settings modules, the beat schedule with the tasks of \<open>core/tasks.py\<close>,
    \<open>bookings/tasks.py\<close> and \<open>waitlist/tasks.py\<close>, the management commands, and a history of the deployed
    program as a list of events.

  A service of the source is a function from the database to an exception or a value and the database
  afterwards (\<open>'a svc\<close>); the record \<open>db\<close> holds the tables, the session variables, the registered
  callbacks and the queue of the broker.  What a call draws from outside (clocks, fresh identifiers,
  failures of statements, the state of the broker, time zone data, SHA-256) is the record \<open>env\<close>; a loop
  over several transactions gets one environment per turn.

  \<^bold>\<open>Interfaces.\<close>  \<open>checked_table\<close> is the contract of a table whose constraints are checked on every new
  row version; \<open>db_table\<close> adds the access to one table of the database and \<open>audited_table\<close> the trigger.
  \<open>audited_invariant\<close> says which properties every lawful statement on an audited table keeps and gives
  them for every service; it is interpreted by \<open>history_ok\<close> (the trail rebuilds the tables) and by
  \<open>extends_log\<close> (the trail only grows).  \<open>endpoint_invariant\<close> carries a property of the services to all
  endpoints.  \<open>keyset\<close>, \<open>cursor_keyset\<close> and \<open>collation\<close> are the contract of a paginated list.

  \<^bold>\<open>What the lemmas show.\<close>

  \<^item> \<open>Booking_Properties\<close>: the complete outcome of create, edit and cancel, decided by the constraint
    alone; two concurrent creates have one winner; a failed call leaves nothing behind.
  \<^item> \<open>Waitlist_Properties\<close>, \<open>Waitlist_Race\<close>, \<open>Waitlist_Termination\<close>: the order of the candidates, the
    offer of a cascade, accepting and reaping exclude each other, the outcomes of accept and decline,
    the reaper leaves no expired hold, and the offers of a range come to an end.  \<open>offer_rounds\<close> gets one
    round more than entries are waiting as fuel; the theorem says that it never uses it up.
  \<^item> \<open>Idempotency_Properties\<close>: replay, refused reuse, undecided failures, and the limits of each.
  \<^item> \<open>Series_Properties\<close>: wall clocks across transitions, preview and confirm agree, the jobs.
  \<^item> \<open>Offboarding_Properties\<close>, \<open>Identity_Properties\<close>: what a deactivation leaves and that it locks its user
    out; only active, known users reach a handler.
  \<^item> \<open>Audit_Trail\<close>, \<open>Db_Invariant\<close>, \<open>System_Properties\<close>: the invariants of every reachable state.
  \<^item> \<open>Application_Properties\<close>: an HTTP request is a run of the system; errors come in the envelope;
    anonymous requests change nothing but the metrics; only listed origins may read.
  \<^item> \<open>Deployment_Properties\<close>: no history of requests, jobs, deliveries and commands books a slot twice;
    production refuses the defaults of development; the deploy gate is exact; the alert thresholds
    leave room for a missed run.
  \<^item> \<open>Api_Properties\<close>, \<open>Lists\<close>, \<open>Checks\<close>, \<open>Rate_Limit\<close>, \<open>Alert_Properties\<close>: the promises of the endpoints,
    the lists, the reconciliation, the token bucket and the alerts.

  A state is \<open>idle\<close> when no callback waits, \<open>at_rest\<close> when also no transaction is open and every
  constraint holds; \<open>tx_ok\<close> is what holds inside a transaction, \<open>safe\<close> a call that keeps it.  A step that
  only reads is \<open>pure_svc\<close>, one that does not even read is \<open>blind_svc\<close>.

  \<^bold>\<open>Bounds.\<close>  Integers of Python are unbounded and so are they here; instants count microseconds.  The
  loops of the source run over lists that exist before the loop, so their models are structural
  recursions and need no fuel; a series has at most \<open>MAX_SERIES_OCCURRENCES\<close> occurrences.

  \<^bold>\<open>What is assumed.\<close>  Statements of concurrent transactions that touch the same rows are serialised by
  the locks of PostgreSQL, so an execution is a sequence of steps; \<open>System\<close> lists jobs of several
  transactions both as a whole and transaction by transaction.  \<open>ev_fault\<close> gives, per kind of statement,
  the SQLSTATE with which the server fails it for reasons other than a constraint.  Parameters, not
  definitions, are: the JWT library and the keys of the identity provider, SHA-256, the time zone data,
  \<open>pg_get_constraintdef\<close>, the field validation and the formatting of instants of the REST framework,
  \<open>parse_date\<close> and \<open>parse_datetime\<close>, cursors in another JSON or ISO spelling than the one the server
  writes, the collation of names, the rows of \<open>user_group\<close>, the rendering of a float and of a row as
  JSON by the server, the identity column of \<open>audit_log\<close>, the mail backend, and the health of Redis.
  Texts are in the Latin-1 range, except in cursors, whose code points are unbounded.  The token bucket
  computes in rationals and its two clocks are those of the application and of the Redis server.
  Response headers are looked up by their exact name.  Logging and columns nothing reads are left out.

  \<^bold>\<open>Not modelled.\<close>  Settings that only configure Django, the REST framework, Celery or logging, and
  \<open>apps.py\<close>, \<open>wsgi.py\<close>, \<open>celery.py\<close> and the logging formatter: wiring without logic.  The migrations other
  than the constraint, the index and the trigger: the schema they build is the one the model classes
  declare, and the grants to the roles are privileges the server checks.  \<open>seed_perf_data\<close>,
  \<open>scripts/perf\<close> and \<open>scripts/spike\<close>: random data and measurements.  The HTML page of the dashboard, the
  browser client and the infrastructure files, which are no Python code of the service.
\<close>

end
